(* ===== verification/Prelude.thy ===== *)
theory Prelude
  imports Complex_Main "HOL-Library.Sublist" "HOL-Library.Word"
begin

text \<open>
  Shared vocabulary of the development: Go's panics and error values, maps whose missing
  keys read as the zero value, slice expressions with their bounds checks, and the generic
  facts on lists and maps that the component theories use.

  Go's \<open>int\<close> is 64 bits wide.  Counts, lengths and line numbers are bounded by the size of
  the data in memory, far below \<open>2^63\<close>, and are modelled as \<open>int\<close> or \<open>nat\<close>; the atomic
  counters of \<^verbatim>\<open>pkg/metrics\<close>, which may wrap, are words.  A \<open>float64\<close> is a \<open>real\<close>: rounding
  is not modelled.  A Go string is a sequence of bytes and is modelled as \<open>string\<close>, whose
  characters are bytes.
\<close>

named_theorems go_simps \<open>unfolding rules for the primitives of the Go runtime\<close>
named_theorems eval_simps \<open>definitions that evaluate a component on a concrete input\<close>

section \<open>Failures\<close>

text \<open>The run-time panics the modelled code can raise.\<close>

datatype panic = SliceBounds | SendOnClosed | CloseOfClosed | NilDeref | MakeChanSize

text \<open>
  Error values.  \<open>Wrapped msg e\<close> is \<^verbatim>\<open>fmt.Errorf("msg: %w", e)\<close> and \<open>WrappedPath msg p e\<close> is
  \<^verbatim>\<open>fmt.Errorf("msg %q: %w", p, e)\<close>; \<open>ErrorQuoted a p b\<close> is \<^verbatim>\<open>fmt.Errorf("a %q b", p)\<close>; \<open>Permanent e\<close> is the wrapper of \<^verbatim>\<open>pkg/retry\<close>; the remaining
  constructors are sentinel errors.
\<close>

datatype go_error =
    ErrorString string
  | Wrapped string go_error
  | WrappedPath string string go_error
  | ErrorQuoted string string string
  | Permanent go_error
  | ContextCanceled
  | ContextDeadlineExceeded
  | ErrMaxAttempts

section \<open>Maps with a zero value\<close>

text \<open>\<open>m[k]\<close> on a \<^verbatim>\<open>map[K]int\<close>: a missing key reads as 0; \<open>m[k]++\<close> starts from there.\<close>

definition map_get0 :: "('k \<rightharpoonup> int) \<Rightarrow> 'k \<Rightarrow> int" where
  "map_get0 m k = (case m k of None \<Rightarrow> 0 | Some v \<Rightarrow> v)"

definition map_incr :: "('k \<rightharpoonup> int) \<Rightarrow> 'k \<Rightarrow> ('k \<rightharpoonup> int)" where
  "map_incr m k = m(k \<mapsto> map_get0 m k + 1)"

lemma map_get0_empty [simp]: "map_get0 Map.empty k = 0"
  by (simp add: map_get0_def)

lemma map_get0_incr [simp]:
  "map_get0 (map_incr m k) k' = map_get0 m k' + (if k = k' then 1 else 0)"
  by (simp add: map_get0_def map_incr_def)

lemma map_get0_fold_incr:
  "map_get0 (fold (\<lambda>x m. map_incr m (g x)) xs m) k
     = map_get0 m k + int (length (filter (\<lambda>x. g x = k) xs))"
  by (induction xs arbitrary: m) auto

section \<open>Integer division\<close>

text \<open>Go's \<open>/\<close> and \<open>%\<close> truncate towards zero, as does the conversion of a float to an integer.\<close>

definition go_div :: "int \<Rightarrow> int \<Rightarrow> int" where
  "go_div a b = sgn a * sgn b * (\<bar>a\<bar> div \<bar>b\<bar>)"

definition go_rem :: "int \<Rightarrow> int \<Rightarrow> int" where
  "go_rem a b = a - b * go_div a b"

definition go_int :: "real \<Rightarrow> int" where
  "go_int x = (if x \<ge> 0 then \<lfloor>x\<rfloor> else \<lceil>x\<rceil>)"

lemma go_div_nonneg [simp]: "0 \<le> a \<Longrightarrow> 0 < b \<Longrightarrow> go_div a b = a div b"
  by (cases "a = 0") (simp_all add: go_div_def)

lemma go_rem_nonneg [simp]: "0 \<le> a \<Longrightarrow> 0 < b \<Longrightarrow> go_rem a b = a mod b"
  by (simp add: go_rem_def minus_mult_div_eq_mod)

section \<open>Slice expressions\<close>

text \<open>\<open>s[lo:hi]\<close> on a string: the bounds are checked against its length.\<close>

definition str_slice :: "'a list \<Rightarrow> int \<Rightarrow> int \<Rightarrow> panic + 'a list" where
  "str_slice s lo hi =
     (if 0 \<le> lo \<and> lo \<le> hi \<and> hi \<le> int (length s)
      then Inr (take (nat hi - nat lo) (drop (nat lo) s)) else Inl SliceBounds)"

lemma str_slice_Inr [simp]:
  "0 \<le> lo \<Longrightarrow> lo \<le> hi \<Longrightarrow> hi \<le> int (length s) \<Longrightarrow>
     str_slice s lo hi = Inr (take (nat hi - nat lo) (drop (nat lo) s))"
  by (simp add: str_slice_def)

lemma str_slice_panics_iff:
  "str_slice s lo hi = Inl SliceBounds \<longleftrightarrow> \<not> (0 \<le> lo \<and> lo \<le> hi \<and> hi \<le> int (length s))"
  by (auto simp: str_slice_def)

section \<open>Lists\<close>

lemma length_filter_append_count:
  "length (filter P (xs @ ys)) = length (filter P xs) + length (filter P ys)"
  by simp

lemma filter_concat_map: "filter P (concat (map g xs)) = concat (map (\<lambda>x. filter P (g x)) xs)"
  by (induction xs) auto

lemma all_splits_Cons:
  "(\<forall>u v. x # t = u @ v \<longrightarrow> Q u v) \<longleftrightarrow> Q [] (x # t) \<and> (\<forall>u v. t = u @ v \<longrightarrow> Q (x # u) v)"
  by (auto simp: Cons_eq_append_conv)

lemma prefix_take: "prefix p s \<Longrightarrow> take (length p) s = p"
  by (auto simp: prefix_def)

lemma find_append:
  "find P (xs @ ys) = (case find P xs of None \<Rightarrow> find P ys | Some x \<Rightarrow> Some x)"
  by (induction xs) auto

lemma enumerate_Suc_shift: "enumerate (Suc n) xs = map (\<lambda>(i, x). (Suc i, x)) (enumerate n xs)"
  by (induction xs arbitrary: n) auto

lemma in_set_enumerate_iff:
  "(i, x) \<in> set (enumerate n xs) \<longleftrightarrow> n \<le> i \<and> i < n + length xs \<and> xs ! (i - n) = x"
  by (auto simp: in_set_enumerate_eq)

lemma in_set_concat_enumerate:
  "y \<in> set (concat (map (\<lambda>(n, x). g n x) (enumerate 0 xs))) \<longleftrightarrow> (\<exists>n < length xs. y \<in> set (g n (xs ! n)))"
proof -
  have "y \<in> set (concat (map (\<lambda>(n, x). g n x) (enumerate 0 xs)))
      \<longleftrightarrow> (\<exists>n x. (n, x) \<in> set (enumerate 0 xs) \<and> y \<in> set (g n x))" by fastforce
  then show ?thesis by (simp add: in_set_enumerate_iff)
qed

end
