(* ===== verification/Models.thy ===== *)
theory Models
  imports Prelude "HOL-Library.Multiset"
begin

text \<open>
  \<^verbatim>\<open>pkg/models\<close>: the data exchanged by all components (\<^verbatim>\<open>analysis.go\<close>, \<^verbatim>\<open>job.go\<close>, \<^verbatim>\<open>policy.go\<close>,
  \<^verbatim>\<open>audit.go\<close>, \<^verbatim>\<open>notification.go\<close>) and \<^verbatim>\<open>NewSummary\<close>, the scoring function.  Severities and
  categories are plain Go strings, so a rule file may carry any text in them; the named
  constants are the ones the code compares with.  Times are nanoseconds (\<open>int\<close>), with 0 for
  Go's zero time.
\<close>

section \<open>Findings\<close>

type_synonym Severity = string
type_synonym FindingCategory = string

definition SeverityCritical :: Severity where "SeverityCritical = ''critical''"
definition SeverityHigh :: Severity where "SeverityHigh = ''high''"
definition SeverityMedium :: Severity where "SeverityMedium = ''medium''"
definition SeverityLow :: Severity where "SeverityLow = ''low''"
definition SeverityInfo :: Severity where "SeverityInfo = ''info''"

lemmas severity_defs [eval_simps] =
  SeverityCritical_def SeverityHigh_def SeverityMedium_def SeverityLow_def SeverityInfo_def

definition CategorySecurity :: FindingCategory where "CategorySecurity = ''security''"
definition CategoryQuality :: FindingCategory where "CategoryQuality = ''quality''"
definition CategoryLicense :: FindingCategory where "CategoryLicense = ''license''"
definition CategoryCompliance :: FindingCategory where "CategoryCompliance = ''compliance''"
definition CategoryStyle :: FindingCategory where "CategoryStyle = ''style''"

lemmas category_defs [eval_simps] =
  CategorySecurity_def CategoryQuality_def CategoryLicense_def CategoryCompliance_def CategoryStyle_def

record Finding =
  f_RuleID :: string
  f_RuleName :: string
  f_Category :: FindingCategory
  f_Severity :: Severity
  f_File :: string
  f_Line :: int
  f_Column :: int
  f_Message :: string
  f_Snippet :: string
  f_FixSuggestion :: string

record Summary =
  s_TotalFindings :: int
  s_BySeverity :: "string \<rightharpoonup> int"
  s_ByCategory :: "string \<rightharpoonup> int"
  s_Score :: real
  s_Passed :: bool

record AnalysisResult =
  ar_JobID :: string
  ar_RepoOwner :: string
  ar_RepoName :: string
  ar_CommitSHA :: string
  ar_Language :: string
  ar_Findings :: "Finding list"
  ar_Summary :: Summary
  ar_CompletedAt :: int
  ar_DurationMS :: int

section \<open>Jobs, policy results, audit entries, notifications\<close>

type_synonym JobStatus = string
type_synonym JobSource = string

definition JobStatusQueued :: JobStatus where "JobStatusQueued = ''queued''"
definition JobStatusRunning :: JobStatus where "JobStatusRunning = ''running''"
definition JobStatusCompleted :: JobStatus where "JobStatusCompleted = ''completed''"
definition JobStatusFailed :: JobStatus where "JobStatusFailed = ''failed''"
definition JobStatusCancelled :: JobStatus where "JobStatusCancelled = ''cancelled''"

definition JobSourceGitHub :: JobSource where "JobSourceGitHub = ''github''"
definition JobSourceGitLab :: JobSource where "JobSourceGitLab = ''gitlab''"
definition JobSourceAzureDevOps :: JobSource where "JobSourceAzureDevOps = ''azure_devops''"
definition JobSourceManual :: JobSource where "JobSourceManual = ''manual''"

lemmas job_consts [eval_simps] =
  JobStatusQueued_def JobStatusRunning_def JobStatusCompleted_def JobStatusFailed_def
  JobStatusCancelled_def JobSourceGitHub_def JobSourceGitLab_def JobSourceAzureDevOps_def
  JobSourceManual_def

record Job =
  j_ID :: string
  j_Source :: JobSource
  j_RepoURL :: string
  j_RepoOwner :: string
  j_RepoName :: string
  j_CommitSHA :: string
  j_Branch :: string
  j_PRNumber :: int
  j_Status :: JobStatus
  j_CreatedAt :: int
  j_StartedAt :: "int option"
  j_CompletedAt :: "int option"
  j_Meta :: "string \<rightharpoonup> string"

text \<open>The payload of an event is its JSON encoding.\<close>

record JobEvent =
  je_JobID :: string
  je_Type :: string
  je_Payload :: string
  je_At :: int

record RuleMatch =
  rm_RuleID :: string
  rm_Matched :: bool
  rm_Reason :: string

record PolicyResult =
  pr_JobID :: string
  pr_Allowed :: bool
  pr_Blocked :: bool
  pr_Warnings :: "string list"
  pr_Errors :: "string list"
  pr_Rules :: "RuleMatch list"

record AuditEntry =
  ae_ID :: string
  ae_JobID :: string
  ae_EventType :: string
  ae_Actor :: string
  ae_Payload :: string
  ae_Signature :: string
  ae_CreatedAt :: int

record AuditQuery =
  aq_JobID :: string
  aq_EventType :: string
  aq_Actor :: string
  aq_Since :: int
  aq_Until :: int
  aq_Limit :: int
  aq_Offset :: int

record NotificationRequest =
  nr_JobID :: string
  nr_Result :: AnalysisResult
  nr_Policy :: PolicyResult
  nr_Targets :: "string list"

section \<open>Scoring\<close>

definition max_f64 :: "real \<Rightarrow> real \<Rightarrow> real" where
  "max_f64 a b = (if a > b then a else b)"

definition NewSummary :: "Finding list \<Rightarrow> Summary" where
  "NewSummary findings =
     (let bySev = fold (\<lambda>f m. map_incr m (f_Severity f)) findings Map.empty;
          byCat = fold (\<lambda>f m. map_incr m (f_Category f)) findings Map.empty;
          deductions = real_of_int (map_get0 bySev ''critical'') * 20
                     + real_of_int (map_get0 bySev ''high'') * 10
                     + real_of_int (map_get0 bySev ''medium'') * 4
                     + real_of_int (map_get0 bySev ''low'') * 1
      in \<lparr> s_TotalFindings = int (length findings),
           s_BySeverity = bySev,
           s_ByCategory = byCat,
           s_Score = max_f64 0 (100 - deductions),
           s_Passed = (map_get0 bySev ''critical'' = 0 \<and> map_get0 bySev ''high'' = 0) \<rparr>)"

text \<open>The number of findings of a severity, the specification of the counters.\<close>

definition sev_count :: "Finding list \<Rightarrow> Severity \<Rightarrow> nat" where
  "sev_count fs s = length (filter (\<lambda>f. f_Severity f = s) fs)"

lemma NewSummary_BySeverity [simp]:
  "map_get0 (s_BySeverity (NewSummary fs)) s = int (sev_count fs s)"
  by (simp add: NewSummary_def Let_def map_get0_fold_incr sev_count_def)

lemma NewSummary_ByCategory [simp]:
  "map_get0 (s_ByCategory (NewSummary fs)) c = int (length (filter (\<lambda>f. f_Category f = c) fs))"
  by (simp add: NewSummary_def Let_def map_get0_fold_incr)

lemma NewSummary_Total [simp]: "s_TotalFindings (NewSummary fs) = int (length fs)"
  by (simp add: NewSummary_def Let_def)

lemma sev_count_zero_iff: "sev_count fs s = 0 \<longleftrightarrow> (\<forall>f \<in> set fs. f_Severity f \<noteq> s)"
  by (auto simp: sev_count_def filter_empty_conv)

lemma sev_count_append [simp]: "sev_count (fs @ gs) s = sev_count fs s + sev_count gs s"
  by (simp add: sev_count_def)

lemma NewSummary_Passed_iff:
  "s_Passed (NewSummary fs)
     \<longleftrightarrow> (\<forall>f \<in> set fs. f_Severity f \<noteq> ''critical'' \<and> f_Severity f \<noteq> ''high'')"
proof -
  have "s_Passed (NewSummary fs) \<longleftrightarrow> sev_count fs ''critical'' = 0 \<and> sev_count fs ''high'' = 0"
    by (simp add: NewSummary_def Let_def map_get0_fold_incr sev_count_def)
  then show ?thesis by (auto simp: sev_count_zero_iff)
qed

lemma NewSummary_Score:
  "s_Score (NewSummary fs) =
     max 0 (100 - (20 * real (sev_count fs ''critical'') + 10 * real (sev_count fs ''high'')
                 + 4 * real (sev_count fs ''medium'') + real (sev_count fs ''low'')))"
  by (simp add: NewSummary_def Let_def map_get0_fold_incr sev_count_def max_f64_def max_def)

lemma fold_incr_eq:
  "fold (\<lambda>x m. map_incr m (g x)) xs m k =
     (if k \<in> g ` set xs then Some (map_get0 m k + int (length (filter (\<lambda>x. g x = k) xs))) else m k)"
proof (induction xs arbitrary: m)
  case (Cons x xs)
  show ?case
    by (auto simp: Cons.IH) (auto simp: map_incr_def map_get0_def filter_empty_conv image_iff)
qed simp

lemma length_filter_mset_eq: "mset fs = mset gs \<Longrightarrow> length (filter P fs) = length (filter P gs)"
  by (metis mset_filter size_mset)

section \<open>Properties\<close>

text \<open>
  C25: the score is 100 minus the weighted counts (20 per critical, 10 per high, 4 per medium
  and 1 per low finding), never below 0; so it lies between 0 and 100, and it is 100 exactly
  when no finding has one of these four severities.  The README documents another weight: it
  deducts 5 for a medium finding where the code deducts 4.
\<close>

theorem NewSummary_score:
  "s_Score (NewSummary fs) =
     max 0 (100 - (20 * real (sev_count fs ''critical'') + 10 * real (sev_count fs ''high'')
                 + 4 * real (sev_count fs ''medium'') + real (sev_count fs ''low'')))
   \<and> 0 \<le> s_Score (NewSummary fs) \<and> s_Score (NewSummary fs) \<le> 100
   \<and> (s_Score (NewSummary fs) = 100 \<longleftrightarrow>
        f_Severity ` set fs \<inter> {''critical'', ''high'', ''medium'', ''low''} = {})"
proof -
  have "s_Score (NewSummary fs) = 100 \<longleftrightarrow>
      sev_count fs ''critical'' = 0 \<and> sev_count fs ''high'' = 0
      \<and> sev_count fs ''medium'' = 0 \<and> sev_count fs ''low'' = 0"
    by (auto simp: NewSummary_Score max_def)
  also have "\<dots> \<longleftrightarrow> f_Severity ` set fs \<inter> {''critical'', ''high'', ''medium'', ''low''} = {}"
    by (auto simp: sev_count_zero_iff image_iff)
  finally show ?thesis by (simp add: NewSummary_Score)
qed

text \<open>
  The summary does not depend on the order of the findings, only on how often each
  occurs.  (The files of an incremental check are visited in the random order of a Go map.)
\<close>

theorem NewSummary_order:
  assumes "mset fs = mset gs"
  shows "NewSummary fs = NewSummary gs"
proof -
  have "length fs = length gs" using assms by (rule mset_eq_length)
  moreover have "set fs = set gs" using assms by (rule mset_eq_setD)
  moreover have "fold (\<lambda>f m. map_incr m (h f)) fs Map.empty = fold (\<lambda>f m. map_incr m (h f)) gs Map.empty"
    for h :: "Finding \<Rightarrow> string"
    using length_filter_mset_eq[OF assms, of "\<lambda>f. h f = _"] \<open>set fs = set gs\<close>
    by (auto simp: fun_eq_iff fold_incr_eq)
  ultimately show ?thesis by (simp add: NewSummary_def)
qed

text \<open>A finding of a given severity, to evaluate the properties on.\<close>

definition ex_finding :: "Severity \<Rightarrow> Finding" where
  "ex_finding sev =
     \<lparr> f_RuleID = ''R'', f_RuleName = [], f_Category = [], f_Severity = sev, f_File = [], f_Line = 1,
       f_Column = 1, f_Message = [], f_Snippet = [], f_FixSuggestion = [] \<rparr>"

theorem NewSummary_order_witness:
  "NewSummary [ex_finding ''low'', ex_finding ''high''] = NewSummary [ex_finding ''high'', ex_finding ''low'']"
  by (rule NewSummary_order) simp

text \<open>
  The verdict.  A summary is passed exactly when no finding is critical or high; the
  score plays no part.  Twenty-five medium findings pass with score 0, and a single high
  finding fails with score 90.
\<close>

theorem NewSummary_verdict:
  "(s_Passed (NewSummary fs) \<longleftrightarrow> f_Severity ` set fs \<inter> {''critical'', ''high''} = {})
   \<and> s_Passed (NewSummary (replicate 25 (ex_finding ''medium'')))
   \<and> s_Score (NewSummary (replicate 25 (ex_finding ''medium''))) = 0
   \<and> \<not> s_Passed (NewSummary [ex_finding ''high''])
   \<and> s_Score (NewSummary [ex_finding ''high'']) = 90"
  by (auto simp: NewSummary_Passed_iff NewSummary_Score sev_count_def ex_finding_def image_iff)

end
