(* ===== verification/GoStrings.thy ===== *)
theory GoStrings
  imports Prelude
begin

text \<open>
  The parts of Go's \<^verbatim>\<open>strings\<close>, \<^verbatim>\<open>bufio\<close>, \<^verbatim>\<open>path/filepath\<close> and \<^verbatim>\<open>unicode/utf8\<close> packages that the
  program calls, on byte strings: searching, trimming, splitting, case folding, the line
  scanner with its token limit, and the decoding of UTF-8 into runes.
\<close>

section \<open>Searching\<close>

definition HasPrefix :: "string \<Rightarrow> string \<Rightarrow> bool" where
  [go_simps]: "HasPrefix s p = prefix p s"

fun index_of :: "string \<Rightarrow> string \<Rightarrow> nat option" where
  "index_of [] sub = (if sub = [] then Some 0 else None)"
| "index_of (c # s) sub =
     (if prefix sub (c # s) then Some 0 else map_option Suc (index_of s sub))"

definition strings_Index :: "string \<Rightarrow> string \<Rightarrow> int" where
  "strings_Index s sub = (case index_of s sub of None \<Rightarrow> - 1 | Some i \<Rightarrow> int i)"

definition Contains :: "string \<Rightarrow> string \<Rightarrow> bool" where
  "Contains s sub = (strings_Index s sub \<ge> 0)"

lemma index_of_Some_split:
  "index_of s sub = Some i \<Longrightarrow> \<exists>a b. s = a @ sub @ b \<and> length a = i"
proof (induction s arbitrary: i)
  case Nil
  then show ?case by (auto split: if_splits)
next
  case (Cons c s)
  show ?case
  proof (cases "prefix sub (c # s)")
    case True
    then obtain b where "c # s = [] @ sub @ b" by (auto elim: prefixE)
    moreover from True Cons.prems have "i = 0" by simp
    ultimately show ?thesis by fastforce
  next
    case False
    with Cons.prems obtain j where "index_of s sub = Some j" "i = Suc j" by auto
    with Cons.IH obtain a b where "s = a @ sub @ b" "length a = j" by blast
    with \<open>i = Suc j\<close> have "c # s = (c # a) @ sub @ b \<and> length (c # a) = i" by simp
    then show ?thesis by blast
  qed
qed

lemma index_of_None_iff: "index_of s sub = None \<longleftrightarrow> \<not> sublist sub s"
  by (induction s) (auto simp: sublist_Cons_right)

lemma index_of_first:
  "index_of s sub = Some i \<Longrightarrow> j < i \<Longrightarrow> \<not> prefix sub (drop j s)"
proof (induction s arbitrary: i j)
  case Nil
  then show ?case by (auto split: if_splits)
next
  case (Cons c s)
  then show ?case by (cases j) (auto split: if_splits)
qed

lemma strings_Index_neg [simp]: "strings_Index s sub = - 1 \<longleftrightarrow> index_of s sub = None"
  by (simp add: strings_Index_def split: option.splits)

lemma Contains_iff: "Contains s sub \<longleftrightarrow> sublist sub s"
  by (auto simp: Contains_def strings_Index_def split: option.splits
      dest: index_of_None_iff[THEN iffD1] index_of_Some_split)

section \<open>Trimming\<close>

text \<open>
  The UTF-8 encodings of the runes for which \<^verbatim>\<open>unicode.IsSpace\<close> holds.  An encoded space is
  recognised at the left end exactly when one of these is a prefix, and at the right end
  exactly when one is a suffix, because no other encoded rune ends in the same bytes.
\<close>

definition ascii_spaces :: "char list" where
  "ascii_spaces = [CHR 0x09, CHR 0x0A, CHR 0x0B, CHR 0x0C, CHR 0x0D, CHR 0x20]"

definition wide_spaces :: "string list" where
  "wide_spaces =
    [[CHR 0xC2, CHR 0x85], [CHR 0xC2, CHR 0xA0], [CHR 0xE1, CHR 0x9A, CHR 0x80],
     [CHR 0xE2, CHR 0x80, CHR 0x80], [CHR 0xE2, CHR 0x80, CHR 0x81], [CHR 0xE2, CHR 0x80, CHR 0x82],
     [CHR 0xE2, CHR 0x80, CHR 0x83], [CHR 0xE2, CHR 0x80, CHR 0x84], [CHR 0xE2, CHR 0x80, CHR 0x85],
     [CHR 0xE2, CHR 0x80, CHR 0x86], [CHR 0xE2, CHR 0x80, CHR 0x87], [CHR 0xE2, CHR 0x80, CHR 0x88],
     [CHR 0xE2, CHR 0x80, CHR 0x89], [CHR 0xE2, CHR 0x80, CHR 0x8A], [CHR 0xE2, CHR 0x80, CHR 0xA8],
     [CHR 0xE2, CHR 0x80, CHR 0xA9], [CHR 0xE2, CHR 0x80, CHR 0xAF], [CHR 0xE2, CHR 0x81, CHR 0x9F],
     [CHR 0xE3, CHR 0x80, CHR 0x80]]"

definition space_encodings :: "string list" where
  "space_encodings = map (\<lambda>c. [c]) ascii_spaces @ wide_spaces"

function trim_prefixes :: "string list \<Rightarrow> string \<Rightarrow> string" where
  "trim_prefixes ps s =
     (case find (\<lambda>p. p \<noteq> [] \<and> prefix p s) ps of
        None \<Rightarrow> s
      | Some p \<Rightarrow> trim_prefixes ps (drop (length p) s))"
  by pat_completeness auto
termination
proof (relation "measure (\<lambda>(ps, s). length s)")
  fix ps s p
  assume "find (\<lambda>p. p \<noteq> [] \<and> prefix p s) ps = Some p"
  then have "p \<noteq> []" "prefix p s" by (auto simp: find_Some_iff)
  then show "((ps, drop (length p) s), ps, s) \<in> measure (\<lambda>(ps, s). length s)"
    by (cases s) auto
qed simp

declare trim_prefixes.simps [simp del]

definition TrimLeft :: "string \<Rightarrow> string" where
  "TrimLeft s = trim_prefixes space_encodings s"

definition TrimRight :: "string \<Rightarrow> string" where
  "TrimRight s = rev (trim_prefixes (map rev space_encodings) (rev s))"

definition TrimSpace :: "string \<Rightarrow> string" where
  "TrimSpace s = TrimRight (TrimLeft s)"

text \<open>A character that no encoded space contains stops the trimming.\<close>

definition solid :: "char \<Rightarrow> bool" where
  "solid c \<longleftrightarrow> (\<forall>p \<in> set space_encodings. c \<notin> set p)"

lemma prefix_stops:
  assumes "prefix p (a @ c # b)" and "c \<notin> set p"
  shows "prefix p a"
  using assms by (auto simp: prefix_append prefix_Cons)

lemma trim_prefixes_solid:
  assumes "\<forall>p \<in> set ps. c \<notin> set p"
  shows "\<exists>a'. suffix a' a \<and> trim_prefixes ps (a @ c # b) = a' @ c # b"
proof (induction "length a" arbitrary: a rule: less_induct)
  case less
  show ?case
  proof (cases "find (\<lambda>p. p \<noteq> [] \<and> prefix p (a @ c # b)) ps")
    case None
    then show ?thesis by (subst trim_prefixes.simps) auto
  next
    case (Some p)
    then have p: "p \<in> set ps" "p \<noteq> []" "prefix p (a @ c # b)"
      by (auto simp: find_Some_iff)
    with assms have "prefix p a" by (blast intro: prefix_stops)
    then obtain a1 where a1: "a = p @ a1" by (auto elim: prefixE)
    with p(2) less[of a1] obtain a' where
      "suffix a' a1" "trim_prefixes ps (a1 @ c # b) = a' @ c # b" by auto
    with Some a1 show ?thesis
      by (subst trim_prefixes.simps) (auto simp: suffix_def)
  qed
qed

lemma TrimSpace_keeps:
  assumes "solid c" and "solid d" and "s = a @ (c # m @ [d]) @ b"
  shows "sublist (c # m @ [d]) (TrimSpace s)"
proof -
  have "\<forall>p \<in> set space_encodings. c \<notin> set p" using assms(1) by (simp add: solid_def)
  from trim_prefixes_solid[OF this, of a "m @ [d] @ b"] obtain a' where
    left: "TrimLeft s = a' @ c # m @ [d] @ b" by (auto simp: TrimLeft_def assms(3))
  have "\<forall>p \<in> set (map rev space_encodings). d \<notin> set p" using assms(2) by (auto simp: solid_def)
  from trim_prefixes_solid[OF this, of "rev b" "rev (a' @ c # m)"] obtain b' where
    "trim_prefixes (map rev space_encodings) (rev (a' @ c # m @ [d] @ b))
       = b' @ d # rev (a' @ c # m)" by auto
  then have "TrimSpace s = a' @ (c # m @ [d]) @ rev b'"
    by (simp add: TrimSpace_def TrimRight_def left)
  then show ?thesis by (simp only: sublist_appendI)
qed

lemma trim_prefixes_suffix: "suffix (trim_prefixes ps s) s"
proof (induction ps s rule: trim_prefixes.induct)
  case (1 ps s)
  show ?case
  proof (cases "find (\<lambda>p. p \<noteq> [] \<and> prefix p s) ps")
    case None
    then show ?thesis by (subst trim_prefixes.simps) simp
  next
    case (Some p)
    with 1 have "suffix (trim_prefixes ps (drop (length p) s)) (drop (length p) s)" by blast
    with Some show ?thesis
      by (subst trim_prefixes.simps) (auto intro: suffix_order.trans suffix_drop)
  qed
qed

lemma TrimSpace_sublist: "sublist (TrimSpace s) s"
proof -
  have l: "suffix (TrimLeft s) s" by (simp add: TrimLeft_def trim_prefixes_suffix)
  have "suffix (rev (TrimRight t)) (rev t)" for t
    by (simp add: TrimRight_def trim_prefixes_suffix)
  then have "prefix (TrimSpace s) (TrimLeft s)" by (simp add: TrimSpace_def suffix_to_prefix)
  with l show ?thesis
    by (meson prefix_imp_sublist sublist_order.order.trans suffix_imp_sublist)
qed

lemma trim_prefixes_stuck: "find (\<lambda>p. p \<noteq> [] \<and> prefix p (trim_prefixes ps s)) ps = None"
proof (induction ps s rule: trim_prefixes.induct)
  case (1 ps s)
  show ?case
  proof (cases "find (\<lambda>p. p \<noteq> [] \<and> prefix p s) ps")
    case None
    then show ?thesis by (simp add: trim_prefixes.simps[of ps s])
  next
    case (Some p)
    then show ?thesis using 1 by (simp add: trim_prefixes.simps[of ps s])
  qed
qed

lemma TrimSpace_head:
  assumes "TrimSpace s = c # t"
  shows "c \<notin> set ascii_spaces"
proof
  assume c: "c \<in> set ascii_spaces"
  have "suffix (rev (TrimSpace s)) (rev (TrimLeft s))"
    by (simp add: TrimSpace_def TrimRight_def trim_prefixes_suffix)
  then have "prefix [c] (TrimLeft s)" using assms by (auto simp: suffix_to_prefix prefix_def)
  with c have "find (\<lambda>p. p \<noteq> [] \<and> prefix p (TrimLeft s)) space_encodings \<noteq> None"
    by (auto simp: find_None_iff space_encodings_def)
  then show False by (simp add: TrimLeft_def trim_prefixes_stuck)
qed

lemma trim_prefixes_stop:
  assumes "\<forall>p \<in> set ps. c \<notin> set p"
  shows "trim_prefixes ps (c # t) = c # t"
  using trim_prefixes_solid[OF assms, of "[]" t] by auto

lemma trim_prefixes_drop:
  assumes "\<And>x. x \<in> set a \<Longrightarrow> [x] \<in> set ps" and "\<forall>p \<in> set ps. c \<notin> set p"
  shows "trim_prefixes ps (a @ c # t) = c # t"
proof -
  obtain a' where a': "suffix a' a" "trim_prefixes ps (a @ c # t) = a' @ c # t"
    using trim_prefixes_solid[OF assms(2)] by blast
  have "a' = []"
  proof (rule ccontr)
    assume "a' \<noteq> []"
    then obtain x b where b: "a' = x # b" by (cases a') auto
    with a'(1) assms(1) have "[x] \<in> set ps" by (auto simp: suffix_def)
    with b trim_prefixes_stuck[of ps "a @ c # t"] show False by (auto simp: a'(2) find_None_iff)
  qed
  with a'(2) show ?thesis by simp
qed

lemma TrimSpace_exact:
  assumes "set a \<subseteq> set ascii_spaces" and "set b \<subseteq> set ascii_spaces"
    and "t \<noteq> []" and "solid (hd t)" and "solid (last t)"
  shows "TrimSpace (a @ t @ b) = t"
proof -
  have sp: "[x] \<in> set space_encodings" if "x \<in> set ascii_spaces" for x
    using that by (auto simp: space_encodings_def)
  obtain c m where t: "t = c # m" using assms(3) by (cases t) auto
  have left: "TrimLeft (a @ t @ b) = t @ b"
    using trim_prefixes_drop[of a space_encodings c "m @ b"] assms(1,4) sp
    by (auto simp: TrimLeft_def t solid_def)
  obtain n d where t': "t = n @ [d]" using assms(3) by (metis rev_exhaust)
  have "trim_prefixes (map rev space_encodings) (rev b @ d # rev n) = d # rev n"
    by (rule trim_prefixes_drop) (use assms(2,5) sp in \<open>force simp: t' solid_def image_iff\<close>)+
  then have "TrimRight (t @ b) = t" by (simp add: TrimRight_def t')
  then show ?thesis by (simp add: TrimSpace_def left)
qed

lemma solid_ascii:
  assumes "of_char c < (0x80 :: int)" and "c \<notin> set ascii_spaces"
  shows "solid c"
  using assms by (auto simp: solid_def space_encodings_def wide_spaces_def)

lemma ascii_spaces_codes: "c \<in> set ascii_spaces \<longleftrightarrow> of_char c \<in> {9, 10, 11, 12, 13, 32 :: int}"
  by (cases c rule: char.exhaust) (auto simp: ascii_spaces_def)

section \<open>Splitting\<close>

text \<open>\<^verbatim>\<open>strings.Split\<close> with a one-byte separator: at least one piece, separators dropped.\<close>

fun split_on :: "char \<Rightarrow> string \<Rightarrow> string list" where
  "split_on c [] = [[]]"
| "split_on c (x # xs) =
     (if x = c then [] # split_on c xs
      else (case split_on c xs of [] \<Rightarrow> [[x]] | w # ws \<Rightarrow> (x # w) # ws))"

lemma split_on_nonempty [simp]: "split_on c s \<noteq> []"
  by (cases s) (auto split: list.splits)

lemma split_on_plain: "c \<notin> set w \<Longrightarrow> split_on c w = [w]"
  by (induction w) auto

lemma split_on_append: "c \<notin> set w \<Longrightarrow> split_on c (w @ c # s) = w # split_on c s"
  by (induction w) auto

text \<open>\<^verbatim>\<open>strings.Fields\<close>: the maximal runs without space encodings.\<close>

function fields_aux :: "string \<Rightarrow> string \<Rightarrow> string list" where
  "fields_aux cur [] = (if cur = [] then [] else [cur])"
| "fields_aux cur (c # s) =
     (case find (\<lambda>p. p \<noteq> [] \<and> prefix p (c # s)) space_encodings of
        Some p \<Rightarrow> (if cur = [] then [] else [cur]) @ fields_aux [] (drop (length p - 1) s)
      | None \<Rightarrow> fields_aux (cur @ [c]) s)"
  by pat_completeness auto
termination
  by (relation "measure (\<lambda>(cur, s). length s)") auto

definition Fields :: "string \<Rightarrow> string list" where
  "Fields s = fields_aux [] s"

lemma fields_aux_pending: "cur \<noteq> [] \<Longrightarrow> fields_aux cur s \<noteq> []"
  by (induction cur s rule: fields_aux.induct) (auto split: option.splits)

lemma Fields_TrimSpace: "TrimSpace s \<noteq> [] \<Longrightarrow> Fields (TrimSpace s) \<noteq> []"
proof -
  assume "TrimSpace s \<noteq> []"
  then obtain c t where t: "TrimSpace s = c # t" by (cases "TrimSpace s") auto
  have "suffix (rev (TrimSpace s)) (rev (TrimLeft s))"
    by (simp add: TrimSpace_def TrimRight_def trim_prefixes_suffix)
  then have "prefix (TrimSpace s) (TrimLeft s)" by (simp add: suffix_to_prefix)
  with trim_prefixes_stuck[of space_encodings s]
  have "find (\<lambda>p. p \<noteq> [] \<and> prefix p (TrimSpace s)) space_encodings = None"
    by (auto simp: find_None_iff TrimLeft_def dest: prefix_order.trans)
  with t show ?thesis by (simp add: Fields_def fields_aux_pending)
qed

section \<open>Case folding\<close>

text \<open>
  Lower case on bytes: the ASCII letters, and the two other runes whose lower case is an
  ASCII letter (the Kelvin sign and the dotted capital I).  Bytes of other non-ASCII runes
  are left alone; the program compares the result with ASCII constants only, to which no
  such rune is mapped.
\<close>

definition lower_char :: "char \<Rightarrow> char" where
  "lower_char c = (let n = of_char c :: int in if 65 \<le> n \<and> n \<le> 90 then char_of (n + 32) else c)"

definition upper_char :: "char \<Rightarrow> char" where
  "upper_char c = (let n = of_char c :: int in if 97 \<le> n \<and> n \<le> 122 then char_of (n - 32) else c)"

function fold_letters :: "(string \<times> char) list \<Rightarrow> string \<Rightarrow> string" where
  "fold_letters tbl [] = []"
| "fold_letters tbl (c # s) =
     (case find (\<lambda>(p, _). p \<noteq> [] \<and> prefix p (c # s)) tbl of
        Some (p, d) \<Rightarrow> d # fold_letters tbl (drop (length p - 1) s)
      | None \<Rightarrow> lower_char c # fold_letters tbl s)"
  by pat_completeness auto
termination
  by (relation "measure (\<lambda>(tbl, s). length s)") auto

definition ToLower :: "string \<Rightarrow> string" where
  "ToLower s =
     fold_letters [([CHR 0xE2, CHR 0x84, CHR 0xAA], CHR ''k''), ([CHR 0xC4, CHR 0xB0], CHR ''i'')] s"

text \<open>
  \<^verbatim>\<open>strings.EqualFold\<close>: equality of the folded strings.  Folding maps the ASCII capitals, the
  Kelvin sign and the long s to the ASCII letters of their orbits; this decides the
  comparison whenever one side is ASCII, as every language name of the program is.
\<close>

definition fold_case :: "string \<Rightarrow> string" where
  "fold_case s =
     fold_letters [([CHR 0xE2, CHR 0x84, CHR 0xAA], CHR ''k''), ([CHR 0xC5, CHR 0xBF], CHR ''s'')] s"

definition EqualFold :: "string \<Rightarrow> string \<Rightarrow> bool" where
  "EqualFold s t = (fold_case s = fold_case t)"

section \<open>Paths\<close>

definition Ext :: "string \<Rightarrow> string" where
  "Ext path =
     (let tl = takeWhile (\<lambda>c. c \<noteq> CHR ''/'') (rev path);
          e = takeWhile (\<lambda>c. c \<noteq> CHR ''.'') tl
      in if length e = length tl then [] else CHR ''.'' # rev e)"

definition Base :: "string \<Rightarrow> string" where
  "Base path =
     (if path = [] then ''.''
      else let p = dropWhile (\<lambda>c. c = CHR ''/'') (rev path);
               b = rev (takeWhile (\<lambda>c. c \<noteq> CHR ''/'') p)
           in if b = [] then ''/'' else b)"

definition clean_step :: "bool \<Rightarrow> string \<Rightarrow> string list \<Rightarrow> string list" where
  "clean_step rooted e out =
     (if e = [] \<or> e = ''.'' then out
      else if e = ''..'' then
        (if out \<noteq> [] \<and> last out \<noteq> ''..'' then butlast out
         else if rooted then out else out @ [e])
      else out @ [e])"

fun join_with :: "string \<Rightarrow> string list \<Rightarrow> string" where
  "join_with sep [] = []"
| "join_with sep [x] = x"
| "join_with sep (x # xs) = x @ sep @ join_with sep xs"

definition Clean :: "string \<Rightarrow> string" where
  "Clean path =
     (let rooted = HasPrefix path ''/'';
          out = fold (clean_step rooted) (split_on (CHR ''/'') path) [];
          p = (if rooted then ''/'' else []) @ join_with ''/'' out
      in if p = [] then ''.'' else p)"

definition Join :: "string list \<Rightarrow> string" where
  "Join elems =
     (let es = dropWhile (\<lambda>e. e = []) elems
      in if es = [] then [] else Clean (join_with ''/'' es))"

section \<open>The line scanner\<close>

text \<open>
  \<^verbatim>\<open>bufio.Scanner\<close> over a string with the default split function \<^verbatim>\<open>ScanLines\<close>.  A line ends at
  a newline or at the end of the text (a text that ends in a newline has no further line);
  one trailing carriage return is dropped.  The scanner's buffer holds at most
  \<^verbatim>\<open>MaxScanTokenSize\<close> = 64 KiB: \<^verbatim>\<open>Scan\<close> gives up for good at the first line with 65536 or more
  bytes before its newline, and the callers here do not look at \<^verbatim>\<open>Err\<close>.
\<close>

definition newline :: char where "newline = CHR 0x0A"

definition MaxScanTokenSize :: int where "MaxScanTokenSize = 64 * 1024"

fun raw_lines :: "string \<Rightarrow> string list" where
  "raw_lines [] = []"
| "raw_lines (c # s) =
     (if c = newline then [] # raw_lines s
      else (case raw_lines s of [] \<Rightarrow> [[c]] | l # ls \<Rightarrow> (c # l) # ls))"

definition dropCR :: "string \<Rightarrow> string" where
  "dropCR l = (if l \<noteq> [] \<and> last l = CHR 0x0D then butlast l else l)"

definition scan_lines :: "string \<Rightarrow> string list" where
  "scan_lines s = map dropCR (takeWhile (\<lambda>l. int (length l) < MaxScanTokenSize) (raw_lines s))"

lemma raw_lines_append: "newline \<notin> set l \<Longrightarrow> raw_lines (l @ newline # s) = l # raw_lines s"
  by (induction l) auto

lemma raw_lines_last: "newline \<notin> set l \<Longrightarrow> l \<noteq> [] \<Longrightarrow> raw_lines l = [l]"
proof (induction l)
  case (Cons c l)
  then show ?case by (cases l) auto
qed simp

lemma raw_lines_no_newline: "l \<in> set (raw_lines s) \<Longrightarrow> newline \<notin> set l"
  by (induction s arbitrary: l) (auto split: if_splits list.splits)

lemma scan_lines_no_newline: "l \<in> set (scan_lines s) \<Longrightarrow> newline \<notin> set l"
  by (auto simp: scan_lines_def dropCR_def dest!: set_takeWhileD raw_lines_no_newline
      dest: in_set_butlastD)

lemma scan_lines_short: "l \<in> set (scan_lines s) \<Longrightarrow> int (length l) < MaxScanTokenSize"
  by (force simp: scan_lines_def dropCR_def dest!: set_takeWhileD)

lemma scan_lines_Nil [simp]: "scan_lines [] = []"
  by (simp add: scan_lines_def)

lemma scan_lines_append:
  assumes "newline \<notin> set l" and "int (length l) < MaxScanTokenSize"
  shows "scan_lines (l @ newline # s) = dropCR l # scan_lines s"
  using assms by (simp add: scan_lines_def raw_lines_append)

lemma scan_lines_stops:
  assumes "newline \<notin> set l" and "MaxScanTokenSize \<le> int (length l)"
  shows "scan_lines (l @ newline # s) = []"
  using assms by (simp add: scan_lines_def raw_lines_append)

section \<open>Runes\<close>

type_synonym rune = int

definition RuneError :: rune where "RuneError = 0xFFFD"

definition cont_byte :: "int \<Rightarrow> int \<Rightarrow> char \<Rightarrow> bool" where
  "cont_byte lo hi c \<longleftrightarrow> (let n = of_char c :: int in lo \<le> n \<and> n \<le> hi)"

definition low6 :: "char \<Rightarrow> int" where
  "low6 c = of_char c - 0x80"

text \<open>\<^verbatim>\<open>utf8.DecodeRuneInString\<close> on \<open>c # s\<close>: the rune and the number of bytes after \<open>c\<close> it takes.\<close>

definition decode_rune :: "char \<Rightarrow> string \<Rightarrow> rune \<times> nat" where
  "decode_rune c s =
     (let b = of_char c :: int in
      if b < 0x80 then (b, 0)
      else if 0xC2 \<le> b \<and> b \<le> 0xDF then
        (case s of
           c1 # _ \<Rightarrow> if cont_byte 0x80 0xBF c1 then ((b - 0xC0) * 64 + low6 c1, 1) else (RuneError, 0)
         | _ \<Rightarrow> (RuneError, 0))
      else if 0xE0 \<le> b \<and> b \<le> 0xEF then
        (case s of
           c1 # c2 # _ \<Rightarrow>
             if cont_byte (if b = 0xE0 then 0xA0 else 0x80) (if b = 0xED then 0x9F else 0xBF) c1
                \<and> cont_byte 0x80 0xBF c2
             then ((b - 0xE0) * 4096 + low6 c1 * 64 + low6 c2, 2) else (RuneError, 0)
         | _ \<Rightarrow> (RuneError, 0))
      else if 0xF0 \<le> b \<and> b \<le> 0xF4 then
        (case s of
           c1 # c2 # c3 # _ \<Rightarrow>
             if cont_byte (if b = 0xF0 then 0x90 else 0x80) (if b = 0xF4 then 0x8F else 0xBF) c1
                \<and> cont_byte 0x80 0xBF c2 \<and> cont_byte 0x80 0xBF c3
             then ((b - 0xF0) * 262144 + low6 c1 * 4096 + low6 c2 * 64 + low6 c3, 3)
             else (RuneError, 0)
         | _ \<Rightarrow> (RuneError, 0))
      else (RuneError, 0))"

text \<open>A string as the runes that \<^verbatim>\<open>range\<close> visits, each with the bytes it was decoded from.\<close>

type_synonym text_rune = "rune \<times> string"

function runes :: "string \<Rightarrow> text_rune list" where
  "runes [] = []"
| "runes (c # s) =
     (case decode_rune c s of (r, n) \<Rightarrow> (r, c # take n s) # runes (drop n s))"
  by pat_completeness auto
termination
  by (relation "measure length") auto

definition bytes_of :: "text_rune list \<Rightarrow> string" where
  "bytes_of rs = concat (map snd rs)"

lemma bytes_of_simps [simp]:
  "bytes_of [] = []" "bytes_of (x # xs) = snd x @ bytes_of xs"
  "bytes_of (xs @ ys) = bytes_of xs @ bytes_of ys"
  by (simp_all add: bytes_of_def)

lemma bytes_of_runes [simp]: "bytes_of (runes s) = s"
  by (induction s rule: runes.induct) (auto split: prod.splits)

lemma runes_nonempty_bytes: "x \<in> set (runes s) \<Longrightarrow> snd x \<noteq> []"
  by (induction s rule: runes.induct) (auto split: prod.splits)

lemma length_runes_le: "length (runes s) \<le> length s"
  by (induction s rule: runes.induct) (auto split: prod.splits)

text \<open>On ASCII text decoding is the identity.\<close>

definition ascii :: "string \<Rightarrow> bool" where
  "ascii s \<longleftrightarrow> (\<forall>c \<in> set s. of_char c < (0x80 :: int))"

lemma runes_ascii: "ascii s \<Longrightarrow> runes s = map (\<lambda>c. (of_char c, [c])) s"
  by (induction s) (auto simp: ascii_def decode_rune_def Let_def)

text \<open>A rune below 128 was decoded from the one byte with its value.\<close>

lemma decode_rune_ascii:
  assumes "decode_rune c s = (r, n)" and "r < 0x80"
  shows "n = 0 \<and> r = of_char c"
  using assms
  by (auto simp: decode_rune_def Let_def RuneError_def cont_byte_def low6_def split: if_splits list.splits)

lemma runes_ascii_byte: "(r, w) \<in> set (runes s) \<Longrightarrow> r < 0x80 \<Longrightarrow> w = [char_of r]"
proof (induction s rule: runes.induct)
  case (2 c s)
  obtain r' n where d: "decode_rune c s = (r', n)" by (cases "decode_rune c s")
  show ?case
  proof (cases "(r, w) \<in> set (runes (drop n s))")
    case True
    with "2.IH"[OF d[symmetric]] "2.prems"(2) d show ?thesis by simp
  next
    case False
    with "2.prems" d have "r = r'" "w = c # take n s" by auto
    with decode_rune_ascii[OF d] "2.prems"(2) show ?thesis by simp
  qed
qed simp

end
