(* ===== verification/GoRegexp.thy ===== *)
theory GoRegexp
  imports GoStrings
begin

text \<open>
  Go's \<^verbatim>\<open>regexp\<close> package: parsed expressions as a datatype and their leftmost-first matching
  over runes.  \<open>rmatch r st\<close> lists the states in which a match of \<open>r\<close> begun in \<open>st\<close> can end, in
  the order in which a backtracking search tries them; Go returns the first one at the
  leftmost position where there is one.  The second part gives the meaning of an expression
  as an inductive relation and shows that the search finds exactly the related states.
  The translation of the pattern syntax into the datatype (\<^verbatim>\<open>regexp/syntax\<close>) is written out by
  hand for the patterns that are constants of the program, and is a parameter where a
  pattern comes from a rule file.
\<close>

section \<open>Expressions\<close>

datatype regex =
    REmpty
  | RClass "rune \<Rightarrow> bool"
  | RSeq regex regex
  | RAlt regex regex
  | RStar bool regex       \<comment> \<open>greedy if True\<close>
  | RGroup nat regex
  | RBeginText
  | REndText
  | RBeginLine
  | REndLine
  | RWordB bool            \<comment> \<open>a word boundary, or none if False\<close>

text \<open>
  A state of the search: the rune before the position (if any), the text from the position
  on, and the captures made so far, latest first.
\<close>

type_synonym caps = "(nat \<times> string) list"
type_synonym mstate = "rune option \<times> text_rune list \<times> caps"

definition word_rune :: "rune \<Rightarrow> bool" where
  "word_rune r \<longleftrightarrow> (48 \<le> r \<and> r \<le> 57) \<or> (65 \<le> r \<and> r \<le> 90) \<or> r = 95 \<or> (97 \<le> r \<and> r \<le> 122)"

definition word_at :: "rune option \<Rightarrow> bool" where
  "word_at p = (case p of None \<Rightarrow> False | Some r \<Rightarrow> word_rune r)"

definition next_rune :: "text_rune list \<Rightarrow> rune option" where
  "next_rune t = (case t of [] \<Rightarrow> None | x # _ \<Rightarrow> Some (fst x))"

text \<open>Zero-width assertions look at the two neighbouring runes.\<close>

definition at_boundary :: "rune option \<Rightarrow> text_rune list \<Rightarrow> bool" where
  "at_boundary p t \<longleftrightarrow> word_at p \<noteq> word_at (next_rune t)"

fun star_match :: "bool \<Rightarrow> (mstate \<Rightarrow> mstate list) \<Rightarrow> nat \<Rightarrow> mstate \<Rightarrow> mstate list" where
  "star_match g f 0 st = [st]"
| "star_match g f (Suc n) st =
     (let more = concat (map (\<lambda>st'. if length (fst (snd st')) < length (fst (snd st))
                                      then star_match g f n st' else [st']) (f st))
      in if g then more @ [st] else st # more)"

primrec rmatch :: "regex \<Rightarrow> mstate \<Rightarrow> mstate list" where
  "rmatch REmpty st = [st]"
| "rmatch (RClass P) st =
     (case st of (p, t, cs) \<Rightarrow>
        (case t of [] \<Rightarrow> [] | x # t' \<Rightarrow> if P (fst x) then [(Some (fst x), t', cs)] else []))"
| "rmatch (RSeq a b) st = concat (map (rmatch b) (rmatch a st))"
| "rmatch (RAlt a b) st = rmatch a st @ rmatch b st"
| "rmatch (RStar g a) st = star_match g (rmatch a) (Suc (length (fst (snd st)))) st"
| "rmatch (RGroup k a) st =
     map (\<lambda>(p', t', cs').
            (p', t', (k, bytes_of (take (length (fst (snd st)) - length t') (fst (snd st)))) # cs'))
         (rmatch a st)"
| "rmatch RBeginText st = (if fst st = None then [st] else [])"
| "rmatch REndText st = (if fst (snd st) = [] then [st] else [])"
| "rmatch RBeginLine st = (if fst st = None \<or> fst st = Some 10 then [st] else [])"
| "rmatch REndLine st =
     (if fst (snd st) = [] \<or> next_rune (fst (snd st)) = Some 10 then [st] else [])"
| "rmatch (RWordB b) st = (if at_boundary (fst st) (fst (snd st)) = b then [st] else [])"

text \<open>Abbreviations of the syntax: \<open>x+\<close>, \<open>x?\<close>, \<open>x{n,}\<close>, literals and classes.\<close>

definition RPlus :: "regex \<Rightarrow> regex" where "RPlus a = RSeq a (RStar True a)"
definition ROpt :: "regex \<Rightarrow> regex" where "ROpt a = RAlt a REmpty"

fun RAtLeast :: "nat \<Rightarrow> regex \<Rightarrow> regex" where
  "RAtLeast 0 a = RStar True a"
| "RAtLeast (Suc n) a = RSeq a (RAtLeast n a)"

fun RSeqs :: "regex list \<Rightarrow> regex" where
  "RSeqs [] = REmpty"
| "RSeqs [a] = a"
| "RSeqs (a # as) = RSeq a (RSeqs as)"

definition ROne :: "char \<Rightarrow> regex" where "ROne c = RClass (\<lambda>r. r = of_char c)"
definition RLit :: "string \<Rightarrow> regex" where "RLit s = RSeqs (map ROne s)"

definition rune_in :: "string \<Rightarrow> rune \<Rightarrow> bool" where
  "rune_in s r \<longleftrightarrow> (\<exists>c \<in> set s. r = of_char c)"

definition digit_rune :: "rune \<Rightarrow> bool" where "digit_rune r \<longleftrightarrow> 48 \<le> r \<and> r \<le> 57"
definition alpha_rune :: "rune \<Rightarrow> bool" where
  "alpha_rune r \<longleftrightarrow> (65 \<le> r \<and> r \<le> 90) \<or> (97 \<le> r \<and> r \<le> 122)"
definition space_rune :: "rune \<Rightarrow> bool" where
  "space_rune r \<longleftrightarrow> r = 9 \<or> r = 10 \<or> r = 12 \<or> r = 13 \<or> r = 32"

definition RSpaces :: regex where "RSpaces = RStar True (RClass space_rune)"
definition RSpaces1 :: regex where "RSpaces1 = RPlus (RClass space_rune)"

lemmas regex_abbrevs [eval_simps] =
  RPlus_def ROpt_def ROne_def RLit_def rune_in_def digit_rune_def alpha_rune_def space_rune_def
  RSpaces_def RSpaces1_def word_rune_def

section \<open>The search functions\<close>

text \<open>A successful match: bytes skipped before it, text from its start, and its end state.\<close>

type_synonym rmatch_result = "nat \<times> text_rune list \<times> mstate"

fun find_from :: "regex \<Rightarrow> rune option \<Rightarrow> text_rune list \<Rightarrow> rmatch_result option" where
  "find_from r p t =
     (case rmatch r (p, t, []) of
        st # _ \<Rightarrow> Some (0, t, st)
      | [] \<Rightarrow> (case t of
                 [] \<Rightarrow> None
               | x # t' \<Rightarrow> (case find_from r (Some (fst x)) t' of
                              None \<Rightarrow> None
                            | Some (k, res) \<Rightarrow> Some (length (snd x) + k, res))))"

declare find_from.simps [simp del]

definition MatchString :: "regex \<Rightarrow> string \<Rightarrow> bool" where
  "MatchString r s \<longleftrightarrow> find_from r None (runes s) \<noteq> None"

text \<open>The bytes of a match, from its start to the rest its end state leaves.\<close>

definition match_bytes :: "text_rune list \<Rightarrow> mstate \<Rightarrow> string" where
  "match_bytes t st = bytes_of (take (length t - length (fst (snd st))) t)"

definition FindStringIndex :: "regex \<Rightarrow> string \<Rightarrow> (nat \<times> nat) option" where
  "FindStringIndex r s =
     (case find_from r None (runes s) of
        None \<Rightarrow> None
      | Some (k, t, st) \<Rightarrow> Some (k, k + length (match_bytes t st)))"

text \<open>The submatches \<open>m[0..n]\<close>: a group that took no part is the empty string.\<close>

definition submatches :: "nat \<Rightarrow> text_rune list \<Rightarrow> mstate \<Rightarrow> string list" where
  "submatches n t st =
     match_bytes t st # map (\<lambda>k. case map_of (snd (snd st)) k of None \<Rightarrow> [] | Some w \<Rightarrow> w) [1..<Suc n]"

definition FindStringSubmatch :: "regex \<Rightarrow> nat \<Rightarrow> string \<Rightarrow> string list option" where
  "FindStringSubmatch r n s =
     (case find_from r None (runes s) of None \<Rightarrow> None | Some (_, t, st) \<Rightarrow> Some (submatches n t st))"

text \<open>
  \<^verbatim>\<open>FindAllStringSubmatch(s, -1)\<close>: successive matches, each search starting where the previous
  match ended.  An empty match at the search position moves on by one rune; it is dropped
  when it directly follows the previous match (\<open>fresh\<close> says that no match ended here).
\<close>

function find_all :: "regex \<Rightarrow> nat \<Rightarrow> bool \<Rightarrow> rune option \<Rightarrow> text_rune list \<Rightarrow> string list list" where
  "find_all r n fresh p t =
     (case find_from r p t of
        None \<Rightarrow> []
      | Some (k, t1, (p2, t2, cs)) \<Rightarrow>
          if length t2 < length t then submatches n t1 (p2, t2, cs) # find_all r n False p2 t2
          else (if fresh then [submatches n t1 (p2, t2, cs)] else []) @
               (case t of [] \<Rightarrow> [] | x # t' \<Rightarrow> find_all r n True (Some (fst x)) t'))"
  by pat_completeness auto
termination
  by (relation "measure (\<lambda>(r, n, fresh, p, t). length t)") auto

declare find_all.simps [simp del]

definition FindAllStringSubmatch :: "regex \<Rightarrow> nat \<Rightarrow> string \<Rightarrow> string list list" where
  "FindAllStringSubmatch r n s = find_all r n True None (runes s)"

section \<open>The meaning of an expression\<close>

text \<open>
  \<open>rmeans r s s'\<close>: reading from position \<open>s\<close> (the rune before it and the text after it), \<open>r\<close>
  can match up to position \<open>s'\<close>.  There is no order of alternatives and no bound on the
  iterations here.
\<close>

type_synonym rpos = "rune option \<times> text_rune list"

inductive rmeans :: "regex \<Rightarrow> rpos \<Rightarrow> rpos \<Rightarrow> bool" where
  m_empty: "rmeans REmpty s s"
| m_class: "P (fst x) \<Longrightarrow> rmeans (RClass P) (p, x # t) (Some (fst x), t)"
| m_seq: "rmeans a s s1 \<Longrightarrow> rmeans b s1 s2 \<Longrightarrow> rmeans (RSeq a b) s s2"
| m_alt1: "rmeans a s s1 \<Longrightarrow> rmeans (RAlt a b) s s1"
| m_alt2: "rmeans b s s1 \<Longrightarrow> rmeans (RAlt a b) s s1"
| m_star0: "rmeans (RStar g a) s s"
| m_star1: "rmeans a s s1 \<Longrightarrow> rmeans (RStar g a) s1 s2 \<Longrightarrow> rmeans (RStar g a) s s2"
| m_group: "rmeans a s s1 \<Longrightarrow> rmeans (RGroup k a) s s1"
| m_btext: "rmeans RBeginText (None, t) (None, t)"
| m_etext: "rmeans REndText (p, []) (p, [])"
| m_bline: "p = None \<or> p = Some 10 \<Longrightarrow> rmeans RBeginLine (p, t) (p, t)"
| m_eline: "t = [] \<or> next_rune t = Some 10 \<Longrightarrow> rmeans REndLine (p, t) (p, t)"
| m_wordb: "at_boundary p t = b \<Longrightarrow> rmeans (RWordB b) (p, t) (p, t)"

lemma m_class_pair: "P a \<Longrightarrow> rmeans (RClass P) (p, (a, w) # t) (Some a, t)"
  using m_class[of P "(a, w)"] by simp

inductive_cases rmeans_emptyE [elim!]: "rmeans REmpty s s'"
inductive_cases rmeans_classE [elim!]: "rmeans (RClass P) s s'"
inductive_cases rmeans_seqE [elim!]: "rmeans (RSeq a b) s s'"
inductive_cases rmeans_altE [elim!]: "rmeans (RAlt a b) s s'"
inductive_cases rmeans_groupE [elim!]: "rmeans (RGroup k a) s s'"
inductive_cases rmeans_btextE [elim!]: "rmeans RBeginText s s'"
inductive_cases rmeans_etextE [elim!]: "rmeans REndText s s'"
inductive_cases rmeans_blineE [elim!]: "rmeans RBeginLine s s'"
inductive_cases rmeans_elineE [elim!]: "rmeans REndLine s s'"
inductive_cases rmeans_wordbE [elim!]: "rmeans (RWordB b) s s'"

text \<open>The rune before the position reached after reading \<open>u\<close> from a position after \<open>p\<close>.\<close>

definition rune_after :: "rune option \<Rightarrow> text_rune list \<Rightarrow> rune option" where
  "rune_after p u = (if u = [] then p else Some (fst (last u)))"

lemma rune_after_simps [simp]:
  "rune_after p [] = p" "rune_after p (x # u) = rune_after (Some (fst x)) u"
  "rune_after p (u @ v) = rune_after (rune_after p u) v"
  by (auto simp: rune_after_def)

text \<open>A match consumes a stretch of the text and moves the position to its end.\<close>

lemma rmeans_consumes:
  "rmeans r s s' \<Longrightarrow> \<exists>u. snd s = u @ snd s' \<and> fst s' = rune_after (fst s) u"
proof (induction rule: rmeans.induct)
  case (m_seq a s s1 b s2)
  then obtain u v where "snd s = u @ snd s1" "fst s1 = rune_after (fst s) u"
    "snd s1 = v @ snd s2" "fst s2 = rune_after (fst s1) v" by auto
  then have "snd s = (u @ v) @ snd s2 \<and> fst s2 = rune_after (fst s) (u @ v)" by simp
  then show ?case by blast
next
  case (m_star1 a s s1 g s2)
  then obtain u v where "snd s = u @ snd s1" "fst s1 = rune_after (fst s) u"
    "snd s1 = v @ snd s2" "fst s2 = rune_after (fst s1) v" by auto
  then have "snd s = (u @ v) @ snd s2 \<and> fst s2 = rune_after (fst s) (u @ v)" by simp
  then show ?case by blast
next
  case (m_class P x p t)
  have "x # t = [x] @ t \<and> Some (fst x) = rune_after p [x]" by simp
  then show ?case by fastforce
qed auto

lemma rmeans_length: "rmeans r (p, t) (p', t') \<Longrightarrow> length t' \<le> length t"
  by (drule rmeans_consumes) auto

lemma rmeans_same:
  assumes "rmeans r (p, t) (p', t')" and "\<not> length t' < length t"
  shows "p' = p \<and> t' = t"
  using rmeans_consumes[OF assms(1)] assms(2) by auto

subsection \<open>The search finds exactly the related positions\<close>

lemma star_match_sound:
  assumes "\<And>p t cs p' t' cs'. (p', t', cs') \<in> set (f (p, t, cs)) \<Longrightarrow> rmeans a (p, t) (p', t')"
  shows "(p', t', cs') \<in> set (star_match g f n (p, t, cs)) \<Longrightarrow> rmeans (RStar g a) (p, t) (p', t')"
proof (induction n arbitrary: p t cs)
  case 0
  then show ?case by (auto intro: m_star0)
next
  case (Suc n)
  then consider "(p', t') = (p, t)"
    | q u ds where "(q, u, ds) \<in> set (f (p, t, cs))"
        "(p', t', cs') \<in> set (star_match g f n (q, u, ds)) \<or> (p', t', cs') = (q, u, ds)"
    by (auto simp: Let_def split: if_splits)
  then show ?case
  proof cases
    case 1
    then show ?thesis by (auto intro: m_star0)
  next
    case 2
    then have "rmeans a (p, t) (q, u)" by (blast intro: assms)
    moreover from 2 Suc.IH[of q u ds] have "rmeans (RStar g a) (q, u) (p', t')"
      by (auto intro: m_star0)
    ultimately show ?thesis by (rule m_star1)
  qed
qed

lemma rmatch_sound:
  "(p', t', cs') \<in> set (rmatch r (p, t, cs)) \<Longrightarrow> rmeans r (p, t) (p', t')"
proof (induction r arbitrary: p t cs p' t' cs')
  case (RStar g r)
  from RStar.IH RStar.prems show ?case
    unfolding rmatch.simps by (rule star_match_sound)
next
  case (RSeq a b)
  from RSeq.prems obtain q u ds where
    "(q, u, ds) \<in> set (rmatch a (p, t, cs))" "(p', t', cs') \<in> set (rmatch b (q, u, ds))" by auto
  with RSeq.IH show ?case by (blast intro: m_seq)
next
  case (RGroup k r)
  then show ?case by (auto intro: m_group)
next
  case (RAlt a b)
  then show ?case by (auto intro: m_alt1 m_alt2)
qed (auto intro: rmeans.intros m_class_pair split: if_splits list.splits)

lemma star_match_complete:
  assumes f: "\<And>p t cs p' t'. rmeans a (p, t) (p', t') \<Longrightarrow> \<exists>cs'. (p', t', cs') \<in> set (f (p, t, cs))"
  assumes "rmeans (RStar g a) (p, t) (p', t')" and "length t < n"
  shows "\<exists>cs'. (p', t', cs') \<in> set (star_match g f n (p, t, cs))"
  using assms(2,3)
proof (induction "RStar g a" "(p, t)" "(p', t')" arbitrary: p t n cs rule: rmeans.induct)
  case (m_star0 n cs)
  then show ?case by (cases n) (auto simp: Let_def)
next
  case (m_star1 s1 p t)
  obtain q u where s1: "s1 = (q, u)" by (cases s1)
  show ?case
  proof (cases "length u < length t")
    case False
    with m_star1(1) s1 have "q = p" "u = t" by (auto dest: rmeans_same)
    with m_star1 s1 show ?thesis by blast
  next
    case True
    obtain m where n: "n = Suc m" using m_star1.prems by (cases n) auto
    with True m_star1.prems have "length u < m" by simp
    obtain ds where ds: "(q, u, ds) \<in> set (f (p, t, cs))" using f m_star1(1) s1 by blast
    obtain cs' where "(p', t', cs') \<in> set (star_match g f m (q, u, ds))"
      using m_star1 s1 \<open>length u < m\<close> by blast
    with ds True show ?thesis unfolding n by (force simp: Let_def)
  qed
qed

lemma rmatch_complete:
  "rmeans r (p, t) (p', t') \<Longrightarrow> \<exists>cs'. (p', t', cs') \<in> set (rmatch r (p, t, cs))"
proof (induction r arbitrary: p t cs p' t')
  case (RSeq a b)
  then obtain q u where "rmeans a (p, t) (q, u)" "rmeans b (q, u) (p', t')" by auto
  with RSeq.IH show ?case by (fastforce)
next
  case (RStar g r)
  have "\<exists>cs'. (p', t', cs') \<in> set (star_match g (rmatch r) (Suc (length t)) (p, t, cs))"
    by (rule star_match_complete[where f = "rmatch r" and a = r]) (use RStar in auto)
  then show ?case by simp
next
  case (RAlt a b)
  then show ?case by (metis Un_iff rmatch.simps(4) rmeans_altE set_append)
next
  case (RGroup k r)
  then obtain cs' where "(p', t', cs') \<in> set (rmatch r (p, t, cs))" by blast
  then show ?case by force
qed (auto split: list.splits)

theorem rmatch_iff:
  "(\<exists>cs'. (p', t', cs') \<in> set (rmatch r (p, t, cs))) \<longleftrightarrow> rmeans r (p, t) (p', t')"
  using rmatch_sound rmatch_complete by blast

lemma rmatch_Nil_iff: "rmatch r (p, t, cs) = [] \<longleftrightarrow> (\<forall>s'. \<not> rmeans r (p, t) s')"
  using rmatch_iff[of _ _ r p t cs] by (metis ex_in_conv list.set(1) set_empty surj_pair)

subsection \<open>Leftmost matches\<close>

lemma find_from_None_iff:
  "find_from r p t = None \<longleftrightarrow> (\<forall>u v s'. t = u @ v \<longrightarrow> \<not> rmeans r (rune_after p u, v) s')"
proof (induction t arbitrary: p)
  case Nil
  have "find_from r p [] = None \<longleftrightarrow> rmatch r (p, [], []) = []"
    by (subst find_from.simps) (auto split: list.splits)
  then show ?case by (simp add: rmatch_Nil_iff)
next
  case (Cons x t)
  have "find_from r p (x # t) = None
      \<longleftrightarrow> rmatch r (p, x # t, []) = [] \<and> find_from r (Some (fst x)) t = None"
    by (subst find_from.simps) (auto split: list.splits option.splits)
  also have "\<dots> \<longleftrightarrow> (\<forall>s'. \<not> rmeans r (p, x # t) s')
      \<and> (\<forall>u v s'. t = u @ v \<longrightarrow> \<not> rmeans r (rune_after (Some (fst x)) u, v) s')"
    by (simp only: rmatch_Nil_iff Cons.IH)
  also have "\<dots> \<longleftrightarrow> (\<forall>u v s'. x # t = u @ v \<longrightarrow> \<not> rmeans r (rune_after p u, v) s')"
    by (simp add: all_splits_Cons)
  finally show ?case .
qed

lemma find_from_Some:
  assumes "find_from r p t = Some (k, t1, st)"
  shows "\<exists>u. t = u @ t1 \<and> k = length (bytes_of u) \<and> st \<in> set (rmatch r (rune_after p u, t1, []))"
  using assms
proof (induction t arbitrary: p k)
  case Nil
  then show ?case by (subst (asm) find_from.simps) (auto split: list.splits)
next
  case (Cons x t)
  show ?case
  proof (cases "rmatch r (p, x # t, [])")
    case Nil
    with Cons.prems obtain j where
      "find_from r (Some (fst x)) t = Some (j, t1, st)" and k: "k = length (snd x) + j"
      by (subst (asm) find_from.simps) (auto split: option.splits)
    with Cons.IH obtain u where "t = u @ t1" "j = length (bytes_of u)"
      "st \<in> set (rmatch r (rune_after (Some (fst x)) u, t1, []))" by blast
    with k have "x # t = (x # u) @ t1 \<and> k = length (bytes_of (x # u))
        \<and> st \<in> set (rmatch r (rune_after p (x # u), t1, []))" by simp
    then show ?thesis by blast
  next
    case (Cons st' sts)
    with Cons.prems have "x # t = [] @ t1 \<and> k = length (bytes_of [])
        \<and> st \<in> set (rmatch r (rune_after p [], t1, []))"
      by (subst (asm) find_from.simps) simp
    then show ?thesis by blast
  qed
qed

text \<open>The stretch a match takes: what precedes it, what it reads, what follows.\<close>

lemma find_from_split:
  assumes "find_from r p t = Some (k, t1, (p2, t2, cs))"
  obtains u v where "t = u @ v @ t2" and "t1 = v @ t2" and "k = length (bytes_of u)"
    and "match_bytes t1 (p2, t2, cs) = bytes_of v"
    and "rmeans r (rune_after p u, t1) (p2, t2)" and "(p2, t2, cs) \<in> set (rmatch r (rune_after p u, t1, []))"
proof -
  from find_from_Some[OF assms] obtain u where u: "t = u @ t1" "k = length (bytes_of u)"
    "(p2, t2, cs) \<in> set (rmatch r (rune_after p u, t1, []))" by blast
  then have m: "rmeans r (rune_after p u, t1) (p2, t2)" by (blast intro: rmatch_sound)
  then obtain v where v: "t1 = v @ t2" using rmeans_consumes by fastforce
  then have "match_bytes t1 (p2, t2, cs) = bytes_of v" by (simp add: match_bytes_def)
  with u v m that show thesis by simp
qed

lemma MatchString_iff:
  "MatchString r s \<longleftrightarrow> (\<exists>u v s'. runes s = u @ v \<and> rmeans r (rune_after None u, v) s')"
  by (auto simp: MatchString_def find_from_None_iff)

lemma MatchString_FindStringIndex: "MatchString r s \<longleftrightarrow> FindStringIndex r s \<noteq> None"
  by (auto simp: MatchString_def FindStringIndex_def split: option.splits)

lemma MatchString_FindStringSubmatch: "MatchString r s \<longleftrightarrow> FindStringSubmatch r n s \<noteq> None"
  by (auto simp: MatchString_def FindStringSubmatch_def split: option.splits)

lemma FindStringIndex_bounds:
  assumes "FindStringIndex r s = Some (a, b)"
  shows "a \<le> b \<and> b \<le> length s"
proof -
  from assms obtain t1 p2 t2 cs where f: "find_from r None (runes s) = Some (a, t1, (p2, t2, cs))"
    and b: "b = a + length (match_bytes t1 (p2, t2, cs))"
    by (auto simp: FindStringIndex_def split: option.splits)
  from f obtain u v where "runes s = u @ v @ t2" "a = length (bytes_of u)"
    "match_bytes t1 (p2, t2, cs) = bytes_of v" by (rule find_from_split)
  with b have "b + length (bytes_of t2) = length (bytes_of (runes s))" by simp
  with b show ?thesis by simp
qed

section \<open>Classes, repetition and captures\<close>

lemma rmeans_star_class:
  "rmeans (RStar g (RClass P)) s s' \<longleftrightarrow>
     (\<exists>u. snd s = u @ snd s' \<and> fst s' = rune_after (fst s) u \<and> list_all (\<lambda>x. P (fst x)) u)"
proof
  assume "rmeans (RStar g (RClass P)) s s'"
  then show "\<exists>u. snd s = u @ snd s' \<and> fst s' = rune_after (fst s) u \<and> list_all (\<lambda>x. P (fst x)) u"
  proof (induction "RStar g (RClass P)" s s' rule: rmeans.induct)
    case (m_star1 s s1 s2)
    then obtain x v where "snd s = x # snd s1" "fst s1 = Some (fst x)" "P (fst x)"
      "snd s1 = v @ snd s2" "fst s2 = rune_after (fst s1) v" "list_all (\<lambda>x. P (fst x)) v" by auto
    then have "snd s = (x # v) @ snd s2 \<and> fst s2 = rune_after (fst s) (x # v)
        \<and> list_all (\<lambda>x. P (fst x)) (x # v)" by simp
    then show ?case by blast
  qed simp
next
  have "rmeans (RStar g (RClass P)) (p, u @ t) (rune_after p u, t)"
    if "list_all (\<lambda>x. P (fst x)) u" for p u t
    using that
  proof (induction u arbitrary: p)
    case (Cons x u)
    then have "rmeans (RClass P) (p, x # u @ t) (Some (fst x), u @ t)" by (auto intro: m_class)
    moreover from Cons have "rmeans (RStar g (RClass P)) (Some (fst x), u @ t) (rune_after p (x # u), t)"
      by simp
    ultimately show ?case unfolding append_Cons by (rule m_star1)
  qed (auto intro: m_star0)
  moreover assume "\<exists>u. snd s = u @ snd s' \<and> fst s' = rune_after (fst s) u \<and> list_all (\<lambda>x. P (fst x)) u"
  ultimately show "rmeans (RStar g (RClass P)) s s'" by (cases s; cases s') auto
qed

lemma rmeans_AtLeast_class:
  "rmeans (RAtLeast n (RClass P)) s s' \<longleftrightarrow>
     (\<exists>u. snd s = u @ snd s' \<and> fst s' = rune_after (fst s) u \<and> list_all (\<lambda>x. P (fst x)) u \<and> n \<le> length u)"
proof (induction n arbitrary: s)
  case 0
  show ?case by (simp add: rmeans_star_class)
next
  case (Suc n)
  show ?case
  proof
    assume "rmeans (RAtLeast (Suc n) (RClass P)) s s'"
    then obtain p x t where s: "s = (p, x # t)" "P (fst x)"
      and "rmeans (RAtLeast n (RClass P)) (Some (fst x), t) s'" by auto
    with Suc obtain u where "t = u @ snd s'" "fst s' = rune_after (Some (fst x)) u"
      "list_all (\<lambda>x. P (fst x)) u" "n \<le> length u" by auto
    with s have "snd s = (x # u) @ snd s' \<and> fst s' = rune_after (fst s) (x # u)
        \<and> list_all (\<lambda>x. P (fst x)) (x # u) \<and> Suc n \<le> length (x # u)" by simp
    then show "\<exists>u. snd s = u @ snd s' \<and> fst s' = rune_after (fst s) u
        \<and> list_all (\<lambda>x. P (fst x)) u \<and> Suc n \<le> length u" by blast
  next
    assume "\<exists>u. snd s = u @ snd s' \<and> fst s' = rune_after (fst s) u
        \<and> list_all (\<lambda>x. P (fst x)) u \<and> Suc n \<le> length u"
    then obtain x u where u: "snd s = (x # u) @ snd s'" "fst s' = rune_after (fst s) (x # u)"
      "list_all (\<lambda>x. P (fst x)) (x # u)" "n \<le> length u" by (metis Suc_le_length_iff)
    then have "rmeans (RAtLeast n (RClass P)) (Some (fst x), u @ snd s') s'"
      by (subst Suc) auto
    with u have "rmeans (RClass P) s (Some (fst x), u @ snd s')"
      and "rmeans (RAtLeast n (RClass P)) (Some (fst x), u @ snd s') s'"
      by (cases s, auto intro: m_class)
    then show "rmeans (RAtLeast (Suc n) (RClass P)) s s'"
      unfolding RAtLeast.simps by (rule m_seq)
  qed
qed

text \<open>\<open>^[class]{n,}$\<close>: the whole text is in the class and has at least \<open>n\<close> runes.\<close>

lemma MatchString_whole_class:
  "MatchString (RSeqs [RBeginText, RAtLeast n (RClass P), REndText]) s
     \<longleftrightarrow> n \<le> length (runes s) \<and> list_all (\<lambda>x. P (fst x)) (runes s)"
proof
  assume "MatchString (RSeqs [RBeginText, RAtLeast n (RClass P), REndText]) s"
  then obtain u v where "runes s = u @ v" "rune_after None u = None"
    "n \<le> length v" "list_all (\<lambda>x. P (fst x)) v"
    by (auto simp: MatchString_iff rmeans_AtLeast_class)
  then show "n \<le> length (runes s) \<and> list_all (\<lambda>x. P (fst x)) (runes s)"
    by (auto simp: rune_after_def split: if_splits)
next
  assume *: "n \<le> length (runes s) \<and> list_all (\<lambda>x. P (fst x)) (runes s)"
  have "rmeans (RAtLeast n (RClass P)) (None, runes s) (rune_after None (runes s), [])"
    using * by (auto simp: rmeans_AtLeast_class)
  then have "rmeans (RSeqs [RBeginText, RAtLeast n (RClass P), REndText])
      (rune_after None [], runes s) (rune_after None (runes s), [])"
    by (auto intro: m_seq m_btext m_etext)
  then show "MatchString (RSeqs [RBeginText, RAtLeast n (RClass P), REndText]) s"
    unfolding MatchString_iff by (metis append_Nil)
qed

primrec no_groups :: "regex \<Rightarrow> bool" where
  "no_groups REmpty = True"
| "no_groups (RClass P) = True"
| "no_groups (RSeq a b) = (no_groups a \<and> no_groups b)"
| "no_groups (RAlt a b) = (no_groups a \<and> no_groups b)"
| "no_groups (RStar g a) = no_groups a"
| "no_groups (RGroup k a) = False"
| "no_groups RBeginText = True"
| "no_groups REndText = True"
| "no_groups RBeginLine = True"
| "no_groups REndLine = True"
| "no_groups (RWordB b) = True"

lemma no_groups_AtLeast [simp]: "no_groups (RAtLeast n a) = no_groups a"
  by (induction n) auto

lemma star_match_no_groups:
  assumes "\<And>p t cs p' t' cs'. (p', t', cs') \<in> set (f (p, t, cs)) \<Longrightarrow> cs' = cs"
  shows "(p', t', cs') \<in> set (star_match g f n (p, t, cs)) \<Longrightarrow> cs' = cs"
  by (induction n arbitrary: p t cs) (fastforce simp: Let_def dest: assms split: if_splits)+

lemma rmatch_no_groups:
  "no_groups r \<Longrightarrow> (p', t', cs') \<in> set (rmatch r (p, t, cs)) \<Longrightarrow> cs' = cs"
proof (induction r arbitrary: p t cs p' t' cs')
  case (RStar g r)
  have "cs' = cs"
    by (rule star_match_no_groups[where f = "rmatch r" and g = g and n = "Suc (length t)"])
       (use RStar in auto)
  then show ?case .
qed (fastforce split: if_splits list.splits)+

text \<open>Taking a sequence apart: the state between its two halves.\<close>

lemma rmatch_SeqE:
  assumes "(p', t', cs') \<in> set (rmatch (RSeq a b) (p, t, cs))"
  obtains p1 t1 c1 where "(p1, t1, c1) \<in> set (rmatch a (p, t, cs))"
    and "(p', t', cs') \<in> set (rmatch b (p1, t1, c1))"
  using assms by auto

lemma rmatch_rest:
  assumes "(p', t', cs') \<in> set (rmatch r (p, t, cs))"
  obtains u where "t = u @ t'"
  using rmeans_consumes[OF rmatch_sound[OF assms]] by auto

text \<open>Every result of \<^verbatim>\<open>FindAllStringSubmatch\<close> comes from a match somewhere in the text.\<close>

lemma find_all_match:
  assumes "m \<in> set (find_all r n fresh p t)"
  shows "\<exists>u t1 st. t = u @ t1 \<and> st \<in> set (rmatch r (rune_after p u, t1, [])) \<and> m = submatches n t1 st"
  using assms
proof (induction r n fresh p t rule: find_all.induct)
  case (1 r n fresh p t)
  from "1.prems" obtain k t1 p2 t2 cs where f: "find_from r p t = Some (k, t1, (p2, t2, cs))"
    by (cases "find_from r p t") (auto simp: find_all.simps[of r n fresh p t])
  obtain u v where u: "t = u @ v @ t2" "t1 = v @ t2"
    "(p2, t2, cs) \<in> set (rmatch r (rune_after p u, t1, []))" "rmeans r (rune_after p u, t1) (p2, t2)"
    using f by (rule find_from_split)
  then have p2: "p2 = rune_after p (u @ v)" using rmeans_consumes by fastforce
  have lift: "\<exists>w t1 st. t = w @ t1 \<and> st \<in> set (rmatch r (rune_after p w, t1, [])) \<and> m = submatches n t1 st"
    if "t = w0 @ t0" "\<exists>w t1 st. t0 = w @ t1 \<and> st \<in> set (rmatch r (rune_after (rune_after p w0) w, t1, []))
      \<and> m = submatches n t1 st" for w0 t0
    using that by (metis append.assoc rune_after_simps(3))
  consider "m = submatches n t1 (p2, t2, cs)"
    | "length t2 < length t" "m \<in> set (find_all r n False p2 t2)"
    | x t' where "\<not> length t2 < length t" "t = x # t'" "m \<in> set (find_all r n True (Some (fst x)) t')"
    using "1.prems" f by (subst (asm) find_all.simps) (auto split: if_splits list.splits)
  then show ?case
  proof cases
    case 1
    with u show ?thesis by blast
  next
    case 2
    from "1.IH"(1)[OF f refl refl refl refl 2] show ?thesis
      using lift[of "u @ v" t2] u(1) p2 by simp
  next
    case 3
    from "1.IH"(2)[OF f refl refl refl refl 3] show ?thesis
      using lift[of "[x]" t'] 3(2) by simp
  qed
qed

subsection \<open>What a group captures\<close>

primrec min_len :: "regex \<Rightarrow> nat" where
  "min_len REmpty = 0"
| "min_len (RClass P) = 1"
| "min_len (RSeq a b) = min_len a + min_len b"
| "min_len (RAlt a b) = min (min_len a) (min_len b)"
| "min_len (RStar g a) = 0"
| "min_len (RGroup k a) = min_len a"
| "min_len RBeginText = 0"
| "min_len REndText = 0"
| "min_len RBeginLine = 0"
| "min_len REndLine = 0"
| "min_len (RWordB b) = 0"

primrec groups :: "regex \<Rightarrow> (nat \<times> regex) list" where
  "groups REmpty = []"
| "groups (RClass P) = []"
| "groups (RSeq a b) = groups a @ groups b"
| "groups (RAlt a b) = groups a @ groups b"
| "groups (RStar g a) = groups a"
| "groups (RGroup k a) = (k, a) # groups a"
| "groups RBeginText = []"
| "groups REndText = []"
| "groups RBeginLine = []"
| "groups REndLine = []"
| "groups (RWordB b) = []"

text \<open>A group that takes part in every match.\<close>

primrec must_group :: "nat \<Rightarrow> regex \<Rightarrow> bool" where
  "must_group k REmpty = False"
| "must_group k (RClass P) = False"
| "must_group k (RSeq a b) = (must_group k a \<or> must_group k b)"
| "must_group k (RAlt a b) = (must_group k a \<and> must_group k b)"
| "must_group k (RStar g a) = False"
| "must_group k (RGroup j a) = (j = k \<or> must_group k a)"
| "must_group k RBeginText = False"
| "must_group k REndText = False"
| "must_group k RBeginLine = False"
| "must_group k REndLine = False"
| "must_group k (RWordB b) = False"

lemma min_len_RSeqs_Cons [simp]: "min_len (RSeqs (a # as)) = min_len a + min_len (RSeqs as)"
  by (cases as) auto

lemma groups_RSeqs_Cons [simp]: "groups (RSeqs (a # as)) = groups a @ groups (RSeqs as)"
  by (cases as) auto

lemma must_group_RSeqs_Cons [simp]:
  "must_group k (RSeqs (a # as)) = (must_group k a \<or> must_group k (RSeqs as))"
  by (cases as) auto

lemma groups_plain [simp]:
  "groups (ROne c) = []" "groups (RLit s) = []" "groups RSpaces = []" "groups RSpaces1 = []"
  "groups (RPlus (RClass P)) = []" "min_len (RPlus a) = min_len a" "min_len (ROne c) = 1"
proof -
  show "groups (RLit s) = []" unfolding RLit_def by (induction s) (auto simp: ROne_def)
qed (simp_all add: ROne_def RSpaces_def RSpaces1_def RPlus_def)

lemma rmeans_min_len: "rmeans r s s' \<Longrightarrow> min_len r + length (snd s') \<le> length (snd s)"
  by (induction rule: rmeans.induct) auto

text \<open>The captures after a step: those before it, and stretches of the text read by a group.\<close>

definition captured :: "(nat \<times> regex) list \<Rightarrow> text_rune list \<Rightarrow> caps \<Rightarrow> caps \<Rightarrow> bool" where
  "captured gs t cs cs' \<longleftrightarrow>
     (\<forall>(k, w) \<in> set cs'. (k, w) \<in> set cs
        \<or> (\<exists>a u. (k, a) \<in> set gs \<and> sublist u t \<and> w = bytes_of u \<and> min_len a \<le> length u))"

lemma captured_refl [simp]: "captured gs t cs cs"
  by (auto simp: captured_def)

lemma captured_trans:
  assumes "captured gs t cs c1" and "captured gs' (t1 :: text_rune list) c1 c2" and "t = u @ t1"
    and "set gs \<subseteq> set hs" and "set gs' \<subseteq> set hs"
  shows "captured hs t cs c2"
proof -
  have sub: "sublist v t" if "sublist v t1" for v
    using that assms(3) by (metis sublist_append_leftI sublist_order.order.trans)
  have old: "(k, w) \<in> set cs \<or> (\<exists>a v. (k, a) \<in> set hs \<and> sublist v t \<and> w = bytes_of v \<and> min_len a \<le> length v)"
    if "(k, w) \<in> set c1" for k w
    using assms(1,4) that unfolding captured_def by blast
  have "(k, w) \<in> set c1 \<or> (\<exists>a v. (k, a) \<in> set hs \<and> sublist v t \<and> w = bytes_of v \<and> min_len a \<le> length v)"
    if "(k, w) \<in> set c2" for k w
    using assms(2,5) that sub unfolding captured_def by blast
  with old show ?thesis unfolding captured_def by blast
qed

lemma captured_mono: "captured gs t cs cs' \<Longrightarrow> set gs \<subseteq> set hs \<Longrightarrow> captured hs t cs cs'"
  unfolding captured_def by blast

lemma star_match_captured:
  assumes "\<And>p t cs p' t' cs'. (p', t', cs') \<in> set (f (p, t, cs)) \<Longrightarrow> captured gs t cs cs' \<and> (\<exists>u. t = u @ t')"
  shows "(p', t', cs') \<in> set (star_match g f n (p, t, cs)) \<Longrightarrow> captured gs t cs cs'"
proof (induction n arbitrary: p t cs)
  case (Suc n)
  then consider "cs' = cs"
    | q v ds where "(q, v, ds) \<in> set (f (p, t, cs))"
        "(p', t', cs') \<in> set (star_match g f n (q, v, ds)) \<or> cs' = ds"
    by (auto simp: Let_def split: if_splits)
  then show ?case
  proof cases
    case 2
    with assms obtain u where u: "captured gs t cs ds" "t = u @ v" by blast
    from 2 Suc.IH have "captured gs v ds cs'" by auto
    with u show ?thesis by (auto intro: captured_trans)
  qed simp
qed simp

lemma rmatch_captured: "(p', t', cs') \<in> set (rmatch r (p, t, cs)) \<Longrightarrow> captured (groups r) t cs cs'"
proof (induction r arbitrary: p t cs p' t' cs')
  case (RSeq a b)
  from RSeq.prems obtain p1 t1 c1 where 1: "(p1, t1, c1) \<in> set (rmatch a (p, t, cs))"
    and 2: "(p', t', cs') \<in> set (rmatch b (p1, t1, c1))" by (rule rmatch_SeqE)
  from 1 obtain u where "t = u @ t1" by (rule rmatch_rest)
  with RSeq.IH(1)[OF 1] RSeq.IH(2)[OF 2] show ?case by (rule captured_trans) auto
next
  case (RAlt a b)
  then consider "captured (groups a) t cs cs'" | "captured (groups b) t cs cs'" by fastforce
  then show ?case by cases (auto elim: captured_mono)
next
  case (RStar g a)
  have run: "(p', t', cs') \<in> set (star_match g (rmatch a) (Suc (length t)) (p, t, cs))"
    using RStar.prems by (simp del: star_match.simps)
  have "captured (groups a) t cs cs'"
  proof (rule star_match_captured[OF _ run])
    fix q u ds q' u' ds'
    assume st: "(q', u', ds') \<in> set (rmatch a (q, u, ds))"
    obtain v where "u = v @ u'" using st by (rule rmatch_rest)
    with RStar.IH[OF st] show "captured (groups a) u ds ds' \<and> (\<exists>v. u = v @ u')" by blast
  qed
  then show ?case by simp
next
  case (RGroup k a)
  then obtain c where c: "(p', t', c) \<in> set (rmatch a (p, t, cs))"
    and cs': "cs' = (k, bytes_of (take (length t - length t') t)) # c" by auto
  from c obtain u where u: "t = u @ t'" by (rule rmatch_rest)
  have "min_len a \<le> length u" using rmeans_min_len[OF rmatch_sound[OF c]] u by simp
  moreover have "captured ((k, a) # groups a) t cs c" using RGroup.IH[OF c] by (auto intro: captured_mono)
  ultimately show ?case using u unfolding cs' captured_def by auto
qed (auto split: list.splits if_splits)

lemma star_match_keeps:
  assumes "\<And>p t cs p' t' cs'. (p', t', cs') \<in> set (f (p, t, cs)) \<Longrightarrow> set cs \<subseteq> set cs'"
  shows "(p', t', cs') \<in> set (star_match g f n (p, t, cs)) \<Longrightarrow> set cs \<subseteq> set cs'"
proof (induction n arbitrary: p t cs)
  case (Suc n)
  then consider "cs' = cs"
    | q v ds where "(q, v, ds) \<in> set (f (p, t, cs))"
        "(p', t', cs') \<in> set (star_match g f n (q, v, ds)) \<or> cs' = ds"
    by (auto simp: Let_def split: if_splits)
  then show ?case
  proof cases
    case 2
    with assms have "set cs \<subseteq> set ds" by blast
    with 2 Suc.IH show ?thesis by blast
  qed simp
qed simp

lemma rmatch_keeps: "(p', t', cs') \<in> set (rmatch r (p, t, cs)) \<Longrightarrow> set cs \<subseteq> set cs'"
proof (induction r arbitrary: p t cs p' t' cs')
  case (RSeq a b)
  from RSeq.prems show ?case by (rule rmatch_SeqE) (use RSeq.IH in blast)
next
  case (RStar g a)
  show ?case
    by (rule star_match_keeps[where f = "rmatch a" and g = g and n = "Suc (length t)"])
       (use RStar in fastforce)+
next
  case (RGroup k a)
  then show ?case by fastforce
next
  case (RAlt a b)
  then consider "(p', t', cs') \<in> set (rmatch a (p, t, cs))" | "(p', t', cs') \<in> set (rmatch b (p, t, cs))"
    by auto
  then show ?case by cases (rule RAlt.IH, assumption)+
qed (auto split: list.splits if_splits)

lemma rmatch_must_group:
  "(p', t', cs') \<in> set (rmatch r (p, t, cs)) \<Longrightarrow> must_group k r \<Longrightarrow> k \<in> fst ` set cs'"
proof (induction r arbitrary: p t cs p' t' cs')
  case (RSeq a b)
  from RSeq.prems(1) obtain p1 t1 c1 where 1: "(p1, t1, c1) \<in> set (rmatch a (p, t, cs))"
    and 2: "(p', t', cs') \<in> set (rmatch b (p1, t1, c1))" by (rule rmatch_SeqE)
  from RSeq.prems(2) consider "must_group k a" | "must_group k b" by auto
  then show ?case
  proof cases
    case 1
    with RSeq.IH(1) \<open>(p1, t1, c1) \<in> _\<close> rmatch_keeps[OF 2] show ?thesis by blast
  next
    case 2
    with RSeq.IH(2) \<open>(p', t', cs') \<in> set (rmatch b _)\<close> show ?thesis by blast
  qed
next
  case (RAlt a b)
  then consider "(p', t', cs') \<in> set (rmatch a (p, t, cs))" | "(p', t', cs') \<in> set (rmatch b (p, t, cs))"
    by auto
  with RAlt show ?case by cases auto
next
  case (RGroup j a)
  then show ?case by fastforce
qed (auto split: list.splits if_splits)

text \<open>The text of a group in a submatch list.\<close>

lemma FindStringSubmatch_group:
  assumes "FindStringSubmatch r n s = Some m" and "must_group k r" and "1 \<le> k" and "k \<le> n"
  shows "\<exists>a u. (k, a) \<in> set (groups r) \<and> sublist u (runes s) \<and> m ! k = bytes_of u \<and> min_len a \<le> length u"
proof -
  from assms(1) obtain j t1 p2 t2 cs where f: "find_from r None (runes s) = Some (j, t1, (p2, t2, cs))"
    and m: "m = submatches n t1 (p2, t2, cs)" by (auto simp: FindStringSubmatch_def split: option.splits)
  from f obtain u v where u: "runes s = u @ v @ t2" "t1 = v @ t2"
    "(p2, t2, cs) \<in> set (rmatch r (rune_after None u, t1, []))" by (rule find_from_split)
  from rmatch_must_group[OF u(3) assms(2)] obtain w where w: "map_of cs k = Some w"
    by (metis map_of_eq_None_iff not_Some_eq)
  with rmatch_captured[OF u(3)] obtain a x where "(k, a) \<in> set (groups r)" "sublist x t1"
    "w = bytes_of x" "min_len a \<le> length x" unfolding captured_def by (fastforce dest: map_of_SomeD)
  moreover have "m ! k = w"
    using w assms(3,4) by (simp add: m submatches_def nth_Cons' del: upt_Suc)
  moreover have "sublist t1 (runes s)" using u(1,2) by simp
  ultimately show ?thesis by (blast intro: sublist_order.order.trans)
qed

lemma bytes_of_sublist_nonempty:
  assumes "sublist u (runes s)" and "u \<noteq> []"
  shows "bytes_of u \<noteq> []"
proof -
  from assms have "hd u \<in> set (runes s)" by (meson hd_in_set set_mono_sublist subsetD)
  then have "snd (hd u) \<noteq> []" by (rule runes_nonempty_bytes)
  with assms(2) show ?thesis by (cases u) auto
qed

lemma FindStringSubmatch_nonempty:
  assumes "FindStringSubmatch r n s = Some m" and "must_group k r" and "1 \<le> k" and "k \<le> n"
    and "\<forall>a. (k, a) \<in> set (groups r) \<longrightarrow> 1 \<le> min_len a"
  shows "m ! k \<noteq> []"
proof -
  from FindStringSubmatch_group[OF assms(1-4)] obtain a u where u: "(k, a) \<in> set (groups r)"
    "sublist u (runes s)" "m ! k = bytes_of u" "min_len a \<le> length u" by blast
  with assms(5) have "u \<noteq> []" by fastforce
  with u show ?thesis by (simp add: bytes_of_sublist_nonempty)
qed

subsection \<open>First matches\<close>

text \<open>
  \<open>leads r st st'\<close>: the first match of \<open>r\<close> from \<open>st\<close> ends in \<open>st'\<close>.  These rules compute first
  matches along the structure of an expression when its classes are told apart by the text.
\<close>

definition leads :: "regex \<Rightarrow> mstate \<Rightarrow> mstate \<Rightarrow> bool" where
  "leads r st st' \<longleftrightarrow> (\<exists>sts. rmatch r st = st' # sts)"

lemma leads_empty: "leads REmpty st st"
  by (simp add: leads_def)

lemma leads_begin: "leads RBeginText (None, t, cs) (None, t, cs)"
  by (simp add: leads_def)

lemma leads_class: "P (fst x) \<Longrightarrow> leads (RClass P) (p, x # t, cs) (Some (fst x), t, cs)"
  by (simp add: leads_def)

lemma leads_seq: "leads a st st1 \<Longrightarrow> leads b st1 st2 \<Longrightarrow> leads (RSeq a b) st st2"
  by (auto simp: leads_def)

lemma leads_alt1: "leads a st st1 \<Longrightarrow> leads (RAlt a b) st st1"
  by (auto simp: leads_def)

lemma leads_alt2: "rmatch a st = [] \<Longrightarrow> leads b st st1 \<Longrightarrow> leads (RAlt a b) st st1"
  by (auto simp: leads_def)

lemma leads_group:
  "leads a (p, u @ t, cs) (p', t, cs') \<Longrightarrow> leads (RGroup k a) (p, u @ t, cs) (p', t, (k, bytes_of u) # cs')"
  by (auto simp: leads_def)

lemma star_match_longest:
  assumes f: "\<And>p x t cs. P (fst x) \<Longrightarrow> f (p, x # t, cs) = [(Some (fst x), t, cs)]"
    "\<And>p t cs. t = [] \<or> \<not> P (fst (hd t)) \<Longrightarrow> f (p, t, cs) = []"
    and "list_all (\<lambda>x. P (fst x)) u" and "t = [] \<or> \<not> P (fst (hd t))" and "length u < n"
  shows "\<exists>sts. star_match True f n (p, u @ t, cs) = (rune_after p u, t, cs) # sts"
  using assms(3-)
proof (induction u arbitrary: n p)
  case Nil
  then show ?case by (cases n) (auto simp: f(2))
next
  case (Cons x u)
  then obtain m where m: "n = Suc m" "length u < m" by (cases n) auto
  from Cons.prems have u: "list_all (\<lambda>x. P (fst x)) u" "P (fst x)" by simp_all
  from Cons.IH[OF u(1) Cons.prems(2) m(2), of "Some (fst x)"] obtain sts
    where "star_match True f m (Some (fst x), u @ t, cs) = (rune_after (Some (fst x)) u, t, cs) # sts" ..
  with m f(1)[OF u(2)] show ?case by (simp add: Let_def)
qed

lemma leads_star_class:
  assumes "list_all (\<lambda>x. P (fst x)) u" and "t = [] \<or> \<not> P (fst (hd t))"
  shows "leads (RStar True (RClass P)) (p, u @ t, cs) (rune_after p u, t, cs)"
proof -
  have "\<exists>sts. star_match True (rmatch (RClass P)) (Suc (length (u @ t))) (p, u @ t, cs) =
      (rune_after p u, t, cs) # sts"
    by (rule star_match_longest[where P = P, OF _ _ assms]) (auto split: list.splits)
  then show ?thesis by (simp add: leads_def del: star_match.simps)
qed

lemma leads_plus_class:
  assumes "list_all (\<lambda>x. P (fst x)) u" and "u \<noteq> []" and "t = [] \<or> \<not> P (fst (hd t))"
  shows "leads (RPlus (RClass P)) (p, u @ t, cs) (rune_after p u, t, cs)"
proof -
  obtain x v where u: "u = x # v" using assms(2) by (cases u) auto
  then have "leads (RClass P) (p, u @ t, cs) (Some (fst x), v @ t, cs)"
    using assms(1) by (simp add: leads_class)
  moreover have "leads (RStar True (RClass P)) (Some (fst x), v @ t, cs) (rune_after p u, t, cs)"
    using leads_star_class[of P v t "Some (fst x)" cs] assms(1,3) by (simp add: u)
  ultimately show ?thesis unfolding RPlus_def by (rule leads_seq)
qed

lemma find_from_leads: "leads r (p, t, []) st \<Longrightarrow> find_from r p t = Some (0, t, st)"
  by (subst find_from.simps) (auto simp: leads_def)

text \<open>ASCII text as runes.\<close>

definition ascii_runes :: "string \<Rightarrow> text_rune list" where
  "ascii_runes s = map (\<lambda>c. (of_char c, [c])) s"

lemma ascii_runes_simps [simp]:
  "ascii_runes [] = []" "ascii_runes (c # s) = (of_char c, [c]) # ascii_runes s"
  "ascii_runes (s @ t) = ascii_runes s @ ascii_runes t" "bytes_of (ascii_runes s) = s"
  "ascii_runes s = [] \<longleftrightarrow> s = []" "length (ascii_runes s) = length s"
proof -
  show "bytes_of (ascii_runes s) = s" by (induction s) (auto simp: ascii_runes_def)
qed (auto simp: ascii_runes_def)

lemma list_all_ascii_runes [simp]:
  "list_all (\<lambda>x. P (fst x)) (ascii_runes s) \<longleftrightarrow> list_all (\<lambda>c. P (of_char c)) s"
  by (induction s) auto

lemma leads_literal:
  "leads (RLit s) (p, ascii_runes s @ t, cs) (rune_after p (ascii_runes s), t, cs)"
proof -
  have "leads (RSeqs (map ROne s)) (p, ascii_runes s @ t, cs) (rune_after p (ascii_runes s), t, cs)"
  proof (induction s arbitrary: p)
    case Nil
    show ?case by (simp add: leads_empty)
  next
    case (Cons c s)
    have one: "leads (ROne c) (p, ascii_runes (c # s) @ t, cs) (Some (of_char c), ascii_runes s @ t, cs)"
      using leads_class[of "\<lambda>r. r = of_char c" "(of_char c, [c])"] by (simp add: ROne_def)
    show ?case
    proof (cases s)
      case Nil
      with one show ?thesis by simp
    next
      case (Cons d s')
      with leads_seq[OF one Cons.IH[of "Some (of_char c)"]] show ?thesis by simp
    qed
  qed
  then show ?thesis by (simp add: RLit_def)
qed

subsection \<open>Runes a match cannot do without\<close>

text \<open>Every match of \<open>r\<close> reads a rune with property \<open>P\<close>.\<close>

primrec must_see :: "(rune \<Rightarrow> bool) \<Rightarrow> regex \<Rightarrow> bool" where
  "must_see P REmpty \<longleftrightarrow> False"
| "must_see P (RClass Q) \<longleftrightarrow> (\<forall>r. Q r \<longrightarrow> P r)"
| "must_see P (RSeq a b) \<longleftrightarrow> must_see P a \<or> must_see P b"
| "must_see P (RAlt a b) \<longleftrightarrow> must_see P a \<and> must_see P b"
| "must_see P (RStar g a) \<longleftrightarrow> False"
| "must_see P (RGroup k a) \<longleftrightarrow> must_see P a"
| "must_see P RBeginText \<longleftrightarrow> False"
| "must_see P REndText \<longleftrightarrow> False"
| "must_see P RBeginLine \<longleftrightarrow> False"
| "must_see P REndLine \<longleftrightarrow> False"
| "must_see P (RWordB b) \<longleftrightarrow> False"

lemma rmeans_must_see: "rmeans r s s' \<Longrightarrow> must_see P r \<Longrightarrow> \<exists>x \<in> set (snd s). P (fst x)"
proof (induction rule: rmeans.induct)
  case (m_seq a s s1 b s2)
  from rmeans_consumes[OF m_seq.hyps(1)] have "set (snd s1) \<subseteq> set (snd s)" by fastforce
  with m_seq.prems m_seq.IH show ?case by auto
qed auto

lemma MatchString_must_see:
  assumes "MatchString r s" and "must_see P r"
  shows "\<exists>x \<in> set (runes s). P (fst x)"
proof -
  from assms(1) obtain u v s' where "runes s = u @ v" "rmeans r (rune_after None u, v) s'"
    unfolding MatchString_iff by blast
  with rmeans_must_see[OF _ assms(2)] show ?thesis by fastforce
qed

end
