(* ===== verification/Rules.thy ===== *)
theory Rules
  imports Models GoRegexp
begin

text \<open>
  \<^verbatim>\<open>pkg/rules\<close>: the rule records (\<^verbatim>\<open>dsl.go\<close>), the loader (\<^verbatim>\<open>loader.go\<close>) and the evaluator
  (\<^verbatim>\<open>evaluator.go\<close>) that turns files into findings, with the suppression directives.
  \<^verbatim>\<open>regexp.Compile\<close> is the parameter \<open>compile\<close> (pattern text to expression, or an error);
  what a compiled expression matches is given by the theory of regular expressions.  The
  directory, the files and the YAML decoder that the loader reads are parameters.
\<close>

section \<open>Data\<close>

record RulePattern =
  p_Type :: string
  p_Match :: string
  p_MaxValue :: int
  p_Negate :: bool

record RuleTests =
  t_Pass :: "string list"
  t_Fail :: "string list"

record Rule =
  r_ID :: string
  r_Name :: string
  r_Description :: string
  r_Category :: string
  r_Severity :: string
  r_Languages :: "string list"
  r_Pattern :: RulePattern
  r_Message :: string
  r_Fix :: string
  r_Enabled :: bool
  r_Tests :: RuleTests

record FileContent =
  fc_Path :: string
  fc_Language :: string
  fc_Content :: string

record Evaluator =
  ev_rules :: "Rule list"
  ev_compiled :: "string \<rightharpoonup> regex"

section \<open>Loading\<close>

record DirEntry =
  de_Name :: string
  de_IsDir :: bool

definition LoadFile ::
  "(string \<Rightarrow> go_error + string) \<Rightarrow> (string \<Rightarrow> go_error + Rule list) \<Rightarrow> string \<Rightarrow> go_error + Rule list" where
  "LoadFile readFile unmarshal path =
     (case readFile path of
        Inl err \<Rightarrow> Inl (WrappedPath ''read rule file'' path err)
      | Inr data \<Rightarrow> (case unmarshal data of
                       Inl err \<Rightarrow> Inl (WrappedPath ''parse rule file'' path err)
                     | Inr rs \<Rightarrow> Inr rs))"

fun load_entries ::
  "(string \<Rightarrow> go_error + Rule list) \<Rightarrow> string \<Rightarrow> DirEntry list \<Rightarrow> Rule list \<Rightarrow> go_error + Rule list" where
  "load_entries loadFile dir [] acc = Inr acc"
| "load_entries loadFile dir (e # es) acc =
     (if de_IsDir e \<or> Ext (de_Name e) \<noteq> ''.yaml'' then load_entries loadFile dir es acc
      else (case loadFile (Join [dir, de_Name e]) of
              Inl err \<Rightarrow> Inl err
            | Inr rs \<Rightarrow> load_entries loadFile dir es (acc @ rs)))"

definition LoadDir ::
  "(string \<Rightarrow> go_error + DirEntry list) \<Rightarrow> (string \<Rightarrow> go_error + string) \<Rightarrow>
   (string \<Rightarrow> go_error + Rule list) \<Rightarrow> string \<Rightarrow> go_error + Rule list" where
  "LoadDir readDir readFile unmarshal dir =
     (case readDir dir of
        Inl err \<Rightarrow> Inl (WrappedPath ''read rules dir'' dir err)
      | Inr es \<Rightarrow> load_entries (LoadFile readFile unmarshal) dir es [])"

section \<open>Compiling\<close>

fun compile_rules ::
  "(string \<Rightarrow> go_error + regex) \<Rightarrow> Rule list \<Rightarrow> (string \<rightharpoonup> regex) \<Rightarrow> go_error + (string \<rightharpoonup> regex)" where
  "compile_rules compile [] m = Inr m"
| "compile_rules compile (r # rs) m =
     (if p_Type (r_Pattern r) = ''regex'' \<and> p_Match (r_Pattern r) \<noteq> [] then
        (case compile (p_Match (r_Pattern r)) of
           Inl err \<Rightarrow> Inl err
         | Inr re \<Rightarrow> compile_rules compile rs (m(r_ID r \<mapsto> re)))
      else compile_rules compile rs m)"

definition NewEvaluator :: "(string \<Rightarrow> go_error + regex) \<Rightarrow> Rule list \<Rightarrow> go_error + Evaluator" where
  "NewEvaluator compile rules =
     (case compile_rules compile rules Map.empty of
        Inl err \<Rightarrow> Inl err
      | Inr m \<Rightarrow> Inr \<lparr> ev_rules = rules, ev_compiled = m \<rparr>)"

section \<open>Directives and languages\<close>

definition fileIgnored :: "string \<Rightarrow> bool" where
  "fileIgnored content =
     list_ex (\<lambda>l. Contains l ''litd:ignore-file'') (take 10 (scan_lines content))"

definition lineIgnored :: "string \<Rightarrow> string \<Rightarrow> bool" where
  "lineIgnored line ruleID =
     (let idx = strings_Index line ''litd:ignore'' in
      if idx = - 1 then False
      else let rest = TrimSpace (drop (nat idx + length ''litd:ignore'') line) in
        if rest = [] \<or> HasPrefix rest [newline] then True
        else list_ex (\<lambda>i. TrimSpace i = ruleID) (split_on (CHR '','') rest))"

definition languageMatches :: "string list \<Rightarrow> string \<Rightarrow> bool" where
  "languageMatches langs target = list_ex (\<lambda>l. l = ''*'' \<or> EqualFold l target) langs"

section \<open>Evaluation\<close>

definition negate_finding :: "Rule \<Rightarrow> FileContent \<Rightarrow> Finding" where
  "negate_finding r f =
     \<lparr> f_RuleID = r_ID r, f_RuleName = r_Name r, f_Category = r_Category r,
       f_Severity = r_Severity r, f_File = fc_Path f, f_Line = 1, f_Column = 1,
       f_Message = r_Message r, f_Snippet = [], f_FixSuggestion = r_Fix r \<rparr>"

definition match_column :: "regex \<Rightarrow> string \<Rightarrow> int" where
  "match_column re line =
     (case FindStringIndex re line of None \<Rightarrow> 1 | Some (a, b) \<Rightarrow> int a + 1)"

definition line_finding :: "regex \<Rightarrow> Rule \<Rightarrow> FileContent \<Rightarrow> int \<Rightarrow> string \<Rightarrow> Finding" where
  "line_finding re r f lineNum line =
     \<lparr> f_RuleID = r_ID r, f_RuleName = r_Name r, f_Category = r_Category r,
       f_Severity = r_Severity r, f_File = fc_Path f, f_Line = lineNum,
       f_Column = match_column re line,
       f_Message = r_Message r, f_Snippet = TrimSpace line, f_FixSuggestion = r_Fix r \<rparr>"

text \<open>The loop over the scanner; \<open>lineNum\<close> counts the lines already read.\<close>

fun eval_lines :: "regex \<Rightarrow> Rule \<Rightarrow> FileContent \<Rightarrow> int \<Rightarrow> string list \<Rightarrow> Finding list" where
  "eval_lines re r f lineNum [] = []"
| "eval_lines re r f lineNum (line # ls) =
     (let n = lineNum + 1 in
      if lineIgnored line (r_ID r) then eval_lines re r f n ls
      else if MatchString re line then line_finding re r f n line # eval_lines re r f n ls
      else eval_lines re r f n ls)"

definition evalRegex :: "Evaluator \<Rightarrow> Rule \<Rightarrow> FileContent \<Rightarrow> Finding list" where
  "evalRegex e r f =
     (case ev_compiled e (r_ID r) of
        None \<Rightarrow> []
      | Some re \<Rightarrow>
          if p_Negate (r_Pattern r) then
            (if \<not> MatchString re (fc_Content f) then [negate_finding r f] else [])
          else eval_lines re r f 0 (scan_lines (fc_Content f)))"

definition evalRule :: "Evaluator \<Rightarrow> Rule \<Rightarrow> FileContent \<Rightarrow> Finding list" where
  "evalRule e r f = (if p_Type (r_Pattern r) = ''regex'' then evalRegex e r f else [])"

definition EvaluateOne :: "Evaluator \<Rightarrow> Rule \<Rightarrow> FileContent \<Rightarrow> Finding list" where
  "EvaluateOne e r f = evalRule e r f"

definition Evaluate :: "Evaluator \<Rightarrow> FileContent list \<Rightarrow> Finding list" where
  "Evaluate e files =
     concat (map (\<lambda>f. if fileIgnored (fc_Content f) then []
                      else concat (map (\<lambda>r. if \<not> r_Enabled r then []
                                            else if \<not> languageMatches (r_Languages r) (fc_Language f) then []
                                            else evalRule e r f) (ev_rules e))) files)"

section \<open>What the evaluator reports\<close>

text \<open>
  The specification: rule \<open>r\<close> with compiled pattern \<open>re\<close> reports \<open>fi\<close> on file \<open>f\<close>.  A negated
  rule reports the whole file when the pattern occurs nowhere in it; any other rule reports
  the lines that match and carry no directive for it.
\<close>

definition rule_reports :: "regex \<Rightarrow> Rule \<Rightarrow> FileContent \<Rightarrow> Finding \<Rightarrow> bool" where
  "rule_reports re r f fi \<longleftrightarrow>
     (if p_Negate (r_Pattern r)
      then \<not> MatchString re (fc_Content f) \<and> fi = negate_finding r f
      else \<exists>n < length (scan_lines (fc_Content f)).
             \<not> lineIgnored (scan_lines (fc_Content f) ! n) (r_ID r)
           \<and> MatchString re (scan_lines (fc_Content f) ! n)
           \<and> fi = line_finding re r f (int n + 1) (scan_lines (fc_Content f) ! n))"

text \<open>A rule has a pattern of its own to compile.\<close>

definition has_regex :: "Rule \<Rightarrow> bool" where
  "has_regex r \<longleftrightarrow> p_Type (r_Pattern r) = ''regex'' \<and> p_Match (r_Pattern r) \<noteq> []"

lemma eval_lines_eq:
  "eval_lines re r f k ls =
     map (\<lambda>(n, l). line_finding re r f (k + 1 + int n) l)
       (filter (\<lambda>(n, l). \<not> lineIgnored l (r_ID r) \<and> MatchString re l) (enumerate 0 ls))"
proof (induction ls arbitrary: k)
  case Nil
  show ?case by simp
next
  case (Cons l ls)
  have "enumerate 0 (l # ls) = (0, l) # map (\<lambda>(n, x). (Suc n, x)) (enumerate 0 ls)"
    by (simp add: enumerate_Suc_shift)
  then show ?case
    by (auto simp: Cons.IH Let_def filter_map o_def case_prod_beta algebra_simps)
qed

lemma eval_lines_iff:
  "fi \<in> set (eval_lines re r f k ls) \<longleftrightarrow>
     (\<exists>n < length ls. \<not> lineIgnored (ls ! n) (r_ID r) \<and> MatchString re (ls ! n)
        \<and> fi = line_finding re r f (k + 1 + int n) (ls ! n))"
  by (auto simp: eval_lines_eq in_set_enumerate_iff image_iff)

lemma evalRegex_iff:
  "fi \<in> set (evalRegex e r f) \<longleftrightarrow> (\<exists>re. ev_compiled e (r_ID r) = Some re \<and> rule_reports re r f fi)"
  by (cases "ev_compiled e (r_ID r)")
     (auto simp: evalRegex_def rule_reports_def eval_lines_iff add.commute)

lemma Evaluate_iff:
  "fi \<in> set (Evaluate e files) \<longleftrightarrow>
     (\<exists>f \<in> set files. \<exists>r \<in> set (ev_rules e). \<not> fileIgnored (fc_Content f) \<and> r_Enabled r
        \<and> languageMatches (r_Languages r) (fc_Language f) \<and> p_Type (r_Pattern r) = ''regex''
        \<and> (\<exists>re. ev_compiled e (r_ID r) = Some re \<and> rule_reports re r f fi))"
  by (auto simp: Evaluate_def evalRule_def evalRegex_iff split: if_splits)

subsection \<open>The compiled patterns\<close>

text \<open>The pattern stored under an identifier is that of the last rule carrying it.\<close>

lemma compile_rules_Inr:
  "compile_rules compile rs m = Inr m' \<Longrightarrow>
     m' i = (case find (\<lambda>r. has_regex r \<and> r_ID r = i) (rev rs) of
               None \<Rightarrow> m i
             | Some r \<Rightarrow> Some (projr (compile (p_Match (r_Pattern r)))))"
proof (induction rs arbitrary: m)
  case Nil
  then show ?case by simp
next
  case (Cons r rs)
  show ?case
  proof (cases "has_regex r")
    case False
    with Cons have "m' i = (case find (\<lambda>r. has_regex r \<and> r_ID r = i) (rev rs) of
        None \<Rightarrow> m i | Some r \<Rightarrow> Some (projr (compile (p_Match (r_Pattern r)))))"
      by (auto simp: has_regex_def)
    with False show ?thesis by (auto simp: find_append split: option.splits)
  next
    case True
    with Cons.prems obtain re where re: "compile (p_Match (r_Pattern r)) = Inr re"
      and "compile_rules compile rs (m(r_ID r \<mapsto> re)) = Inr m'"
      by (auto simp: has_regex_def split: sum.splits)
    with Cons.IH have "m' i = (case find (\<lambda>r. has_regex r \<and> r_ID r = i) (rev rs) of
        None \<Rightarrow> (m(r_ID r \<mapsto> re)) i
      | Some r \<Rightarrow> Some (projr (compile (p_Match (r_Pattern r)))))" by blast
    with True re show ?thesis by (auto simp: find_append split: option.splits)
  qed
qed

lemma compile_rules_Inl_iff:
  "(\<exists>err. compile_rules compile rs m = Inl err)
     \<longleftrightarrow> (\<exists>r \<in> set rs. has_regex r \<and> (\<exists>err. compile (p_Match (r_Pattern r)) = Inl err))"
  by (induction rs arbitrary: m) (auto simp: has_regex_def split: sum.splits)

lemma NewEvaluator_Inr:
  assumes "NewEvaluator compile rules = Inr e"
  shows "ev_rules e = rules"
    and "ev_compiled e i = map_option (\<lambda>r. projr (compile (p_Match (r_Pattern r))))
           (find (\<lambda>r. has_regex r \<and> r_ID r = i) (rev rules))"
    and "r \<in> set rules \<Longrightarrow> has_regex r \<Longrightarrow> \<exists>re. compile (p_Match (r_Pattern r)) = Inr re"
proof -
  from assms obtain m where m: "compile_rules compile rules Map.empty = Inr m"
    and e: "e = \<lparr> ev_rules = rules, ev_compiled = m \<rparr>"
    by (auto simp: NewEvaluator_def split: sum.splits)
  show "ev_rules e = rules" by (simp add: e)
  show "ev_compiled e i = map_option (\<lambda>r. projr (compile (p_Match (r_Pattern r))))
      (find (\<lambda>r. has_regex r \<and> r_ID r = i) (rev rules))"
    by (simp add: e compile_rules_Inr[OF m] split: option.splits)
  have "\<not> (\<exists>err. compile_rules compile rules Map.empty = Inl err)" by (simp add: m)
  then show "r \<in> set rules \<Longrightarrow> has_regex r \<Longrightarrow> \<exists>re. compile (p_Match (r_Pattern r)) = Inr re"
    by (metis compile_rules_Inl_iff sum.exhaust)
qed

lemma find_rev_distinct:
  assumes "distinct (map r_ID rules)" and "r \<in> set rules"
  shows "find (\<lambda>x. has_regex x \<and> r_ID x = r_ID r) (rev rules)
           = (if has_regex r then Some r else None)"
proof -
  have uniq: "x = r" if "x \<in> set rules" "r_ID x = r_ID r" for x
    using assms that by (auto simp: distinct_map inj_on_def)
  show ?thesis
  proof (cases "find (\<lambda>x. has_regex x \<and> r_ID x = r_ID r) (rev rules)")
    case None
    with assms(2) show ?thesis by (auto simp: find_None_iff)
  next
    case (Some x)
    then have "x \<in> set rules" "has_regex x" "r_ID x = r_ID r"
      by (auto simp: find_Some_iff rev_nth)
    with uniq Some show ?thesis by auto
  qed
qed

lemma ev_compiled_distinct:
  assumes "NewEvaluator compile rules = Inr e" and "distinct (map r_ID rules)" and "r \<in> set rules"
  shows "ev_compiled e (r_ID r) = Some re
           \<longleftrightarrow> has_regex r \<and> compile (p_Match (r_Pattern r)) = Inr re"
  using NewEvaluator_Inr(2)[OF assms(1), of "r_ID r"] NewEvaluator_Inr(3)[OF assms(1,3)]
  by (auto simp: find_rev_distinct[OF assms(2,3)])

subsection \<open>Directives\<close>

lemma TrimSpace_no_newline: "\<not> HasPrefix (TrimSpace s) [newline]"
proof
  assume "HasPrefix (TrimSpace s) [newline]"
  then obtain t where "TrimSpace s = newline # t" by (auto simp: HasPrefix_def prefix_def)
  then show False by (auto dest!: TrimSpace_head simp: ascii_spaces_def newline_def)
qed

text \<open>The ignored lines, with the directive split off at its first occurrence.\<close>

lemma lineIgnored_Some:
  assumes "index_of line ''litd:ignore'' = Some i"
  shows "lineIgnored line ruleID \<longleftrightarrow>
     (let rest = TrimSpace (drop (i + length ''litd:ignore'') line)
      in rest = [] \<or> ruleID \<in> TrimSpace ` set (split_on (CHR '','') rest))"
  using assms
  by (auto simp: lineIgnored_def Let_def TrimSpace_no_newline list_ex_iff image_iff strings_Index_def)

lemma lineIgnored_None: "index_of line ''litd:ignore'' = None \<Longrightarrow> \<not> lineIgnored line ruleID"
  by (simp add: lineIgnored_def)

lemma index_of_append:
  "\<not> sublist sub (pre @ butlast sub) \<Longrightarrow> sub \<noteq> [] \<Longrightarrow> index_of (pre @ sub @ rest) sub = Some (length pre)"
proof (induction pre)
  case Nil
  then show ?case by (cases sub) auto
next
  case (Cons c pre)
  have "\<not> prefix sub ((c # pre) @ sub @ rest)"
  proof
    assume "prefix sub ((c # pre) @ sub @ rest)"
    then have "sub = take (length sub) (((c # pre) @ sub) @ rest)"
      by (auto dest: prefix_take)
    also have "\<dots> = take (length sub) ((c # pre) @ sub)" by (subst take_append) simp
    also have "\<dots> = take (length sub) (((c # pre) @ butlast sub) @ [last sub])"
      using Cons.prems(2) by (simp del: append_Cons)
    also have "\<dots> = take (length sub) ((c # pre) @ butlast sub)"
      using Cons.prems(2) by (cases sub rule: rev_cases) auto
    finally have "prefix sub ((c # pre) @ butlast sub)" by (metis take_is_prefix)
    then show False using Cons.prems(1) prefix_imp_sublist by blast
  qed
  moreover have "\<not> sublist sub (pre @ butlast sub)" using Cons.prems(1) by (auto simp: sublist_Cons_right)
  ultimately show ?case using Cons by simp
qed

section \<open>Properties\<close>

text \<open>A rule and a file to evaluate the properties on; the pattern is read as a literal.\<close>

definition ex_compile :: "string \<Rightarrow> go_error + regex" where
  "ex_compile pat = Inr (RLit pat)"

definition ex_rule :: "string \<Rightarrow> Rule" where
  "ex_rule pat =
     \<lparr> r_ID = ''S1'', r_Name = ''No eval'', r_Description = [], r_Category = ''security'',
       r_Severity = ''high'', r_Languages = [''*''],
       r_Pattern = \<lparr> p_Type = ''regex'', p_Match = pat, p_MaxValue = 0, p_Negate = False \<rparr>,
       r_Message = ''eval detected'', r_Fix = [], r_Enabled = True,
       r_Tests = \<lparr> t_Pass = [], t_Fail = [] \<rparr> \<rparr>"

definition ex_file :: "string \<Rightarrow> FileContent" where
  "ex_file content = \<lparr> fc_Path = ''a.js'', fc_Language = ''javascript'', fc_Content = content \<rparr>"

lemmas ex_defs = ex_compile_def ex_rule_def ex_file_def



text \<open>
  Rule compilation fails exactly when the pattern of some rule of type regex, with a
  non-empty pattern, does not compile; whether the rule is enabled plays no part.
\<close>

theorem NewEvaluator_fails_iff:
  "(\<exists>err. NewEvaluator compile rules = Inl err) \<longleftrightarrow>
     (\<exists>r \<in> set rules. p_Type (r_Pattern r) = ''regex'' \<and> p_Match (r_Pattern r) \<noteq> []
        \<and> (\<exists>err. compile (p_Match (r_Pattern r)) = Inl err))"
proof -
  have "(\<exists>err. NewEvaluator compile rules = Inl err)
      \<longleftrightarrow> (\<exists>err. compile_rules compile rules Map.empty = Inl err)"
    by (auto simp: NewEvaluator_def split: sum.splits)
  then show ?thesis by (simp add: compile_rules_Inl_iff has_regex_def conj_assoc)
qed

text \<open>
  One rule reports a file's lines in order and each at most once: the line numbers of
  its findings are strictly increasing, start at 1 and stay within the scanned lines.
\<close>

theorem evalRule_lines_increasing:
  assumes "\<not> p_Negate (r_Pattern r)"
  shows "sorted_wrt (<) (map f_Line (evalRule e r f)) \<and>
    (\<forall>fi \<in> set (evalRule e r f). 1 \<le> f_Line fi \<and> f_Line fi \<le> int (length (scan_lines (fc_Content f))))"
proof -
  have sorted: "sorted_wrt (<) (map f_Line (eval_lines re r f k ls))
      \<and> (\<forall>fi \<in> set (eval_lines re r f k ls). k < f_Line fi \<and> f_Line fi \<le> k + int (length ls))" for re k ls
  proof (induction ls arbitrary: k)
    case (Cons l ls)
    from Cons.IH[of "k + 1"] show ?case by (auto simp: Let_def line_finding_def)
  qed simp
  show ?thesis
    using sorted[of _ 0 "scan_lines (fc_Content f)"] assms
    by (force simp: evalRule_def evalRegex_def split: option.splits)
qed

theorem evalRule_lines_increasing_witness:
  "sorted_wrt (<) (map f_Line (evalRule \<lparr>ev_rules = [], ev_compiled = Map.empty\<rparr>
     (ex_rule ''ev'') (ex_file ''ev'')))"
  by (rule evalRule_lines_increasing[THEN conjunct1]) (simp add: ex_defs)

text \<open>
  Suppression.  On a line whose first directive is followed by \<open>rest\<close>, a rule is
  suppressed exactly when nothing but white space follows, or its identifier is one of the
  comma-separated items that follow.
\<close>

theorem lineIgnored_directive:
  assumes "\<not> sublist ''litd:ignore'' (pre @ ''litd:ignor'')"
  shows "lineIgnored (pre @ ''litd:ignore'' @ rest) ruleID \<longleftrightarrow>
     TrimSpace rest = [] \<or> ruleID \<in> TrimSpace ` set (split_on (CHR '','') (TrimSpace rest))"
proof -
  have "index_of (pre @ ''litd:ignore'' @ rest) ''litd:ignore'' = Some (length pre)"
    by (rule index_of_append) (use assms in simp_all)
  then show ?thesis by (simp add: lineIgnored_Some Let_def)
qed

theorem lineIgnored_directive_witness:
  "lineIgnored (''x // '' @ ''litd:ignore'' @ '' S1, S2'') ''S2''"
proof -
  have pre: "\<not> sublist ''litd:ignore'' (''x // '' @ ''litd:ignor'')" by code_simp
  have "''S2'' \<in> TrimSpace ` set (split_on (CHR '','') (TrimSpace '' S1, S2''))" by code_simp
  then show ?thesis unfolding lineIgnored_directive[OF pre] by (rule disjI2)
qed

text \<open>
  Rules that share an identifier share a pattern.  When a later rule carries the
  identifier of an earlier one, the earlier rule is evaluated with the later rule's pattern.
\<close>

theorem duplicate_id_uses_last_pattern:
  assumes "NewEvaluator compile (rs @ r2 # rs') = Inr e"
    and "r_ID r1 = r_ID r2" and "has_regex r2" and "r_ID r2 \<notin> r_ID ` set rs'"
    and "p_Type (r_Pattern r1) = ''regex''"
  shows "fi \<in> set (evalRule e r1 f) \<longleftrightarrow>
    rule_reports (projr (compile (p_Match (r_Pattern r2)))) r1 f fi"
proof -
  have "find (\<lambda>r. has_regex r \<and> r_ID r = r_ID r1) (rev rs') = None"
    using assms(2,4) by (auto simp: find_None_iff image_iff)
  then have "find (\<lambda>r. has_regex r \<and> r_ID r = r_ID r1) (rev (rs @ r2 # rs')) = Some r2"
    using assms(2,3) by (simp add: find_append)
  with NewEvaluator_Inr(2)[OF assms(1), of "r_ID r1"] have
    "ev_compiled e (r_ID r1) = Some (projr (compile (p_Match (r_Pattern r2))))" by simp
  with assms(5) show ?thesis by (auto simp: evalRule_def evalRegex_iff)
qed

theorem duplicate_id_uses_last_pattern_witness:
  "\<exists>e. NewEvaluator ex_compile ([ex_rule ''ab''] @ ex_rule ''ev'' # []) = Inr e
     \<and> line_finding (RLit ''ev'') (ex_rule ''ab'') (ex_file ''ev'') 1 ''ev''
         \<in> set (evalRule e (ex_rule ''ab'') (ex_file ''ev''))"
proof -
  obtain e where e: "NewEvaluator ex_compile ([ex_rule ''ab''] @ ex_rule ''ev'' # []) = Inr e"
    by (simp add: NewEvaluator_def ex_defs)
  have run: "scan_lines ''ev'' = [''ev'']" "\<not> lineIgnored ''ev'' ''S1''"
    "MatchString (RLit ''ev'') ''ev''" by code_simp+
  have "rule_reports (projr (ex_compile (p_Match (r_Pattern (ex_rule ''ev''))))) (ex_rule ''ab'')
      (ex_file ''ev'') (line_finding (RLit ''ev'') (ex_rule ''ab'') (ex_file ''ev'') 1 ''ev'')"
    using run by (simp add: ex_defs rule_reports_def)
  then have "line_finding (RLit ''ev'') (ex_rule ''ab'') (ex_file ''ev'') 1 ''ev''
      \<in> set (evalRule e (ex_rule ''ab'') (ex_file ''ev''))"
    by (subst duplicate_id_uses_last_pattern[OF e]) (simp_all add: ex_rule_def has_regex_def)
  with e show ?thesis by blast
qed

end
