(* ===== verification/Entropy.thy ===== *)
theory Entropy
  imports Models GoRegexp
begin

text \<open>
  \<^verbatim>\<open>pkg/entropy\<close>: Shannon entropy of a string over its runes, the scanner for high-entropy
  values in assignments, the redaction of what it found, and the conversion to findings.
  \<^verbatim>\<open>math.Log2\<close> is \<open>log 2\<close>; the order in which Go visits the frequency map does not matter for
  a sum of reals.
\<close>

section \<open>Shannon entropy\<close>

definition DefaultThreshold :: real where "DefaultThreshold = 4.5"
definition MinLength :: int where "MinLength = 12"

definition Shannon :: "string \<Rightarrow> real" where
  "Shannon s =
     (if s = [] then 0
      else let rs = map fst (runes s); total = real (length rs)
           in fold (\<lambda>c h. let p = real (count_list rs c) / total in h - p * log 2 p) (remdups rs) 0)"

section \<open>Candidates\<close>

text \<open>The three patterns of the scanner, as \<^verbatim>\<open>regexp/syntax\<close> reads them.\<close>

definition base64_rune :: "rune \<Rightarrow> bool" where
  "base64_rune r \<longleftrightarrow> alpha_rune r \<or> digit_rune r \<or> rune_in ''+/=_-'' r"

definition hex_rune :: "rune \<Rightarrow> bool" where
  "hex_rune r \<longleftrightarrow> digit_rune r \<or> (97 \<le> r \<and> r \<le> 102) \<or> (65 \<le> r \<and> r \<le> 70)"

definition base64Alphabet :: regex where
  "base64Alphabet = RSeqs [RBeginText, RAtLeast 12 (RClass base64_rune), REndText]"

definition hexAlphabet :: regex where
  "hexAlphabet = RSeqs [RBeginText, RAtLeast 16 (RClass hex_rune), REndText]"

text \<open>
  \<^verbatim>\<open>(?i)[\w_-]+\s*[:=]\s*["']([^"'\s]{12,})["']\<close>.  Folding case adds the long s and the Kelvin
  sign to \<^verbatim>\<open>\w\<close>, whose other cases are ASCII letters.
\<close>

definition quote_rune :: "rune \<Rightarrow> bool" where "quote_rune r \<longleftrightarrow> r = 34 \<or> r = 39"

definition key_rune :: "rune \<Rightarrow> bool" where
  "key_rune r \<longleftrightarrow> word_rune r \<or> r = 45 \<or> r = 0x17F \<or> r = 0x212A"

definition value_rune :: "rune \<Rightarrow> bool" where
  "value_rune r \<longleftrightarrow> \<not> quote_rune r \<and> \<not> space_rune r"

definition assignmentRe :: regex where
  "assignmentRe =
     RSeqs [RPlus (RClass key_rune), RSpaces, RClass (rune_in '':=''), RSpaces,
            RClass quote_rune, RGroup 1 (RAtLeast 12 (RClass value_rune)), RClass quote_rune]"

definition isEntropyCandidate :: "string \<Rightarrow> bool" where
  "isEntropyCandidate s \<longleftrightarrow>
     int (length s) \<ge> MinLength \<and> (MatchString base64Alphabet s \<or> MatchString hexAlphabet s)"

definition redact :: "string \<Rightarrow> string" where
  "redact s = (if length s \<le> 8 then ''***'' else take 4 s @ ''***'' @ drop (length s - 4) s)"

section \<open>Number formatting\<close>

function itoa_loop :: "int \<Rightarrow> string \<Rightarrow> string" where
  "itoa_loop n buf =
     (if n > 0 then itoa_loop (go_div n 10) (char_of (48 + go_rem n 10) # buf) else buf)"
  by pat_completeness auto
termination
  by (relation "measure (\<lambda>(n, buf). nat n)") auto

declare itoa_loop.simps [simp del]

definition itoa :: "int \<Rightarrow> string" where
  "itoa n = (if n = 0 then ''0'' else itoa_loop n [])"

definition pad2 :: "int \<Rightarrow> string" where
  "pad2 n = (if n < 10 then ''0'' @ itoa n else itoa n)"

definition formatEntropy :: "real \<Rightarrow> string" where
  "formatEntropy e =
     (let i = go_int (e * 100); whole = go_div i 100; frac = go_rem i 100
      in itoa whole @ ''.'' @ pad2 frac)"

section \<open>Scanning\<close>

record EntropyFinding =
  e_File :: string
  e_Line :: int
  e_Value :: string
  e_Entropy :: real
  e_Context :: string

definition comment_line :: "string \<Rightarrow> bool" where
  "comment_line line =
     (let trimmed = TrimSpace line
      in HasPrefix trimmed ''//'' \<or> HasPrefix trimmed ''#'' \<or> HasPrefix trimmed ''*'')"

text \<open>The findings of one match of the assignment pattern.\<close>

definition scan_match :: "string \<Rightarrow> real \<Rightarrow> int \<Rightarrow> string \<Rightarrow> string list \<Rightarrow> EntropyFinding list" where
  "scan_match path threshold lineNum line match =
     (if length match < 2 then []
      else let candidate = match ! 1 in
        if \<not> isEntropyCandidate candidate then []
        else let e = Shannon candidate in
          if e \<ge> threshold
          then [\<lparr> e_File = path, e_Line = lineNum, e_Value = redact candidate,
                  e_Entropy = e, e_Context = TrimSpace line \<rparr>]
          else [])"

fun scan_entropy_lines :: "string \<Rightarrow> real \<Rightarrow> int \<Rightarrow> string list \<Rightarrow> EntropyFinding list" where
  "scan_entropy_lines path threshold lineNum [] = []"
| "scan_entropy_lines path threshold lineNum (line # ls) =
     (let n = lineNum + 1 in
      (if comment_line line then []
       else concat (map (scan_match path threshold n line) (FindAllStringSubmatch assignmentRe 1 line)))
      @ scan_entropy_lines path threshold n ls)"

definition Scan :: "string \<Rightarrow> string \<Rightarrow> real \<Rightarrow> EntropyFinding list" where
  "Scan path content threshold =
     scan_entropy_lines path (if threshold \<le> 0 then DefaultThreshold else threshold) 0
       (scan_lines content)"

definition ToModelFindings :: "EntropyFinding list \<Rightarrow> Finding list" where
  "ToModelFindings ef =
     map (\<lambda>f. \<lparr> f_RuleID = ''ENT-001'', f_RuleName = ''High-entropy string (possible secret)'',
                f_Category = CategorySecurity, f_Severity = SeverityHigh, f_File = e_File f,
                f_Line = e_Line f, f_Column = 1,
                f_Message = ''High-entropy string detected (entropy='' @ formatEntropy (e_Entropy f)
                            @ ''). Possible hardcoded secret: '' @ e_Value f,
                f_Snippet = e_Context f,
                f_FixSuggestion = ''Move to an environment variable or secrets manager.'' \<rparr>) ef"

section \<open>Bounds on the entropy\<close>

abbreviation rune_list :: "string \<Rightarrow> rune list" where
  "rune_list s \<equiv> map fst (runes s)"

definition rune_prob :: "string \<Rightarrow> rune \<Rightarrow> real" where
  "rune_prob s c = real (count_list (rune_list s) c) / real (length (rune_list s))"

lemma fold_minus_sum: "distinct xs \<Longrightarrow> fold (\<lambda>c h. h - g c) xs (a :: real) = a - (\<Sum>c \<in> set xs. g c)"
  by (induction xs arbitrary: a) auto

lemma Shannon_sum:
  "Shannon s = (\<Sum>c \<in> set (rune_list s). - (rune_prob s c * log 2 (rune_prob s c)))"
proof (cases "s = []")
  case False
  then have "Shannon s = 0 - (\<Sum>c \<in> set (remdups (rune_list s)). rune_prob s c * log 2 (rune_prob s c))"
    by (simp add: Shannon_def Let_def rune_prob_def fold_minus_sum del: set_remdups)
  then show ?thesis by (simp add: sum_negf)
qed (simp add: Shannon_def)

lemma runes_Nil_iff [simp]: "runes s = [] \<longleftrightarrow> s = []"
  by (cases s) (auto split: prod.splits)

lemma rune_prob_pos: "c \<in> set (rune_list s) \<Longrightarrow> 0 < rune_prob s c"
proof -
  assume c: "c \<in> set (rune_list s)"
  then have "count_list (rune_list s) c \<noteq> 0" by (simp only: count_list_0_iff not_not)
  moreover from c have "rune_list s \<noteq> []" by auto
  ultimately show ?thesis by (simp add: rune_prob_def)
qed

lemma rune_prob_le_1: "rune_prob s c \<le> 1"
  using count_le_length[of "rune_list s" c] by (auto simp: rune_prob_def divide_le_eq_1)

lemma rune_prob_sum: "s \<noteq> [] \<Longrightarrow> (\<Sum>c \<in> set (rune_list s). rune_prob s c) = 1"
  by (simp add: rune_prob_def sum_divide_distrib[symmetric] of_nat_sum[symmetric] sum_count_set
      del: of_nat_sum)

lemma Shannon_nonneg: "0 \<le> Shannon s"
  unfolding Shannon_sum
  by (intro sum_nonneg)
     (use rune_prob_pos rune_prob_le_1 in \<open>force simp: mult_nonneg_nonpos\<close>)

text \<open>No string has more entropy than the logarithm of the number of its distinct runes.\<close>

lemma log2_le_minus_one: "0 < x \<Longrightarrow> log 2 x \<le> (x - 1) / ln 2"
  by (simp add: log_def divide_right_mono ln_le_minus_one)

lemma Shannon_le_log_card:
  assumes "s \<noteq> []"
  shows "Shannon s \<le> log 2 (real (card (set (rune_list s))))"
proof -
  let ?A = "set (rune_list s)" and ?p = "rune_prob s"
  let ?n = "real (card ?A)"
  have A: "finite ?A" "?A \<noteq> {}" using assms by auto
  then have n: "0 < ?n" by (simp add: card_gt_0_iff)
  have term_le: "- (?p c * log 2 (?p c)) - ?p c * log 2 ?n \<le> (1 / ?n - ?p c) / ln 2"
    if c: "c \<in> ?A" for c
  proof -
    have p: "0 < ?p c" using c by (rule rune_prob_pos)
    have "- (?p c * log 2 (?p c)) - ?p c * log 2 ?n = ?p c * log 2 (1 / (?n * ?p c))"
      using p n assms by (simp add: log_mult log_divide algebra_simps)
    also have "\<dots> \<le> ?p c * ((1 / (?n * ?p c) - 1) / ln 2)"
      using p n by (intro mult_left_mono log2_le_minus_one) auto
    also have "\<dots> = (1 / ?n - ?p c) / ln 2"
      using p n by (simp add: field_simps)
    finally show ?thesis .
  qed
  have "Shannon s - log 2 ?n
      = (\<Sum>c \<in> ?A. - (?p c * log 2 (?p c))) - (\<Sum>c \<in> ?A. ?p c * log 2 ?n)"
    by (simp add: Shannon_sum sum_distrib_right[symmetric] rune_prob_sum[OF assms, simplified])
  also have "\<dots> = (\<Sum>c \<in> ?A. - (?p c * log 2 (?p c)) - ?p c * log 2 ?n)"
    by (simp add: sum_subtractf)
  also have "\<dots> \<le> (\<Sum>c \<in> ?A. (1 / ?n - ?p c) / ln 2)"
    by (intro sum_mono term_le)
  also have "\<dots> = 0"
    using n assms by (simp add: sum_divide_distrib[symmetric] sum_subtractf rune_prob_sum[OF assms, simplified])
  finally show ?thesis by simp
qed

text \<open>The default threshold lies above the entropy of 22 equally frequent runes.\<close>

lemma log2_22_below_threshold: "log 2 22 < DefaultThreshold"
proof -
  have "2 * log 2 (22 :: real) = log 2 (22 ^ 2)" by (subst log_nat_power) simp_all
  also have "\<dots> < log 2 (2 ^ 9)" by (subst log_less_cancel_iff) simp_all
  also have "\<dots> = 9" by (subst log_nat_power) simp_all
  finally show ?thesis by (simp add: DefaultThreshold_def)
qed

lemma Shannon_few_runes:
  assumes "card (set (rune_list s)) \<le> 22"
  shows "Shannon s < DefaultThreshold"
proof (cases "s = []")
  case True
  then show ?thesis by (simp add: Shannon_def DefaultThreshold_def)
next
  case False
  then have "0 < card (set (rune_list s))" by (simp add: card_gt_0_iff)
  with assms have "log 2 (real (card (set (rune_list s)))) \<le> log 2 22" by simp
  with Shannon_le_log_card[OF False] log2_22_below_threshold show ?thesis by linarith
qed

lemma card_rune_list_le: "card (set (rune_list s)) \<le> length s"
  using card_length[of "rune_list s"] length_runes_le[of s] by simp

lemma hex_runes_card:
  assumes "list_all (\<lambda>x. hex_rune (fst x)) (runes s)"
  shows "card (set (rune_list s)) \<le> 22"
proof -
  have "set (rune_list s) \<subseteq> {48..57} \<union> {97..102} \<union> {65..70}"
    using assms by (auto simp: list_all_iff hex_rune_def digit_rune_def)
  then have "card (set (rune_list s)) \<le> card ({48..57} \<union> {97..102} \<union> {65..70} :: int set)"
    by (rule card_mono[rotated]) simp
  also have "\<dots> \<le> 22" by code_simp
  finally show ?thesis .
qed

section \<open>What the scanner captures\<close>

lemma quote_rune_solid:
  assumes "(r, w) \<in> set (runes s)" and "quote_rune r"
  obtains c where "w = [c]" and "solid c"
proof -
  have "w = [char_of r]" using assms by (auto intro: runes_ascii_byte simp: quote_rune_def)
  moreover have "solid (char_of (34 :: int))" "solid (char_of (39 :: int))" by code_simp+
  ultimately show thesis using assms(2) that by (auto simp: quote_rune_def)
qed

text \<open>A match of the assignment pattern captures the text between two quotes.\<close>

lemma assignmentRe_capture:
  assumes "(p2, t2, cs) \<in> set (rmatch assignmentRe (p, t, []))"
  shows "\<exists>a q v q'. t = a @ [q] @ v @ [q'] @ t2 \<and> quote_rune (fst q) \<and> quote_rune (fst q')
     \<and> map_of cs 1 = Some (bytes_of v) \<and> list_all (\<lambda>x. value_rune (fst x)) v"
proof -
  let ?val = "RAtLeast 12 (RClass value_rune)"
  from assms obtain p1 t1 c1 p3 t3 c3 p4 t4 c4 p5 t5 c5 p6 t6 c6 p7 t7 c7 where
    steps: "(p1, t1, c1) \<in> set (rmatch (RPlus (RClass key_rune)) (p, t, []))"
      "(p3, t3, c3) \<in> set (rmatch RSpaces (p1, t1, c1))"
      "(p4, t4, c4) \<in> set (rmatch (RClass (rune_in '':='')) (p3, t3, c3))"
      "(p5, t5, c5) \<in> set (rmatch RSpaces (p4, t4, c4))"
    and q: "(p6, t6, c6) \<in> set (rmatch (RClass quote_rune) (p5, t5, c5))"
    and g: "(p7, t7, c7) \<in> set (rmatch (RGroup 1 ?val) (p6, t6, c6))"
    and q': "(p2, t2, cs) \<in> set (rmatch (RClass quote_rune) (p7, t7, c7))"
    unfolding assignmentRe_def RSeqs.simps by (elim rmatch_SeqE) blast
  from steps obtain a where a: "t = a @ t5" by (metis append.assoc rmatch_rest)
  from q obtain x where x: "t5 = x # t6" "quote_rune (fst x)" by (auto split: list.splits if_splits)
  from q' obtain y where y: "t7 = y # t2" "quote_rune (fst y)" "cs = c7"
    by (auto split: list.splits if_splits)
  from g obtain c where val: "(p7, t7, c) \<in> set (rmatch ?val (p6, t6, c6))"
    and c7: "c7 = (1, bytes_of (take (length t6 - length t7) t6)) # c" by auto
  from rmatch_sound[OF val] obtain v where v: "t6 = v @ t7" "list_all (\<lambda>x. value_rune (fst x)) v"
    by (auto simp: rmeans_AtLeast_class)
  with a x y c7 show ?thesis by (intro exI[of _ a] exI[of _ x] exI[of _ v] exI[of _ y]) simp
qed

lemma FindAll_assignment:
  assumes "m \<in> set (FindAllStringSubmatch assignmentRe 1 line)"
  shows "length m = 2 \<and> (\<exists>a b c d. line = a @ (c # m ! 1 @ [d]) @ b \<and> solid c \<and> solid d)"
proof -
  from assms obtain u t1 st where t: "runes line = u @ t1"
    "st \<in> set (rmatch assignmentRe (rune_after None u, t1, []))" "m = submatches 1 t1 st"
    unfolding FindAllStringSubmatch_def by (blast dest: find_all_match)
  obtain p2 t2 cs where st: "st = (p2, t2, cs)" by (cases st)
  with t(2) obtain a q v q' where v: "t1 = a @ [q] @ v @ [q'] @ t2" "quote_rune (fst q)" "quote_rune (fst q')"
    "map_of cs 1 = Some (bytes_of v)" using assignmentRe_capture by metis
  then have m: "length m = 2" "m ! 1 = bytes_of v" by (simp_all add: t(3) submatches_def st)
  have "q \<in> set (runes line)" "q' \<in> set (runes line)" using t(1) v(1) by auto
  then obtain c d where cd: "snd q = [c]" "solid c" "snd q' = [d]" "solid d"
    using v(2,3) by (metis prod.collapse quote_rune_solid)
  have "line = bytes_of (u @ a) @ (snd q @ bytes_of v @ snd q') @ bytes_of t2"
    using bytes_of_runes[of line] by (simp add: t(1) v(1))
  with m cd have "line = bytes_of (u @ a) @ (c # m ! 1 @ [d]) @ bytes_of t2" by simp
  with m(1) cd show ?thesis by blast
qed

lemma scan_entropy_lines_eq:
  "scan_entropy_lines path thr k ls =
     concat (map (\<lambda>(n, l). if comment_line l then []
                 else concat (map (scan_match path thr (k + 1 + int n) l) (FindAllStringSubmatch assignmentRe 1 l)))
       (enumerate 0 ls))"
  by (induction ls arbitrary: k)
     (simp_all add: Let_def enumerate_Suc_shift o_def case_prod_beta algebra_simps cong: map_cong if_cong)

lemma scan_entropy_lines_iff:
  "fi \<in> set (scan_entropy_lines path thr k ls) \<longleftrightarrow>
     (\<exists>n < length ls. \<not> comment_line (ls ! n)
        \<and> (\<exists>m \<in> set (FindAllStringSubmatch assignmentRe 1 (ls ! n)).
              fi \<in> set (scan_match path thr (k + 1 + int n) (ls ! n) m)))"
  unfolding scan_entropy_lines_eq in_set_concat_enumerate by auto

section \<open>Properties\<close>

text \<open>
  The entropy of a string is at least 0 and at most the binary logarithm of the number of
  distinct runes in it; a string with a single distinct rune has entropy 0.
\<close>

theorem Shannon_bounds:
  assumes "s \<noteq> []"
  shows "0 \<le> Shannon s \<and> Shannon s \<le> log 2 (real (card (set (map fst (runes s)))))"
  using Shannon_nonneg Shannon_le_log_card[OF assms] by blast

theorem Shannon_bounds_witness: "Shannon ''aaaa'' = 0"
proof -
  have "set (map fst (runes ''aaaa'')) = {97}" by code_simp
  then have "card (set (map fst (runes ''aaaa''))) = 1" by simp
  with Shannon_bounds[of "''aaaa''"] show ?thesis by simp
qed

text \<open>Where a finding comes from.\<close>

lemma Scan_capture:
  assumes "fi \<in> set (Scan path content thr)"
  shows "\<exists>n m. n < length (scan_lines content) \<and> \<not> comment_line (scan_lines content ! n)
     \<and> m \<in> set (FindAllStringSubmatch assignmentRe 1 (scan_lines content ! n))
     \<and> e_Line fi = int n + 1 \<and> e_File fi = path \<and> isEntropyCandidate (m ! 1) \<and> e_Entropy fi = Shannon (m ! 1)
     \<and> (if thr \<le> 0 then DefaultThreshold else thr) \<le> Shannon (m ! 1)
     \<and> e_Value fi = redact (m ! 1) \<and> e_Context fi = TrimSpace (scan_lines content ! n)"
proof -
  from assms obtain n m where "n < length (scan_lines content)" "\<not> comment_line (scan_lines content ! n)"
    "m \<in> set (FindAllStringSubmatch assignmentRe 1 (scan_lines content ! n))"
    "fi \<in> set (scan_match path (if thr \<le> 0 then DefaultThreshold else thr) (1 + int n) (scan_lines content ! n) m)"
    by (auto simp: Scan_def scan_entropy_lines_iff)
  then show ?thesis
    by (intro exI[of _ n] exI[of _ m]) (auto simp: scan_match_def Let_def split: if_splits)
qed

lemma below_default:
  assumes "length c < 23 \<or> MatchString hexAlphabet c"
  shows "Shannon c < DefaultThreshold"
proof (rule Shannon_few_runes)
  show "card (set (rune_list c)) \<le> 22"
  proof (cases "MatchString hexAlphabet c")
    case True
    then show ?thesis
      unfolding hexAlphabet_def MatchString_whole_class by (blast intro: hex_runes_card)
  next
    case False
    with assms have "length c < 23" by simp
    with card_rune_list_le[of c] show ?thesis by linarith
  qed
qed

text \<open>
  C35: the blind spots of the default threshold.  A scan with the default threshold, given as such or
  as a threshold that is not positive, reports no captured value of fewer than 23 bytes and no
  value over the hexadecimal alphabet: every finding belongs to a value captured on its line that has at
  least 23 bytes and is not hexadecimal.  So the minimum length 12 and the separate test for
  hexadecimal values have no effect there.
\<close>

theorem default_threshold_blind:
  assumes "thr \<le> 0 \<or> thr = DefaultThreshold" and "fi \<in> set (Scan path content thr)"
  shows "\<exists>n m. n < length (scan_lines content) \<and> e_Line fi = int n + 1
     \<and> m \<in> set (FindAllStringSubmatch assignmentRe 1 (scan_lines content ! n))
     \<and> e_Value fi = redact (m ! 1) \<and> e_Entropy fi = Shannon (m ! 1)
     \<and> 23 \<le> length (m ! 1) \<and> \<not> MatchString hexAlphabet (m ! 1)"
proof -
  obtain n m where nm: "n < length (scan_lines content)" "m \<in> set (FindAllStringSubmatch assignmentRe 1 (scan_lines content ! n))"
      "e_Line fi = int n + 1" "e_Entropy fi = Shannon (m ! 1)" "e_Value fi = redact (m ! 1)"
      "(if thr \<le> 0 then DefaultThreshold else thr) \<le> Shannon (m ! 1)"
    using Scan_capture[OF assms(2)] by blast
  from nm(6) assms(1) have "DefaultThreshold \<le> Shannon (m ! 1)" by (auto split: if_splits)
  with below_default[of "m ! 1"] have "23 \<le> length (m ! 1) \<and> \<not> MatchString hexAlphabet (m ! 1)" by force
  with nm(1-5) show ?thesis by blast
qed

text \<open>An instance: 24 different letters are just enough.\<close>

definition ex_key_line :: string where
  "ex_key_line = ''k='' @ [CHR 0x22] @ ''abcdefghijklmnopqrstuvwx'' @ [CHR 0x22]"

lemma ex_key_entropy: "DefaultThreshold \<le> Shannon ''abcdefghijklmnopqrstuvwx''"
proof -
  have set: "set (rune_list ''abcdefghijklmnopqrstuvwx'') = {97..120}" by code_simp
  have len: "length (rune_list ''abcdefghijklmnopqrstuvwx'') = 24" by code_simp
  have "list_all (\<lambda>c. count_list (rune_list ''abcdefghijklmnopqrstuvwx'') c = 1) (rune_list ''abcdefghijklmnopqrstuvwx'')" by code_simp
  then have "rune_prob ''abcdefghijklmnopqrstuvwx'' c = 1 / 24" if "c \<in> {97..120}" for c
    using that unfolding list_all_iff set rune_prob_def len by simp
  then have "Shannon ''abcdefghijklmnopqrstuvwx'' = (\<Sum>c \<in> {97..120 :: int}. - (1 / 24 * log 2 (1 / 24)))"
    unfolding Shannon_sum set by (intro sum.cong refl) (simp only:)
  also have "\<dots> = log 2 24" by (simp add: log_divide)
  finally have eq: "Shannon ''abcdefghijklmnopqrstuvwx'' = log 2 24" .
  have "9 = log 2 ((2::real) ^ 9)" by (subst log_nat_power) simp_all
  also have "\<dots> \<le> log 2 (24 ^ 2)" by (subst log_le_cancel_iff) simp_all
  also have "\<dots> = 2 * log 2 24" by (subst log_nat_power) simp_all
  finally show ?thesis by (simp add: eq DefaultThreshold_def)
qed

theorem default_threshold_blind_witness:
  "\<exists>fi m. fi \<in> set (Scan ''f'' ex_key_line 0) \<and> e_Value fi = redact (m ! 1) \<and> 23 \<le> length (m ! 1) \<and> \<not> MatchString hexAlphabet (m ! 1)"
proof -
  have run: "scan_lines ex_key_line = [ex_key_line]" "\<not> comment_line ex_key_line"
    "map (\<lambda>m. (length m, m ! 1)) (FindAllStringSubmatch assignmentRe 1 ex_key_line) = [(2, ''abcdefghijklmnopqrstuvwx'')]"
    "isEntropyCandidate ''abcdefghijklmnopqrstuvwx''" by code_simp+
  then obtain m where m: "m \<in> set (FindAllStringSubmatch assignmentRe 1 ex_key_line)"
    "length m = 2" "m ! 1 = ''abcdefghijklmnopqrstuvwx''" by (auto simp: map_eq_Cons_conv)
  with run ex_key_entropy have "scan_match ''f'' DefaultThreshold 1 ex_key_line m \<noteq> []" by (simp add: scan_match_def Let_def)
  then obtain fi where "fi \<in> set (scan_match ''f'' DefaultThreshold 1 ex_key_line m)" by (metis list.set_intros(1) neq_Nil_conv)
  with run m have "fi \<in> set (Scan ''f'' ex_key_line 0)" by (auto simp: Scan_def)
  with default_threshold_blind[of 0 fi "''f''" ex_key_line] show ?thesis by blast
qed

text \<open>
  C36: soundness of the scan, and what its findings disclose.  Every finding names a line of
  the content that is no comment and holds, between quotes, a candidate whose entropy reaches
  the threshold; the finding's value is the redacted candidate, but its context (the snippet
  of the finding made from it) contains the whole candidate in clear.
\<close>

theorem Scan_sound_but_discloses:
  assumes "fi \<in> set (Scan path content thr)"
  shows "\<exists>n c. n < length (scan_lines content) \<and> e_Line fi = int n + 1 \<and> e_File fi = path
     \<and> \<not> comment_line (scan_lines content ! n) \<and> sublist c (scan_lines content ! n)
     \<and> isEntropyCandidate c \<and> e_Entropy fi = Shannon c
     \<and> (if thr \<le> 0 then DefaultThreshold else thr) \<le> Shannon c
     \<and> e_Value fi = redact c \<and> sublist c (f_Snippet (hd (ToModelFindings [fi])))"
proof -
  obtain n m where n: "n < length (scan_lines content)" "\<not> comment_line (scan_lines content ! n)"
      "m \<in> set (FindAllStringSubmatch assignmentRe 1 (scan_lines content ! n))"
    and fi: "e_Line fi = int n + 1" "e_File fi = path" "isEntropyCandidate (m ! 1)" "e_Entropy fi = Shannon (m ! 1)"
      "(if thr \<le> 0 then DefaultThreshold else thr) \<le> Shannon (m ! 1)" "e_Value fi = redact (m ! 1)"
      "e_Context fi = TrimSpace (scan_lines content ! n)"
    using Scan_capture[OF assms] by blast
  from FindAll_assignment[OF n(3)] obtain a b c d where
    line: "scan_lines content ! n = a @ (c # m ! 1 @ [d]) @ b" "solid c" "solid d" by blast
  have "sublist (c # m ! 1 @ [d]) (TrimSpace (scan_lines content ! n))"
    using line by (blast intro: TrimSpace_keeps)
  moreover have in_quotes: "sublist (m ! 1) (c # m ! 1 @ [d])"
    using sublist_appendI[of "m ! 1" "[c]" "[d]"] by simp
  ultimately have "sublist (m ! 1) (TrimSpace (scan_lines content ! n))"
    by (blast intro: sublist_order.order.trans)
  moreover have "sublist (m ! 1) (scan_lines content ! n)"
    unfolding line(1) using in_quotes by (blast intro: sublist_order.order.trans sublist_appendI)
  ultimately show ?thesis
    using n fi by (intro exI[of _ n] exI[of _ "m ! 1"]) (simp add: ToModelFindings_def)
qed

definition ex_secret_line :: string where
  "ex_secret_line = ''k='' @ [CHR 0x22] @ ''aaaaaabbbbbb'' @ [CHR 0x22]"

lemma ex_secret_entropy: "Shannon ''aaaaaabbbbbb'' = 1"
proof -
  have "set (rune_list ''aaaaaabbbbbb'') = {97, 98}" by code_simp
  moreover have "count_list (rune_list ''aaaaaabbbbbb'') 97 = 6"
    "count_list (rune_list ''aaaaaabbbbbb'') 98 = 6" "length (rune_list ''aaaaaabbbbbb'') = 12" by code_simp+
  moreover have "log 2 (1 / 2 :: real) = - 1" by (simp add: log_divide)
  ultimately show ?thesis by (simp add: Shannon_sum rune_prob_def del: runes.simps set_map)
qed

theorem Scan_sound_but_discloses_witness:
  "\<exists>fi c. fi \<in> set (Scan ''f'' ex_secret_line 1) \<and> e_Value fi = ''aaaa***bbbb''
     \<and> isEntropyCandidate c \<and> sublist c (f_Snippet (hd (ToModelFindings [fi])))"
proof -
  have run: "scan_lines ex_secret_line = [ex_secret_line]" "\<not> comment_line ex_secret_line"
    "map (\<lambda>m. (length m, m ! 1)) (FindAllStringSubmatch assignmentRe 1 ex_secret_line) = [(2, ''aaaaaabbbbbb'')]"
    "isEntropyCandidate ''aaaaaabbbbbb''" by code_simp+
  then obtain m where "m \<in> set (FindAllStringSubmatch assignmentRe 1 ex_secret_line)"
    "length m = 2" "m ! 1 = ''aaaaaabbbbbb''" by (auto simp: map_eq_Cons_conv)
  with run obtain fi where fi: "fi \<in> set (Scan ''f'' ex_secret_line 1)" "e_Value fi = redact ''aaaaaabbbbbb''"
    by (force simp: Scan_def scan_match_def ex_secret_entropy)
  moreover from Scan_sound_but_discloses[OF fi(1)] obtain c where
    "isEntropyCandidate c" "sublist c (f_Snippet (hd (ToModelFindings [fi])))" by blast
  moreover have "redact ''aaaaaabbbbbb'' = ''aaaa***bbbb''" by code_simp
  ultimately show ?thesis by metis
qed

text \<open>
  Redaction.  Of a secret longer than 8 bytes the redacted form shows the first and the
  last four bytes and nothing else: two secrets that agree there are redacted alike.
\<close>

theorem redact_noninterference:
  assumes "length a = 4" and "length b = 4" and "x \<noteq> []" and "y \<noteq> []"
  shows "redact (a @ x @ b) = redact (a @ y @ b) \<and> redact (a @ x @ b) = a @ ''***'' @ b"
  using assms by (cases x; cases y) (simp_all add: redact_def)

theorem redact_noninterference_witness:
  "redact (''AKIA'' @ ''1234'' @ ''wxyz'') = ''AKIA***wxyz''"
proof -
  have "redact (''AKIA'' @ ''1234'' @ ''wxyz'') = ''AKIA'' @ ''***'' @ ''wxyz''"
    by (rule redact_noninterference[THEN conjunct2, of _ _ _ "''5''"]) simp_all
  then show ?thesis by simp
qed

end
