(* ===== verification/Deps.thy ===== *)
theory Deps
  imports Models GoRegexp
begin

text \<open>
  \<^verbatim>\<open>pkg/deps\<close>: the line-by-line parsers of dependency manifests (go.mod, package.json,
  requirements.txt, Cargo.toml, pom.xml) and \<^verbatim>\<open>ScanFile\<close>, which picks one by file name.  Each
  parser is a loop over the scanned lines with a small state; the patterns are the ones of
  the source, as parsed expressions.
\<close>

section \<open>Data\<close>

record Dep =
  d_Name :: string
  d_Version :: string
  d_Source :: string
  d_Indirect :: bool

record Manifest =
  m_File :: string
  m_Deps :: "Dep list"

definition mkDep :: "string \<Rightarrow> string \<Rightarrow> string \<Rightarrow> Dep" where
  "mkDep name version source =
     \<lparr> d_Name = name, d_Version = version, d_Source = source, d_Indirect = False \<rparr>"

section \<open>go.mod\<close>

definition modpath_rune :: "rune \<Rightarrow> bool" where
  "modpath_rune r \<longleftrightarrow> word_rune r \<or> rune_in ''./-'' r"

definition version_rune :: "rune \<Rightarrow> bool" where
  "version_rune r \<longleftrightarrow> word_rune r \<or> rune_in ''.-+'' r"

definition modVersion :: regex where
  "modVersion = RSeq (ROne (CHR ''v'')) (RPlus (RClass version_rune))"

definition goRequireLine :: regex where
  "goRequireLine =
     RSeqs [RBeginText, RSpaces, RGroup 1 (RPlus (RClass modpath_rune)), RSpaces1, RGroup 2 modVersion,
            ROpt (RGroup 3 (RSeqs [RSpaces, RLit ''//'', RSpaces, RLit ''indirect'']))]"

definition goRequireBlock :: regex where
  "goRequireBlock = RSeqs [RBeginText, RLit ''require'', RSpaces, ROne (CHR ''('')]"

definition goRequireSingle :: regex where
  "goRequireSingle =
     RSeqs [RBeginText, RLit ''require'', RSpaces1, RGroup 1 (RPlus (RClass modpath_rune)), RSpaces1,
            RGroup 2 modVersion]"

fun gomod_lines :: "bool \<Rightarrow> Dep list \<Rightarrow> string list \<Rightarrow> Dep list" where
  "gomod_lines inBlock deps [] = deps"
| "gomod_lines inBlock deps (line # ls) =
     (let trimmed = TrimSpace line in
      if MatchString goRequireBlock trimmed then gomod_lines True deps ls
      else if inBlock \<and> trimmed = '')'' then gomod_lines False deps ls
      else if inBlock then
        (case FindStringSubmatch goRequireLine 3 trimmed of
           Some m \<Rightarrow> gomod_lines inBlock
                      (deps @ [\<lparr> d_Name = m ! 1, d_Version = m ! 2, d_Source = ''go.mod'',
                                 d_Indirect = (m ! 3 \<noteq> []) \<rparr>]) ls
         | None \<Rightarrow> gomod_lines inBlock deps ls)
      else
        (case FindStringSubmatch goRequireSingle 2 trimmed of
           Some m \<Rightarrow> gomod_lines inBlock (deps @ [mkDep (m ! 1) (m ! 2) ''go.mod'']) ls
         | None \<Rightarrow> gomod_lines inBlock deps ls))"

definition parseGoMod :: "string \<Rightarrow> go_error + Dep list" where
  "parseGoMod content = Inr (gomod_lines False [] (scan_lines content))"

section \<open>package.json\<close>

definition dquote :: char where "dquote = CHR 0x22"

definition quoted :: "string \<Rightarrow> string" where "quoted s = dquote # s @ [dquote]"

definition non_dquote :: "rune \<Rightarrow> bool" where "non_dquote r \<longleftrightarrow> r \<noteq> of_char dquote"

definition pkgJSONDepLine :: regex where
  "pkgJSONDepLine =
     RSeqs [RBeginText, RSpaces1, ROne dquote, RGroup 1 (RPlus (RClass non_dquote)), ROne dquote,
            ROne (CHR '':''), RSpaces1, ROne dquote, RGroup 2 (RPlus (RClass non_dquote)), ROne dquote]"

fun pkgjson_lines :: "bool \<Rightarrow> Dep list \<Rightarrow> string list \<Rightarrow> Dep list" where
  "pkgjson_lines inDeps deps [] = deps"
| "pkgjson_lines inDeps deps (line # ls) =
     (let trimmed = TrimSpace line in
      if Contains trimmed (quoted ''dependencies'') \<or> Contains trimmed (quoted ''devDependencies'')
         \<or> Contains trimmed (quoted ''peerDependencies'')
      then pkgjson_lines True deps ls
      else if inDeps \<and> trimmed = ''}'' then pkgjson_lines False deps ls
      else if inDeps then
        (case FindStringSubmatch pkgJSONDepLine 2 line of
           Some m \<Rightarrow> pkgjson_lines inDeps (deps @ [mkDep (m ! 1) (m ! 2) ''package.json'']) ls
         | None \<Rightarrow> pkgjson_lines inDeps deps ls)
      else pkgjson_lines inDeps deps ls)"

definition parsePackageJSON :: "string \<Rightarrow> go_error + Dep list" where
  "parsePackageJSON content = Inr (pkgjson_lines False [] (scan_lines content))"

section \<open>requirements.txt\<close>

definition reqname_rune :: "rune \<Rightarrow> bool" where
  "reqname_rune r \<longleftrightarrow> alpha_rune r \<or> digit_rune r \<or> rune_in ''_-.'' r"

definition reqLine :: regex where
  "reqLine =
     RSeqs [RBeginText, RGroup 1 (RPlus (RClass reqname_rune)), RSpaces,
            RGroup 2 (RPlus (RClass (rune_in ''><=!~^''))), RSpaces,
            RGroup 3 (RPlus (RClass (\<lambda>r. word_rune r \<or> rune_in ''.-'' r)))]"

definition req_line :: "string \<Rightarrow> Dep list" where
  "req_line raw =
     (let line = TrimSpace raw in
      if line = [] \<or> HasPrefix line ''#'' \<or> HasPrefix line ''-'' then []
      else (case FindStringSubmatch reqLine 3 line of
              Some m \<Rightarrow> [mkDep (m ! 1) (m ! 2 @ m ! 3) ''requirements.txt'']
            | None \<Rightarrow> (case Fields line of
                         [] \<Rightarrow> []
                       | name # _ \<Rightarrow> [mkDep name [] ''requirements.txt''])))"

definition parseRequirementsTxt :: "string \<Rightarrow> Dep list" where
  "parseRequirementsTxt content = concat (map req_line (scan_lines content))"

section \<open>Cargo.toml\<close>

definition cratename_rune :: "rune \<Rightarrow> bool" where
  "cratename_rune r \<longleftrightarrow> alpha_rune r \<or> digit_rune r \<or> rune_in ''_-'' r"

definition cargoDepsSection :: regex where
  "cargoDepsSection =
     RSeqs [RBeginText, ROne (CHR ''[''),
            RGroup 1 (RAlt (RLit ''dependencies'') (RAlt (RLit ''dev-dependencies'') (RLit ''build-dependencies''))),
            ROne (CHR '']'')]"

definition cargoDepSimple :: regex where
  "cargoDepSimple =
     RSeqs [RBeginText, RGroup 1 (RPlus (RClass cratename_rune)), RSpaces, ROne (CHR ''=''), RSpaces,
            ROne dquote, RGroup 2 (RPlus (RClass non_dquote)), ROne dquote]"

definition cargoDepTable :: regex where
  "cargoDepTable =
     RSeqs [RBeginText, RGroup 1 (RPlus (RClass cratename_rune)), RSpaces, ROne (CHR ''=''), RSpaces,
            ROne (CHR ''{'')]"

definition cargoVersionKey :: regex where
  "cargoVersionKey =
     RSeqs [RLit ''version'', RSpaces, ROne (CHR ''=''), RSpaces, ROne dquote,
            RGroup 1 (RPlus (RClass non_dquote)), ROne dquote]"

fun cargo_lines :: "bool \<Rightarrow> Dep list \<Rightarrow> string list \<Rightarrow> Dep list" where
  "cargo_lines inDeps deps [] = deps"
| "cargo_lines inDeps deps (line # ls) =
     (let trimmed = TrimSpace line in
      if MatchString cargoDepsSection trimmed then cargo_lines True deps ls
      else if HasPrefix trimmed ''['' \<and> \<not> MatchString cargoDepsSection trimmed
      then cargo_lines False deps ls
      else if \<not> inDeps then cargo_lines inDeps deps ls
      else (case FindStringSubmatch cargoDepSimple 2 trimmed of
              Some m \<Rightarrow> cargo_lines inDeps (deps @ [mkDep (m ! 1) (m ! 2) ''Cargo.toml'']) ls
            | None \<Rightarrow>
                (case FindStringSubmatch cargoDepTable 1 trimmed of
                   Some m \<Rightarrow>
                     let ver = (case FindStringSubmatch cargoVersionKey 1 trimmed of
                                  Some mv \<Rightarrow> mv ! 1 | None \<Rightarrow> [])
                     in cargo_lines inDeps (deps @ [mkDep (m ! 1) ver ''Cargo.toml'']) ls
                 | None \<Rightarrow> cargo_lines inDeps deps ls)))"

definition parseCargoToml :: "string \<Rightarrow> go_error + Dep list" where
  "parseCargoToml content = Inr (cargo_lines False [] (scan_lines content))"

section \<open>pom.xml\<close>

definition element :: "string \<Rightarrow> regex" where
  "element tag =
     RSeqs [RLit (''<'' @ tag @ ''>''), RGroup 1 (RPlus (RClass (\<lambda>r. r \<noteq> of_char (CHR ''<'')))),
            RLit (''</'' @ tag @ ''>'')]"

definition pomGroupID :: regex where "pomGroupID = element ''groupId''"
definition pomArtifactID :: regex where "pomArtifactID = element ''artifactId''"
definition pomVersion :: regex where "pomVersion = element ''version''"

fun pom_lines ::
  "bool \<Rightarrow> string \<Rightarrow> string \<Rightarrow> string \<Rightarrow> Dep list \<Rightarrow> string list \<Rightarrow> Dep list" where
  "pom_lines inDep grp artifact version deps [] = deps"
| "pom_lines inDep grp artifact version deps (raw # ls) =
     (let line = TrimSpace raw in
      if Contains line ''<dependency>'' then pom_lines True [] [] [] deps ls
      else if Contains line ''</dependency>'' then
        pom_lines False grp artifact version
          (if artifact \<noteq> []
           then deps @ [mkDep (if grp \<noteq> [] then grp @ '':'' @ artifact else artifact) version ''pom.xml'']
           else deps) ls
      else if \<not> inDep then pom_lines inDep grp artifact version deps ls
      else (case FindStringSubmatch pomGroupID 1 line of
              Some m \<Rightarrow> pom_lines inDep (m ! 1) artifact version deps ls
            | None \<Rightarrow>
                (case FindStringSubmatch pomArtifactID 1 line of
                   Some m \<Rightarrow> pom_lines inDep grp (m ! 1) version deps ls
                 | None \<Rightarrow>
                     (case FindStringSubmatch pomVersion 1 line of
                        Some m \<Rightarrow> pom_lines inDep grp artifact (m ! 1) deps ls
                      | None \<Rightarrow> pom_lines inDep grp artifact version deps ls))))"

definition parsePomXML :: "string \<Rightarrow> Dep list" where
  "parsePomXML content = pom_lines False [] [] [] [] (scan_lines content)"

section \<open>ScanFile\<close>

definition ScanFile :: "string \<Rightarrow> string \<Rightarrow> go_error + Manifest option" where
  "ScanFile path content =
     (let base = ToLower (Base path);
          parsed = (if base = ''go.mod'' then Some (parseGoMod content)
                    else if base = ''package.json'' then Some (parsePackageJSON content)
                    else if base = ''requirements.txt'' then Some (Inr (parseRequirementsTxt content))
                    else if base = ''cargo.toml'' then Some (parseCargoToml content)
                    else if base = ''pom.xml'' then Some (Inr (parsePomXML content))
                    else None)
      in case parsed of
           None \<Rightarrow> Inr None
         | Some (Inl err) \<Rightarrow> Inl err
         | Some (Inr deps) \<Rightarrow> Inr (Some \<lparr> m_File = path, m_Deps = deps \<rparr>))"

section \<open>Reading a printed go.mod back\<close>

text \<open>How the go command prints a require block.\<close>

definition gomod_line :: "Dep \<Rightarrow> string" where
  "gomod_line d = CHR 0x09 # d_Name d @ '' '' @ d_Version d @ (if d_Indirect d then '' // indirect'' else [])"

definition print_gomod :: "Dep list \<Rightarrow> string" where
  "print_gomod ds = ''require ('' @ [newline] @ concat (map (\<lambda>d. gomod_line d @ [newline]) ds) @ '')'' @ [newline]"

text \<open>The dependencies whose names and versions are made of the runes the pattern accepts.\<close>

definition gomod_dep :: "Dep \<Rightarrow> bool" where
  "gomod_dep d \<longleftrightarrow>
     d_Name d \<noteq> [] \<and> list_all (\<lambda>c. modpath_rune (of_char c)) (d_Name d) \<and>
     d_Version d \<noteq> [] \<and> hd (d_Version d) = CHR ''v'' \<and> tl (d_Version d) \<noteq> [] \<and>
     list_all (\<lambda>c. version_rune (of_char c)) (tl (d_Version d)) \<and>
     d_Source d = ''go.mod'' \<and> int (length (gomod_line d)) < MaxScanTokenSize"

lemma modpath_rune_class: "modpath_rune r \<Longrightarrow> r < 0x80 \<and> \<not> space_rune r \<and> r \<notin> {9, 10, 11, 12, 13, 32, 40}"
  by (auto simp: modpath_rune_def word_rune_def rune_in_def space_rune_def)

lemma version_rune_class: "version_rune r \<Longrightarrow> r < 0x80 \<and> \<not> space_rune r \<and> r \<notin> {9, 10, 11, 12, 13, 32, 40}"
  by (auto simp: version_rune_def word_rune_def rune_in_def space_rune_def)

lemma modpath_char_solid: "modpath_rune (of_char c) \<Longrightarrow> solid c"
  using modpath_rune_class[of "of_char c"] by (intro solid_ascii) (auto simp: ascii_spaces_codes)

lemma version_char_solid: "version_rune (of_char c) \<Longrightarrow> solid c"
  using version_rune_class[of "of_char c"] by (intro solid_ascii) (auto simp: ascii_spaces_codes)

text \<open>The text of a require line after trimming.\<close>

definition gomod_text :: "Dep \<Rightarrow> string" where
  "gomod_text d = d_Name d @ '' '' @ d_Version d @ (if d_Indirect d then '' // indirect'' else [])"

lemma gomod_line_text: "gomod_line d = CHR 0x09 # gomod_text d"
  by (simp add: gomod_line_def gomod_text_def)

lemma gomod_dep_version:
  assumes "gomod_dep d"
  obtains w where "d_Version d = CHR ''v'' # w" "w \<noteq> []" "list_all (\<lambda>c. version_rune (of_char c)) w"
  using assms by (cases "d_Version d") (auto simp: gomod_dep_def)

lemma gomod_text_chars:
  assumes "gomod_dep d"
  shows "list_all (\<lambda>c. of_char c < (0x80 :: int) \<and> c \<noteq> newline \<and> c \<noteq> CHR ''('') (gomod_text d)"
proof -
  obtain w where w: "d_Version d = CHR ''v'' # w" "list_all (\<lambda>c. version_rune (of_char c)) w"
    using assms by (rule gomod_dep_version)
  have "list_all (\<lambda>c. of_char c < (0x80 :: int) \<and> c \<noteq> newline \<and> c \<noteq> CHR ''('') (d_Name d)"
    using assms by (auto simp: gomod_dep_def newline_def list_all_iff dest!: bspec modpath_rune_class)
  moreover have "list_all (\<lambda>c. of_char c < (0x80 :: int) \<and> c \<noteq> newline \<and> c \<noteq> CHR ''('') w"
    using w(2) by (auto simp: newline_def list_all_iff dest!: bspec version_rune_class)
  ultimately show ?thesis by (simp add: gomod_text_def w(1) newline_def)
qed

lemma gomod_text_trim:
  assumes "gomod_dep d"
  shows "TrimSpace (gomod_line d) = gomod_text d"
proof -
  obtain w where w: "d_Version d = CHR ''v'' # w" "w \<noteq> []" "list_all (\<lambda>c. version_rune (of_char c)) w"
    using assms by (rule gomod_dep_version)
  have n: "d_Name d \<noteq> []" "list_all (\<lambda>c. modpath_rune (of_char c)) (d_Name d)"
    using assms by (auto simp: gomod_dep_def)
  have "solid (hd (gomod_text d))"
    using n by (cases "d_Name d") (auto simp: gomod_text_def modpath_char_solid)
  moreover have "solid (last (gomod_text d))"
  proof (cases "d_Indirect d")
    case True
    have "solid (CHR ''t'')" by (rule solid_ascii) (simp_all add: ascii_spaces_def)
    with True show ?thesis by (simp add: gomod_text_def)
  next
    case False
    with w show ?thesis by (auto simp: gomod_text_def list_all_iff intro: version_char_solid)
  qed
  ultimately show ?thesis
    using TrimSpace_exact[of "[CHR 0x09]" "[]" "gomod_text d"]
    by (simp add: gomod_line_text gomod_text_def ascii_spaces_def)
qed

lemma gomod_text_not_block:
  assumes "gomod_dep d"
  shows "\<not> MatchString goRequireBlock (gomod_text d)"
proof
  assume "MatchString goRequireBlock (gomod_text d)"
  moreover have "must_see (\<lambda>r. r = 40) goRequireBlock" by (simp add: goRequireBlock_def ROne_def RLit_def)
  ultimately have "\<exists>x \<in> set (runes (gomod_text d)). fst x = 40" by (rule MatchString_must_see)
  moreover have "ascii (gomod_text d)"
    using gomod_text_chars[OF assms] by (auto simp: ascii_def list_all_iff)
  ultimately obtain c where c: "c \<in> set (gomod_text d)" "of_char c = (of_char (CHR ''('') :: int)"
    by (auto simp: runes_ascii)
  from c(2) have "c = CHR ''(''" by (simp only: of_char_eq_iff)
  with c(1) have "CHR ''('' \<in> set (gomod_text d)" by simp
  with gomod_text_chars[OF assms] show False by (auto simp: list_all_iff)
qed

lemma gomod_text_runes: "gomod_dep d \<Longrightarrow> runes (gomod_text d) = ascii_runes (gomod_text d)"
  using gomod_text_chars[of d] by (simp add: runes_ascii ascii_def list_all_iff ascii_runes_def)

lemma leads_modVersion:
  assumes "w \<noteq> []" and "list_all (\<lambda>c. version_rune (of_char c)) w"
    and "t = [] \<or> \<not> version_rune (fst (hd t))"
  shows "leads (RGroup 2 modVersion) (p, ascii_runes (CHR ''v'' # w) @ t, cs)
           (rune_after p (ascii_runes (CHR ''v'' # w)), t, (2, CHR ''v'' # w) # cs)"
proof -
  have "leads (ROne (CHR ''v'')) (p, ascii_runes (CHR ''v'' # w) @ t, cs)
      (Some (of_char (CHR ''v'')), ascii_runes w @ t, cs)"
    using leads_class[of "\<lambda>r. r = of_char (CHR ''v'')" "(of_char (CHR ''v''), ''v'')"] by (simp add: ROne_def)
  moreover have "leads (RPlus (RClass version_rune)) (Some (of_char (CHR ''v'')), ascii_runes w @ t, cs)
      (rune_after p (ascii_runes (CHR ''v'' # w)), t, cs)"
    using leads_plus_class[of version_rune "ascii_runes w" t "Some (of_char (CHR ''v''))" cs] assms by simp
  ultimately have "leads modVersion (p, ascii_runes (CHR ''v'' # w) @ t, cs)
      (rune_after p (ascii_runes (CHR ''v'' # w)), t, cs)"
    unfolding modVersion_def by (rule leads_seq)
  from leads_group[OF this] show ?thesis by simp
qed

lemma leads_indirect:
  "leads (RGroup 3 (RSeqs [RSpaces, RLit ''//'', RSpaces, RLit ''indirect'']))
     (p, ascii_runes '' // indirect'', cs) (Some (of_char (CHR ''t'')), [], (3, '' // indirect'') # cs)"
proof -
  let ?i = "ascii_runes ''indirect''"
  have "leads RSpaces (p, ascii_runes '' '' @ ascii_runes ''// indirect'', cs)
      (Some 32, ascii_runes ''// indirect'', cs)"
    using leads_star_class[of space_rune "ascii_runes '' ''" "ascii_runes ''// indirect''" p cs]
    by (simp add: RSpaces_def space_rune_def)
  moreover have "leads (RLit ''//'') (Some 32, ascii_runes ''// indirect'', cs) (Some 47, ascii_runes '' '' @ ?i, cs)"
    using leads_literal[of "''//''" "Some 32" "ascii_runes '' '' @ ?i" cs] by simp
  moreover have "leads RSpaces (Some 47, ascii_runes '' '' @ ?i, cs) (Some 32, ?i, cs)"
    using leads_star_class[of space_rune "ascii_runes '' ''" ?i "Some 47" cs]
    by (simp add: RSpaces_def space_rune_def)
  moreover have "leads (RLit ''indirect'') (Some 32, ?i, cs) (Some (of_char (CHR ''t'')), [], cs)"
    using leads_literal[of "''indirect''" "Some 32" "[]" cs] by simp
  ultimately have "leads (RSeqs [RSpaces, RLit ''//'', RSpaces, RLit ''indirect''])
      (p, ascii_runes '' // indirect'' @ [], cs) (Some (of_char (CHR ''t'')), [], cs)"
    by (auto intro!: leads_seq)
  from leads_group[OF this] show ?thesis by simp
qed

lemma leads_no_indirect:
  "leads (ROpt (RGroup 3 (RSeqs [RSpaces, RLit ''//'', RSpaces, RLit ''indirect'']))) (p, [], cs) (p, [], cs)"
  unfolding ROpt_def by (rule leads_alt2) (simp_all add: leads_empty RSpaces_def RLit_def ROne_def)

lemma leads_name:
  assumes "n \<noteq> []" and "list_all (\<lambda>c. modpath_rune (of_char c)) n" and "t \<noteq> []" and "fst (hd t) = 32"
  shows "leads (RGroup 1 (RPlus (RClass modpath_rune))) (p, ascii_runes n @ t, cs)
           (rune_after p (ascii_runes n), t, (1, n) # cs)"
proof -
  have "leads (RPlus (RClass modpath_rune)) (p, ascii_runes n @ t, cs) (rune_after p (ascii_runes n), t, cs)"
    using assms modpath_rune_class[of 32] by (intro leads_plus_class) auto
  from leads_group[OF this] show ?thesis by simp
qed

lemma gomod_submatches:
  assumes "gomod_dep d"
  shows "\<exists>a x. FindStringSubmatch goRequireLine 3 (gomod_text d) = Some [a, d_Name d, d_Version d, x]
           \<and> (x \<noteq> [] \<longleftrightarrow> d_Indirect d)"
proof -
  obtain w where w: "d_Version d = CHR ''v'' # w" "w \<noteq> []" "list_all (\<lambda>c. version_rune (of_char c)) w"
    using assms by (rule gomod_dep_version)
  have n: "d_Name d \<noteq> []" "list_all (\<lambda>c. modpath_rune (of_char c)) (d_Name d)"
    using assms by (auto simp: gomod_dep_def)
  let ?e = "ascii_runes (if d_Indirect d then '' // indirect'' else [])"
  let ?v = "ascii_runes (d_Version d)"
  let ?n = "ascii_runes (d_Name d)"
  let ?p = "rune_after (Some 32) ?v"
  let ?cs = "[(2, d_Version d), (1, d_Name d)]"
  let ?opt = "ROpt (RGroup 3 (RSeqs [RSpaces, RLit ''//'', RSpaces, RLit ''indirect'']))"
  let ?ind = "if d_Indirect d then [(3, '' // indirect'')] else []"
  have "leads RBeginText (None, ?n @ ascii_runes '' '' @ ?v @ ?e, []) (None, ?n @ ascii_runes '' '' @ ?v @ ?e, [])"
    by (rule leads_begin)
  moreover have "leads RSpaces (None, ?n @ ascii_runes '' '' @ ?v @ ?e, []) (None, ?n @ ascii_runes '' '' @ ?v @ ?e, [])"
    using n leads_star_class[of space_rune "[]" "?n @ ascii_runes '' '' @ ?v @ ?e" None "[]"]
    by (cases "d_Name d") (auto simp: RSpaces_def dest: modpath_rune_class)
  moreover have "leads (RGroup 1 (RPlus (RClass modpath_rune))) (None, ?n @ ascii_runes '' '' @ ?v @ ?e, [])
      (rune_after None ?n, ascii_runes '' '' @ ?v @ ?e, [(1, d_Name d)])"
    using n by (intro leads_name) auto
  moreover have "leads RSpaces1 (rune_after None ?n, ascii_runes '' '' @ ?v @ ?e, [(1, d_Name d)])
      (Some 32, ?v @ ?e, [(1, d_Name d)])"
    using leads_plus_class[of space_rune "ascii_runes '' ''" "?v @ ?e" "rune_after None ?n" "[(1, d_Name d)]"]
    by (simp add: RSpaces1_def space_rune_def w(1))
  moreover have "leads (RGroup 2 modVersion) (Some 32, ?v @ ?e, [(1, d_Name d)]) (?p, ?e, ?cs)"
    using leads_modVersion[OF w(2,3), of ?e "Some 32" "[(1, d_Name d)]"]
    by (auto simp: w(1) version_rune_def word_rune_def rune_in_def)
  moreover have "\<exists>q. leads ?opt (?p, ?e, ?cs) (q, [], ?ind @ ?cs)"
    using leads_alt1[OF leads_indirect[of ?p ?cs]] leads_no_indirect[of ?p ?cs]
    by (cases "d_Indirect d") (auto simp: ROpt_def)
  ultimately obtain q where "leads goRequireLine (None, ?n @ ascii_runes '' '' @ ?v @ ?e, []) (q, [], ?ind @ ?cs)"
    unfolding goRequireLine_def by (auto intro!: leads_seq)
  moreover have "runes (gomod_text d) = ?n @ ascii_runes '' '' @ ?v @ ?e"
    by (simp only: gomod_text_runes[OF assms]) (simp add: gomod_text_def)
  ultimately have "find_from goRequireLine None (runes (gomod_text d)) =
      Some (0, runes (gomod_text d), (q, [], ?ind @ ?cs))" by (simp add: find_from_leads)
  then show ?thesis
    by (auto simp: FindStringSubmatch_def submatches_def upt_rec w(1))
qed

lemma gomod_step:
  assumes "gomod_dep d"
  shows "gomod_lines True deps (gomod_line d # ls) = gomod_lines True (deps @ [d]) ls"
proof -
  obtain a x where m: "FindStringSubmatch goRequireLine 3 (gomod_text d) = Some [a, d_Name d, d_Version d, x]"
    "x \<noteq> [] \<longleftrightarrow> d_Indirect d" using gomod_submatches[OF assms] by blast
  have "gomod_text d \<noteq> '')''" using assms by (cases "d_Name d") (auto simp: gomod_text_def gomod_dep_def)
  moreover have "\<lparr> d_Name = d_Name d, d_Version = d_Version d, d_Source = ''go.mod'', d_Indirect = d_Indirect d \<rparr> = d"
    using assms by (cases d) (simp add: gomod_dep_def)
  ultimately show ?thesis
    by (simp add: gomod_text_trim[OF assms] gomod_text_not_block[OF assms] m)
qed

lemma gomod_steps:
  "list_all gomod_dep ds \<Longrightarrow> gomod_lines True deps (map gomod_line ds @ ls) = gomod_lines True (deps @ ds) ls"
  by (induction ds arbitrary: deps) (simp_all add: gomod_step del: gomod_lines.simps)

lemma gomod_scan_line:
  assumes "gomod_dep d"
  shows "scan_lines (gomod_line d @ newline # s) = gomod_line d # scan_lines s"
proof -
  have "newline \<notin> set (gomod_line d)"
    using gomod_text_chars[OF assms] by (auto simp: gomod_line_text list_all_iff newline_def)
  moreover have "last (gomod_line d) \<noteq> CHR 0x0D"
  proof -
    obtain w where w: "d_Version d = CHR ''v'' # w" "w \<noteq> []" "list_all (\<lambda>c. version_rune (of_char c)) w"
      using assms by (rule gomod_dep_version)
    from w(2,3) have "version_rune (of_char (last w))" by (simp add: list_all_iff)
    then have "last w \<noteq> CHR 0x0D" using version_rune_class by fastforce
    with w(1,2) show ?thesis by (simp add: gomod_line_def)
  qed
  ultimately show ?thesis
    using assms by (simp add: scan_lines_append gomod_dep_def dropCR_def)
qed

lemma scan_print_gomod:
  "list_all gomod_dep ds \<Longrightarrow>
     scan_lines (concat (map (\<lambda>d. gomod_line d @ [newline]) ds) @ s) = map gomod_line ds @ scan_lines s"
  by (induction ds) (simp_all add: gomod_scan_line)

text \<open>
  C10: reading back a printed require block.  Any list of dependencies with well-formed names
  and versions, printed as a require block with one line per dependency and
  \<^verbatim>\<open>// indirect\<close> marks, is parsed back to exactly that list, in order and with the marks,
  through \<^verbatim>\<open>ScanFile\<close> at any path whose base name is \<^verbatim>\<open>go.mod\<close>.
\<close>

theorem gomod_roundtrip:
  assumes "list_all gomod_dep ds" and "ToLower (Base path) = ''go.mod''"
  shows "ScanFile path (print_gomod ds) = Inr (Some \<lparr> m_File = path, m_Deps = ds \<rparr>)"
proof -
  have open_line: "scan_lines (''require ('' @ [newline] @ s) = ''require ('' # scan_lines s" for s
    using scan_lines_append[of "''require (''" s] by (simp add: newline_def MaxScanTokenSize_def dropCR_def)
  have close_line: "scan_lines ('')'' @ [newline]) = ['')'']"
    using scan_lines_append[of "'')''" "[]"] by (simp add: newline_def MaxScanTokenSize_def dropCR_def)
  have trims: "TrimSpace ''require ('' = ''require (''" "TrimSpace '')'' = '')''" by code_simp+
  have blocks: "MatchString goRequireBlock ''require (''" "\<not> MatchString goRequireBlock '')''" by code_simp+
  have "scan_lines (print_gomod ds) = ''require ('' # map gomod_line ds @ ['')'']"
    by (simp only: print_gomod_def open_line scan_print_gomod[OF assms(1)] close_line)
  moreover have "gomod_lines False [] (''require ('' # map gomod_line ds @ ['')'']) = ds"
    by (simp add: trims blocks gomod_steps[OF assms(1)])
  ultimately show ?thesis by (simp add: ScanFile_def assms(2) parseGoMod_def)
qed

theorem gomod_roundtrip_witness:
  "ScanFile ''svc/go.mod'' (print_gomod
      [\<lparr> d_Name = ''github.com/lib/pq'', d_Version = ''v1.10.9'', d_Source = ''go.mod'', d_Indirect = False \<rparr>,
       \<lparr> d_Name = ''gopkg.in/yaml.v3'', d_Version = ''v3.0.1'', d_Source = ''go.mod'', d_Indirect = True \<rparr>]) =
   Inr (Some \<lparr> m_File = ''svc/go.mod'', m_Deps =
      [\<lparr> d_Name = ''github.com/lib/pq'', d_Version = ''v1.10.9'', d_Source = ''go.mod'', d_Indirect = False \<rparr>,
       \<lparr> d_Name = ''gopkg.in/yaml.v3'', d_Version = ''v3.0.1'', d_Source = ''go.mod'', d_Indirect = True \<rparr>] \<rparr>)"
  by (rule gomod_roundtrip) code_simp+

section \<open>What the parsers report\<close>

lemmas regex_shapes = RPlus_def ROpt_def ROne_def RSpaces_def RSpaces1_def RLit_def

lemma goRequireLine_version: "FindStringSubmatch goRequireLine 3 s = Some m \<Longrightarrow> m ! 2 \<noteq> []"
  by (rule FindStringSubmatch_nonempty[where k = 2]) (auto simp: goRequireLine_def modVersion_def regex_shapes)

lemma goRequireSingle_version: "FindStringSubmatch goRequireSingle 2 s = Some m \<Longrightarrow> m ! 2 \<noteq> []"
  by (rule FindStringSubmatch_nonempty[where k = 2]) (auto simp: goRequireSingle_def modVersion_def regex_shapes)

lemma pkgJSONDepLine_version: "FindStringSubmatch pkgJSONDepLine 2 s = Some m \<Longrightarrow> m ! 2 \<noteq> []"
  by (rule FindStringSubmatch_nonempty[where k = 2]) (auto simp: pkgJSONDepLine_def regex_shapes)

definition versioned :: "Dep \<Rightarrow> bool" where "versioned d \<longleftrightarrow> d_Version d \<noteq> []"

lemma versioned_mkDep:
  "versioned (mkDep n v s) \<longleftrightarrow> v \<noteq> []"
  "versioned \<lparr> d_Name = n, d_Version = v, d_Source = s, d_Indirect = i \<rparr> \<longleftrightarrow> v \<noteq> []"
  by (simp_all add: versioned_def mkDep_def)

lemma gomod_versions: "list_all versioned deps \<Longrightarrow> list_all versioned (gomod_lines b deps ls)"
proof (induction ls arbitrary: b deps)
  case (Cons line ls)
  then show ?case
    by (auto simp: Let_def versioned_mkDep split: option.splits
        intro!: Cons.IH dest: goRequireLine_version goRequireSingle_version)
qed simp

lemma pkgjson_versions: "list_all versioned deps \<Longrightarrow> list_all versioned (pkgjson_lines b deps ls)"
proof (induction ls arbitrary: b deps)
  case (Cons line ls)
  then show ?case
    by (auto simp: Let_def versioned_mkDep split: option.splits intro!: Cons.IH dest: pkgJSONDepLine_version)
qed simp

text \<open>
  A scan never fails and recognises exactly five base names, whatever their case; a go.mod
  or a package.json never gives a dependency without a version, so the check for unpinned
  dependencies can only fire on requirements.txt, Cargo.toml and pom.xml files.
\<close>

theorem ScanFile_result:
  "\<exists>r. ScanFile path content = Inr r \<and>
       (r = None \<longleftrightarrow> ToLower (Base path) \<notin> {''go.mod'', ''package.json'', ''requirements.txt'', ''cargo.toml'', ''pom.xml''}) \<and>
       (case r of None \<Rightarrow> True
        | Some m \<Rightarrow> m_File m = path \<and>
            (if ToLower (Base path) \<in> {''go.mod'', ''package.json''} then list_all versioned (m_Deps m) else True))"
  using gomod_versions[of "[]" False "scan_lines content"] pkgjson_versions[of "[]" False "scan_lines content"]
  by (auto simp: ScanFile_def Let_def parseGoMod_def parsePackageJSON_def parseCargoToml_def)

definition section_header :: "string \<Rightarrow> bool" where
  "section_header l \<longleftrightarrow> Contains (TrimSpace l) (quoted ''dependencies'') \<or>
     Contains (TrimSpace l) (quoted ''devDependencies'') \<or> Contains (TrimSpace l) (quoted ''peerDependencies'')"

definition member_dep :: "string \<Rightarrow> Dep list" where
  "member_dep l = (case FindStringSubmatch pkgJSONDepLine 2 l of
     Some m \<Rightarrow> [mkDep (m ! 1) (m ! 2) ''package.json''] | None \<Rightarrow> [])"

lemma pkgjson_open_section:
  "''}'' \<notin> TrimSpace ` set ls \<Longrightarrow>
     pkgjson_lines True deps ls = deps @ concat (map member_dep (filter (\<lambda>l. \<not> section_header l) ls))"
proof (induction ls arbitrary: deps)
  case (Cons l ls)
  then show ?case by (auto simp: Let_def section_header_def member_dep_def split: option.splits)
qed simp

lemma pkgjson_before_header:
  "list_all (\<lambda>l. \<not> section_header l) ls \<Longrightarrow> section_header h \<Longrightarrow>
     pkgjson_lines False deps (ls @ h # ls') = pkgjson_lines True deps ls'"
  by (induction ls) (auto simp: Let_def section_header_def)

text \<open>
  The dependency sections of a package.json are left only at a line that is a lone closing
  brace.  A section closed by \<^verbatim>\<open>},\<close> (every section but the last member of its object) stays
  open, and each later member of the form \<^verbatim>\<open>"key": "text"\<close> is reported as a dependency with
  that text for its version.
\<close>

theorem package_json_open_section:
  assumes "scan_lines content = before @ header # after"
    and "list_all (\<lambda>l. \<not> section_header l) before" and "section_header header"
    and "''}'' \<notin> TrimSpace ` set after"
  shows "parsePackageJSON content = Inr (concat (map member_dep (filter (\<lambda>l. \<not> section_header l) after)))"
  using pkgjson_before_header[OF assms(2,3)] pkgjson_open_section[OF assms(4)]
  by (simp add: parsePackageJSON_def assms(1))

definition ex_package_json :: string where
  "ex_package_json =
     ''{'' @ [newline] @
     ''  '' @ quoted ''dependencies'' @ '': {'' @ [newline] @
     ''    '' @ quoted ''a'' @ '': '' @ quoted ''1.0'' @ [newline] @
     ''  },'' @ [newline] @
     ''  '' @ quoted ''license'' @ '': '' @ quoted ''MIT''"

theorem package_json_open_section_witness:
  "parsePackageJSON ex_package_json =
     Inr [mkDep ''a'' ''1.0'' ''package.json'', mkDep ''license'' ''MIT'' ''package.json'']"
proof -
  have "parsePackageJSON ex_package_json =
      Inr (concat (map member_dep (filter (\<lambda>l. \<not> section_header l) (drop 2 (scan_lines ex_package_json)))))"
    by (rule package_json_open_section[where before = "take 1 (scan_lines ex_package_json)"
          and header = "scan_lines ex_package_json ! 1"]) code_simp+
  also have "\<dots> = Inr [mkDep ''a'' ''1.0'' ''package.json'', mkDep ''license'' ''MIT'' ''package.json'']"
    by code_simp
  finally show ?thesis .
qed

definition requirement :: "string \<Rightarrow> bool" where
  "requirement l \<longleftrightarrow> (let t = TrimSpace l in t \<noteq> [] \<and> \<not> HasPrefix t ''#'' \<and> \<not> HasPrefix t ''-'')"

lemma req_line_length: "length (req_line l) = (if requirement l then 1 else 0)"
  using Fields_TrimSpace[of l]
  by (auto simp: req_line_def requirement_def Let_def split: option.splits list.splits)

text \<open>
  A requirements.txt gives one dependency for each of its lines that is not blank, a comment
  or an option, in order, and none for the others.
\<close>

theorem requirements_one_per_line:
  "length (parseRequirementsTxt content) = length (filter requirement (scan_lines content))"
proof -
  have "length (concat (map req_line ls)) = length (filter requirement ls)" for ls
    by (induction ls) (auto simp: req_line_length)
  then show ?thesis by (simp add: parseRequirementsTxt_def)
qed

end
