(* ===== verification/Signing.thy ===== *)
theory Signing
  imports Prelude
begin

text \<open>
  \<^verbatim>\<open>pkg/signing\<close>: HMAC-SHA256 signatures in hexadecimal, used by the audit store and for GitHub
  webhooks.  The hash of \<^verbatim>\<open>crypto/sha256\<close>, the construction of \<^verbatim>\<open>crypto/hmac\<close>, the encoding of
  \<^verbatim>\<open>encoding/hex\<close> and the constant-time comparison behind \<^verbatim>\<open>hmac.Equal\<close> are written out on
  32-bit words and byte strings.
\<close>

unbundle bit_operations_syntax

section \<open>SHA-256\<close>

type_synonym word32 = "32 word"

definition round_constants :: "word32 list" where
  "round_constants =
    [1116352408, 1899447441, 3049323471, 3921009573, 961987163, 1508970993, 2453635748, 2870763221,
     3624381080, 310598401, 607225278, 1426881987, 1925078388, 2162078206, 2614888103, 3248222580,
     3835390401, 4022224774, 264347078, 604807628, 770255983, 1249150122, 1555081692, 1996064986,
     2554220882, 2821834349, 2952996808, 3210313671, 3336571891, 3584528711, 113926993, 338241895,
     666307205, 773529912, 1294757372, 1396182291, 1695183700, 1986661051, 2177026350, 2456956037,
     2730485921, 2820302411, 3259730800, 3345764771, 3516065817, 3600352804, 4094571909, 275423344,
     430227734, 506948616, 659060556, 883997877, 958139571, 1322822218, 1537002063, 1747873779,
     1955562222, 2024104815, 2227730452, 2361852424, 2428436474, 2756734187, 3204031479, 3329325298]"

definition initial_hash :: "word32 list" where
  "initial_hash =
    [1779033703, 3144134277, 1013904242, 2773480762, 1359893119, 2600822924, 528734635, 1541459225]"

definition rotr :: "nat \<Rightarrow> word32 \<Rightarrow> word32" where
  "rotr n w = drop_bit n w OR push_bit (32 - n) w"

definition word_of_bytes :: "string \<Rightarrow> word32" where
  "word_of_bytes bs = fold (\<lambda>b w. push_bit 8 w OR of_char b) bs 0"

text \<open>The four bytes of a word, most significant first.\<close>

definition bytes_of_word :: "word32 \<Rightarrow> string" where
  "bytes_of_word w = map (\<lambda>n. char_of (uint (drop_bit n w AND 0xFF))) [24, 16, 8, 0]"

fun chunks :: "nat \<Rightarrow> nat \<Rightarrow> string \<Rightarrow> string list" where
  "chunks sz 0 s = []"
| "chunks sz (Suc n) s = take sz s # chunks sz n (drop sz s)"

text \<open>The message, a one bit, zeros, and the length in bits as eight bytes (modulo 2^64).\<close>

definition pad_message :: "string \<Rightarrow> string" where
  "pad_message msg =
     (let n = int (length msg)
      in msg @ [CHR 0x80] @ replicate (nat ((55 - n) mod 64)) (CHR 0x00)
         @ map (\<lambda>k. char_of (drop_bit k (n * 8) mod 256)) [56, 48, 40, 32, 24, 16, 8, 0])"

fun schedule :: "nat \<Rightarrow> word32 list \<Rightarrow> word32 list" where
  "schedule 0 ws = ws"
| "schedule (Suc n) ws =
     (let t = length ws; a = ws ! (t - 15); b = ws ! (t - 2);
          s0 = rotr 7 a XOR rotr 18 a XOR drop_bit 3 a;
          s1 = rotr 17 b XOR rotr 19 b XOR drop_bit 10 b
      in schedule n (ws @ [ws ! (t - 16) + s0 + ws ! (t - 7) + s1]))"

type_synonym sha_vars = "word32 \<times> word32 \<times> word32 \<times> word32 \<times> word32 \<times> word32 \<times> word32 \<times> word32"

definition sha_round :: "word32 \<times> word32 \<Rightarrow> sha_vars \<Rightarrow> sha_vars" where
  "sha_round kw v =
     (case (kw, v) of ((k, w), (a, b, c, d, e, f, g, h)) \<Rightarrow>
        let s1 = rotr 6 e XOR rotr 11 e XOR rotr 25 e;
            ch = (e AND f) XOR (NOT e AND g);
            t1 = h + s1 + ch + k + w;
            s0 = rotr 2 a XOR rotr 13 a XOR rotr 22 a;
            maj = (a AND b) XOR (a AND c) XOR (b AND c)
        in (t1 + (s0 + maj), a, b, c, d + t1, e, f, g))"

definition compress :: "string \<Rightarrow> word32 list \<Rightarrow> word32 list" where
  "compress block hs =
     (let ws = schedule 48 (map word_of_bytes (chunks 4 16 block));
          (a, b, c, d, e, f, g, h) =
            fold sha_round (zip round_constants ws)
              (hs ! 0, hs ! 1, hs ! 2, hs ! 3, hs ! 4, hs ! 5, hs ! 6, hs ! 7)
      in map2 (+) hs [a, b, c, d, e, f, g, h])"

definition sha256 :: "string \<Rightarrow> string" where
  "sha256 msg =
     (let m = pad_message msg
      in concat (map bytes_of_word (fold compress (chunks 64 (length m div 64) m) initial_hash)))"

section \<open>HMAC\<close>

definition BlockSize :: nat where "BlockSize = 64"

definition hmac_key :: "string \<Rightarrow> string" where
  "hmac_key secret =
     (let k = (if length secret > BlockSize then sha256 secret else secret)
      in k @ replicate (BlockSize - length k) (CHR 0x00))"

definition xor_byte :: "int \<Rightarrow> char \<Rightarrow> char" where
  "xor_byte n c = char_of (of_char c XOR n)"

definition hmac_sha256 :: "string \<Rightarrow> string \<Rightarrow> string" where
  "hmac_sha256 secret msg =
     (let k = hmac_key secret
      in sha256 (map (xor_byte 0x5C) k @ sha256 (map (xor_byte 0x36) k @ msg)))"

section \<open>Hexadecimal and comparison\<close>

definition hextable :: string where "hextable = ''0123456789abcdef''"

definition EncodeToString :: "string \<Rightarrow> string" where
  "EncodeToString bs =
     concat (map (\<lambda>b. [hextable ! (of_char b div 16), hextable ! (of_char b mod 16)]) bs)"

text \<open>
  \<^verbatim>\<open>subtle.ConstantTimeCompare\<close>: the exclusive ors of all byte pairs are collected in one byte,
  without an early exit.
\<close>

definition ConstantTimeCompare :: "string \<Rightarrow> string \<Rightarrow> int" where
  "ConstantTimeCompare x y =
     (if length x \<noteq> length y then 0
      else if fold (\<lambda>(a, b) v. v OR (of_char a XOR of_char b)) (zip x y) (0 :: int) = 0 then 1 else 0)"

definition hmac_Equal :: "string \<Rightarrow> string \<Rightarrow> bool" where
  "hmac_Equal x y \<longleftrightarrow> ConstantTimeCompare x y = 1"

section \<open>The package\<close>

definition Sign :: "string \<Rightarrow> string \<Rightarrow> string" where
  "Sign secret data = EncodeToString (hmac_sha256 secret data)"

definition Verify :: "string \<Rightarrow> string \<Rightarrow> string \<Rightarrow> bool" where
  "Verify secret data sig = (let expected = Sign secret data in hmac_Equal expected sig)"

definition SignGitHub :: "string \<Rightarrow> string \<Rightarrow> string" where
  "SignGitHub secret body = ''sha256='' @ EncodeToString (hmac_sha256 secret body)"

definition VerifyGitHub :: "string \<Rightarrow> string \<Rightarrow> string \<Rightarrow> bool" where
  "VerifyGitHub secret body header = (let expected = SignGitHub secret body in hmac_Equal expected header)"

section \<open>Lengths\<close>

lemma length_bytes_of_word [simp]: "length (bytes_of_word w) = 4"
  by (simp add: bytes_of_word_def)

lemma length_fold_compress: "length hs = 8 \<Longrightarrow> length (fold compress bs hs) = 8"
  by (induction bs arbitrary: hs) (auto simp: compress_def Let_def split: prod.splits)

lemma length_sha256 [simp]: "length (sha256 m) = 32"
proof -
  have "length (fold compress bs initial_hash) = 8" for bs
    by (rule length_fold_compress) (simp add: initial_hash_def)
  then show ?thesis by (simp add: sha256_def Let_def length_concat o_def sum_list_triv)
qed

lemma length_hmac [simp]: "length (hmac_sha256 secret msg) = 32"
  by (simp add: hmac_sha256_def Let_def)

text \<open>The padded message is cut into whole blocks.\<close>

lemma pad_message_blocks: "64 dvd length (pad_message m)"
proof -
  let ?n = "int (length m)"
  have "(55 - ?n) mod 64 = 55 - ?n - 64 * ((55 - ?n) div 64)" by (simp add: minus_mult_div_eq_mod)
  moreover have "0 \<le> (55 - ?n) mod 64" by simp
  ultimately have "int (length (pad_message m)) = 64 * (1 - (55 - ?n) div 64)"
    by (simp add: pad_message_def Let_def nat_0_le del: nat_eq_iff int_nat_eq)
  then have "64 dvd int (length (pad_message m))" by (metis dvd_triv_left)
  then show ?thesis by (metis int_dvd_int_iff of_nat_numeral)
qed

section \<open>Hexadecimal round trip\<close>

definition nibble :: "char \<Rightarrow> nat option" where
  "nibble c = (case filter (\<lambda>i. hextable ! i = c) [0..<16] of [] \<Rightarrow> None | i # _ \<Rightarrow> Some i)"

fun DecodeString :: "string \<Rightarrow> string option" where
  "DecodeString [] = Some []"
| "DecodeString [c] = None"
| "DecodeString (c # d # s) =
     (case (nibble c, nibble d, DecodeString s) of
        (Some h, Some l, Some bs) \<Rightarrow> Some (char_of (16 * h + l) # bs)
      | _ \<Rightarrow> None)"

lemma nibble_hextable: "i < 16 \<Longrightarrow> nibble (hextable ! i) = Some i"
proof -
  assume "i < 16"
  then have "i \<in> set [0..<16]" by simp
  moreover have "list_all (\<lambda>i. nibble (hextable ! i) = Some i) [0..<16]" by code_simp
  ultimately show ?thesis by (simp add: list_all_iff del: set_upt)
qed

lemma of_char_div16: "of_char c div 16 < (16 :: nat)"
proof -
  have "of_char c < (256 :: nat)" by (metis of_char_mod_256 mod_less_divisor zero_less_numeral)
  then have "of_char c < 16 * (16 :: nat)" by simp
  then show ?thesis by (rule less_mult_imp_div_less)
qed

lemma EncodeToString_simps [simp]:
  "EncodeToString [] = []"
  "EncodeToString (b # bs) = hextable ! (of_char b div 16) # hextable ! (of_char b mod 16) # EncodeToString bs"
  by (simp_all add: EncodeToString_def)

lemma DecodeString_Encode: "DecodeString (EncodeToString bs) = Some bs"
proof (induction bs)
  case (Cons b bs)
  have h: "nibble (hextable ! (of_char b div 16)) = Some (of_char b div 16)"
    by (rule nibble_hextable) (rule of_char_div16)
  have l: "nibble (hextable ! (of_char b mod 16)) = Some (of_char b mod 16)"
    by (rule nibble_hextable) simp
  have "DecodeString (EncodeToString (b # bs)) = Some (char_of (16 * (of_char b div 16) + of_char b mod 16 :: nat) # bs)"
    unfolding EncodeToString_simps DecodeString.simps Cons.IH h l prod.case option.case ..
  also have "16 * (of_char b div 16) + of_char b mod 16 = (of_char b :: nat)" by (rule mult_div_mod_eq)
  finally show ?case by (simp only: char_of_char)
qed simp

lemma EncodeToString_inj: "EncodeToString a = EncodeToString b \<Longrightarrow> a = b"
  by (metis DecodeString_Encode option.inject)

lemma length_EncodeToString [simp]: "length (EncodeToString bs) = 2 * length bs"
  by (induction bs) simp_all

lemma EncodeToString_alphabet: "set (EncodeToString bs) \<subseteq> set hextable"
proof -
  have "hextable ! i \<in> set hextable" if "i < 16" for i
    using that by (intro nth_mem) (simp add: hextable_def)
  then show ?thesis using of_char_div16 by (induction bs) auto
qed

section \<open>Constant-time comparison\<close>

lemma xor_zero_iff: "a XOR b = (0 :: int) \<longleftrightarrow> a = b"
proof
  assume "a XOR b = 0"
  then have "(a XOR b) XOR b = 0 XOR b" by simp
  then show "a = b" by (simp add: xor.assoc)
qed simp

lemma fold_or_zero_iff:
  "fold (\<lambda>(a, b) v. v OR (of_char a XOR of_char b)) ps (v :: int) = 0 \<longleftrightarrow>
     v = 0 \<and> list_all (\<lambda>(a, b). a = b) ps"
proof (induction ps arbitrary: v)
  case (Cons p ps)
  obtain a b where p: "p = (a, b)" by (cases p)
  have "fold (\<lambda>(a, b) v. v OR (of_char a XOR of_char b)) (p # ps) v = 0 \<longleftrightarrow>
      v OR (of_char a XOR of_char b) = 0 \<and> list_all (\<lambda>(a, b). a = b) ps"
    by (simp only: p fold_simps prod.case Cons.IH)
  also have "\<dots> \<longleftrightarrow> v = 0 \<and> list_all (\<lambda>(a, b). a = b) (p # ps)"
    by (simp only: or_eq_0_iff xor_zero_iff of_char_eq_iff p list.pred_inject prod.case conj_assoc)
  finally show ?case .
qed simp

lemma hmac_Equal_iff: "hmac_Equal x y \<longleftrightarrow> x = y"
proof (cases "length x = length y")
  case True
  then have "list_all (\<lambda>(a, b). a = b) (zip x y) \<longleftrightarrow> x = y"
    by (induction x y rule: list_induct2) auto
  with True show ?thesis by (simp add: hmac_Equal_def ConstantTimeCompare_def fold_or_zero_iff)
qed (auto simp: hmac_Equal_def ConstantTimeCompare_def)

section \<open>Properties\<close>

lemma Sign_GitHub: "SignGitHub secret body = ''sha256='' @ Sign secret body"
  by (simp add: SignGitHub_def Sign_def)

text \<open>
  A signature is accepted exactly when it is the signature of the data under the secret,
  byte for byte (so a signature in upper case or with surrounding space is refused); a GitHub
  header is accepted exactly when it is that signature behind \<^verbatim>\<open>sha256=\<close>.
\<close>

theorem Verify_iff:
  "(Verify secret data sig \<longleftrightarrow> sig = Sign secret data)
   \<and> (VerifyGitHub secret data header \<longleftrightarrow> header = ''sha256='' @ Sign secret data)
   \<and> Verify secret data (Sign secret data)"
  by (auto simp: Verify_def VerifyGitHub_def hmac_Equal_iff Sign_GitHub)

text \<open>
  The shape of signatures.  Every signature has 64 lower-case hexadecimal digits, so the
  empty signature is never accepted, and two signatures are equal exactly when the underlying
  authentication codes are.
\<close>

theorem Sign_shape:
  "length (Sign secret data) = 64 \<and> set (Sign secret data) \<subseteq> set ''0123456789abcdef''
   \<and> \<not> Verify secret data []
   \<and> (Sign s1 d1 = Sign s2 d2 \<longleftrightarrow> hmac_sha256 s1 d1 = hmac_sha256 s2 d2)"
proof -
  have "Sign secret data \<noteq> []" using length_hmac[of secret data] by (auto simp: Sign_def simp flip: length_greater_0_conv)
  then show ?thesis
    using EncodeToString_alphabet[of "hmac_sha256 secret data"] EncodeToString_inj
    by (auto simp: Sign_def Verify_def hmac_Equal_iff hextable_def)
qed

text \<open>
  Secrets that sign alike.  A secret of at most 63 bytes and the same secret with a zero
  byte appended give the same signatures for all data, and a secret of more than 64 bytes
  signs like its 32-byte hash: the check cannot tell such secrets apart.
\<close>

theorem Sign_equivalent_secrets:
  assumes "length s < 64" and "64 < length t"
  shows "Sign (s @ [CHR 0x00]) d = Sign s d \<and> Sign t d = Sign (sha256 t) d"
proof
  obtain n where "64 - length s = Suc n" using assms(1) by (metis zero_less_diff Suc_pred)
  then have "hmac_key (s @ [CHR 0x00]) = hmac_key s"
    using assms(1) by (simp add: hmac_key_def BlockSize_def Let_def)
  then show "Sign (s @ [CHR 0x00]) d = Sign s d" by (simp add: Sign_def hmac_sha256_def)
next
  have "hmac_key t = hmac_key (sha256 t)" using assms(2) by (simp add: hmac_key_def BlockSize_def Let_def)
  then show "Sign t d = Sign (sha256 t) d" by (simp add: Sign_def hmac_sha256_def)
qed

theorem Sign_equivalent_secrets_witness:
  "\<forall>d. Sign (''secret'' @ [CHR 0x00]) d = Sign ''secret'' d
     \<and> Sign (replicate 65 (CHR ''k'')) d = Sign (sha256 (replicate 65 (CHR ''k''))) d"
  by (rule allI, rule Sign_equivalent_secrets) simp_all

end
