(* ===== verification/Cache.thy ===== *)
theory Cache
  imports Prelude
begin

text \<open>
  \<^verbatim>\<open>pkg/cache\<close>: the generic cache whose entries expire.  Every operation holds the lock for its
  access to the map, so a run is a sequence of operations; the reading of the clock that an
  operation makes is an argument.  Times and durations are nanoseconds.  A locale states what
  a client relies on, and the cache of the source is an instance of it.
\<close>

section \<open>The cache\<close>

record 'v entry =
  e_value :: 'v
  expiresAt :: int

record ('k, 'v) TTL =
  c_items :: "'k \<rightharpoonup> 'v entry"
  c_ttl :: int

definition Second :: int where "Second = 1000000000"

text \<open>\<^verbatim>\<open>New\<close> returns the empty cache and the period with which its goroutine evicts.\<close>

definition evict_interval :: "int \<Rightarrow> int" where
  "evict_interval d = (let interval = go_div d 2 in if interval < 30 * Second then 30 * Second else interval)"

definition New :: "int \<Rightarrow> ('k, 'v) TTL \<times> int" where
  "New d = (\<lparr> c_items = Map.empty, c_ttl = d \<rparr>, evict_interval d)"

definition Set :: "int \<Rightarrow> 'k \<Rightarrow> 'v \<Rightarrow> ('k, 'v) TTL \<Rightarrow> ('k, 'v) TTL" where
  "Set now k v c = c\<lparr> c_items := (c_items c)(k \<mapsto> \<lparr> e_value = v, expiresAt = now + c_ttl c \<rparr>) \<rparr>"

definition Get :: "int \<Rightarrow> 'k \<Rightarrow> ('k, 'v) TTL \<Rightarrow> 'v option" where
  "Get now k c =
     (case c_items c k of
        None \<Rightarrow> None
      | Some e \<Rightarrow> if now > expiresAt e then None else Some (e_value e))"

definition Delete :: "'k \<Rightarrow> ('k, 'v) TTL \<Rightarrow> ('k, 'v) TTL" where
  "Delete k c = c\<lparr> c_items := (c_items c)(k := None) \<rparr>"

definition Len :: "('k, 'v) TTL \<Rightarrow> nat" where
  "Len c = card (dom (c_items c))"

text \<open>One round of the eviction loop; the visit of a key deletes it when it has expired.\<close>

definition evict :: "int \<Rightarrow> ('k, 'v) TTL \<Rightarrow> ('k, 'v) TTL" where
  "evict now c =
     c\<lparr> c_items := (\<lambda>k. case c_items c k of
                        None \<Rightarrow> None
                      | Some e \<Rightarrow> if now > expiresAt e then None else Some e) \<rparr>"

section \<open>What a client relies on\<close>

datatype ('k, 'v) cache_op =
    CSet int 'k 'v
  | CDelete int 'k
  | CEvict int

fun op_time :: "('k, 'v) cache_op \<Rightarrow> int" where
  "op_time (CSet t k v) = t"
| "op_time (CDelete t k) = t"
| "op_time (CEvict t) = t"

text \<open>
  What the history of operations, latest first, says about a key at a time: the latest
  operation on the key decides, and evictions play no part.
\<close>

fun remembered :: "int \<Rightarrow> int \<Rightarrow> 'k \<Rightarrow> ('k, 'v) cache_op list \<Rightarrow> 'v option" where
  "remembered d now k [] = None"
| "remembered d now k (CSet t k' v # ops) =
     (if k' = k then (if now \<le> t + d then Some v else None) else remembered d now k ops)"
| "remembered d now k (CDelete t k' # ops) = (if k' = k then None else remembered d now k ops)"
| "remembered d now k (CEvict t # ops) = remembered d now k ops"

locale expiring_map =
  fixes fresh :: 'c
    and store :: "int \<Rightarrow> 'k \<Rightarrow> 'v \<Rightarrow> 'c \<Rightarrow> 'c"
    and find :: "int \<Rightarrow> 'k \<Rightarrow> 'c \<Rightarrow> 'v option"
    and remove :: "'k \<Rightarrow> 'c \<Rightarrow> 'c"
    and purge :: "int \<Rightarrow> 'c \<Rightarrow> 'c"
    and life :: "'c \<Rightarrow> int"
    and d :: int
  assumes find_fresh: "find now k fresh = None"
    and life_fresh: "life fresh = d"
    and find_store: "find now k (store t k' v c) =
          (if k = k' then (if now \<le> t + life c then Some v else None) else find now k c)"
    and find_remove: "find now k (remove k' c) = (if k = k' then None else find now k c)"
    and find_purge: "t \<le> now \<Longrightarrow> find now k (purge t c) = find now k c"
    and life_store: "life (store t k' v c) = life c"
    and life_remove: "life (remove k' c) = life c"
    and life_purge: "life (purge t c) = life c"
begin

fun apply_op :: "('k, 'v) cache_op \<Rightarrow> 'c \<Rightarrow> 'c" where
  "apply_op (CSet t k v) c = store t k v c"
| "apply_op (CDelete t k) c = remove k c"
| "apply_op (CEvict t) c = purge t c"

text \<open>The state after a history given latest first.\<close>

definition after :: "('k, 'v) cache_op list \<Rightarrow> 'c" where
  "after ops = foldr apply_op ops fresh"

lemma after_simps: "after [] = fresh" "after (a # ops) = apply_op a (after ops)"
  by (simp_all add: after_def)

lemma life_after: "life (after ops) = d"
proof (induction ops)
  case (Cons a ops)
  then show ?case by (cases a) (simp_all add: after_simps life_store life_remove life_purge)
qed (simp add: after_simps life_fresh)

lemma find_after:
  "list_all (\<lambda>a. op_time a \<le> now) ops \<Longrightarrow> find now k (after ops) = remembered d now k ops"
proof (induction ops)
  case (Cons a ops)
  then show ?case
    by (cases a) (simp_all add: after_simps find_store find_remove find_purge life_after)
qed (simp add: after_simps find_fresh)

end

section \<open>The cache is one\<close>

lemma Get_evict: "t \<le> now \<Longrightarrow> Get now k (evict t c) = Get now k c"
  by (auto simp: Get_def evict_def split: option.splits)

interpretation ttl_cache: expiring_map "fst (New d)" Set Get Delete evict c_ttl d
  by unfold_locales (auto simp: New_def Set_def Get_def Delete_def evict_def split: option.splits)

definition run_op :: "('k, 'v) cache_op \<Rightarrow> ('k, 'v) TTL \<Rightarrow> ('k, 'v) TTL" where
  "run_op a c = (case a of CSet t k v \<Rightarrow> Set t k v c | CDelete t k \<Rightarrow> Delete k c | CEvict t \<Rightarrow> evict t c)"

lemma run_op_after: "foldr run_op ops (fst (New d)) = ttl_cache.after d ops"
proof (induction ops)
  case (Cons a ops)
  then show ?case by (cases a) (simp_all add: run_op_def ttl_cache.after_simps)
qed (simp add: ttl_cache.after_simps)

text \<open>
  C5: the cache implements its history.  After any sequence of \<^verbatim>\<open>Set\<close>, \<^verbatim>\<open>Delete\<close> and evictions,
  all before \<open>now\<close>, \<^verbatim>\<open>Get\<close> at \<open>now\<close> returns the value of the latest \<^verbatim>\<open>Set\<close> of the key, unless it
  is older than the lifetime or the key was deleted since; when evictions run is
  unobservable.
\<close>

theorem Get_history:
  assumes "list_all (\<lambda>a. op_time a \<le> now) ops"
  shows "Get now k (foldr run_op ops (fst (New d))) = remembered d now k ops"
  using ttl_cache.find_after[OF assms] by (simp add: run_op_after)

theorem Get_history_witness:
  "Get 25 ''k'' (foldr run_op [CEvict 24, CSet 20 ''k'' True, CDelete 15 ''k'', CSet 10 ''k'' False] (fst (New 5)))
     = Some True"
  by (subst Get_history) simp_all

lemma dom_evict: "dom (c_items (evict now c)) = {k. Get now k c \<noteq> None}"
  by (auto simp: evict_def Get_def split: option.splits if_splits)

text \<open>
  Eviction is exact and bounded.  An eviction removes precisely the entries that have
  expired, so that afterwards the number of entries is the number of keys a \<^verbatim>\<open>Get\<close> at the same
  time would find; it never adds an entry; and the period between two evictions is at least
  30 seconds and at least half the lifetime, up to rounding.
\<close>

theorem evict_exact:
  "Len (evict now c) = card {k. Get now k c \<noteq> None}
   \<and> c_items (evict now c) \<subseteq>\<^sub>m c_items c
   \<and> evict now (evict now c) = evict now c
   \<and> evict_interval d = max (30 * Second) (go_div d 2)"
proof -
  have "c_items (evict now c) \<subseteq>\<^sub>m c_items c"
    by (auto simp: map_le_def evict_def split: option.splits if_splits)
  moreover have "evict now (evict now c) = evict now c"
    by (auto simp: evict_def fun_eq_iff split: option.splits)
  ultimately show ?thesis
    by (simp add: Len_def dom_evict evict_interval_def Let_def max_def)
qed

end
