(* ===== verification/Retry.thy ===== *)
theory Retry
  imports Prelude
begin

text \<open>
  \<^verbatim>\<open>pkg/retry\<close>: calling an operation until it succeeds, with exponential backoff.  The operation
  is a state transformer.  What the environment decides is an argument: \<open>rnd i\<close> is the value of
  \<^verbatim>\<open>rand.Float64()\<close> before the i-th sleep, and \<open>ctx i\<close> is the error of the context when the
  select after the i-th failure sees it done, \<open>None\<close> when the timer fires.  Durations are
  nanoseconds; the float arithmetic on them is exact here.  \<^verbatim>\<open>Permanent\<close> wraps an error, as its only
  caller does; the wrapping of a nil error is not represented.
\<close>

section \<open>Configuration\<close>

record Config =
  MaxAttempts :: int
  BaseDelay :: int
  MaxDelay :: int
  Multiplier :: real
  Jitter :: real

definition Millisecond :: int where "Millisecond = 1000000"

definition Default :: Config where
  "Default = \<lparr> MaxAttempts = 4, BaseDelay = 500 * Millisecond, MaxDelay = 16000 * Millisecond,
               Multiplier = 2, Jitter = 0.2 \<rparr>"

section \<open>Permanent errors\<close>

text \<open>\<^verbatim>\<open>errors.As\<close> with a \<^verbatim>\<open>*permanentError\<close> target: the first such error in the chain of wrapped errors.\<close>

fun as_permanent :: "go_error \<Rightarrow> go_error option" where
  "as_permanent (Permanent e) = Some e"
| "as_permanent (Wrapped m e) = as_permanent e"
| "as_permanent (WrappedPath m p e) = as_permanent e"
| "as_permanent e = None"

definition permanent_cause :: "go_error option \<Rightarrow> go_error option" where
  "permanent_cause err = (case err of None \<Rightarrow> None | Some e \<Rightarrow> as_permanent e)"

section \<open>The loop\<close>

definition addJitter :: "real \<Rightarrow> int \<Rightarrow> real \<Rightarrow> int" where
  "addJitter r d jitter =
     (if jitter \<le> 0 then d
      else let delta = real_of_int d * jitter in d + go_int ((r * 2 - 1) * delta))"

definition next_delay :: "Config \<Rightarrow> int \<Rightarrow> int" where
  "next_delay cfg delay =
     (let d = go_int (real_of_int delay * Multiplier cfg)
      in if d > MaxDelay cfg then MaxDelay cfg else d)"

text \<open>The outcome of a run: the error, the state of the operation, the number of calls, the sleeps.\<close>

record 's outcome =
  o_err :: "go_error option"
  o_state :: 's
  o_calls :: nat
  o_sleeps :: "int list"

type_synonym 's operation = "'s \<Rightarrow> (bool \<times> go_error option) \<times> 's"

definition exhausted :: "go_error option \<Rightarrow> go_error option" where
  "exhausted lastErr = (case lastErr of Some e \<Rightarrow> Some e | None \<Rightarrow> Some ErrMaxAttempts)"

definition one_more :: "int list \<Rightarrow> 's outcome \<Rightarrow> 's outcome" where
  "one_more slept r = r\<lparr> o_calls := Suc (o_calls r), o_sleeps := slept @ o_sleeps r \<rparr>"

text \<open>The iterations from \<open>attempt\<close> on, \<open>n\<close> of them left.\<close>

fun do_loop ::
  "Config \<Rightarrow> (nat \<Rightarrow> real) \<Rightarrow> (nat \<Rightarrow> go_error option) \<Rightarrow> 's operation \<Rightarrow>
   nat \<Rightarrow> nat \<Rightarrow> int \<Rightarrow> go_error option \<Rightarrow> 's \<Rightarrow> 's outcome" where
  "do_loop cfg rnd ctx fn 0 attempt delay lastErr s =
     \<lparr> o_err = exhausted lastErr, o_state = s, o_calls = 0, o_sleeps = [] \<rparr>"
| "do_loop cfg rnd ctx fn (Suc n) attempt delay lastErr s =
     (case fn s of ((ok, err), s') \<Rightarrow>
        if ok then \<lparr> o_err = None, o_state = s', o_calls = 1, o_sleeps = [] \<rparr>
        else (case permanent_cause err of
                Some e \<Rightarrow> \<lparr> o_err = Some e, o_state = s', o_calls = 1, o_sleeps = [] \<rparr>
              | None \<Rightarrow>
                  if int attempt = MaxAttempts cfg - 1
                  then \<lparr> o_err = exhausted err, o_state = s', o_calls = 1, o_sleeps = [] \<rparr>
                  else (case ctx attempt of
                          Some e \<Rightarrow> \<lparr> o_err = Some e, o_state = s', o_calls = 1, o_sleeps = [] \<rparr>
                        | None \<Rightarrow>
                            one_more [addJitter (rnd attempt) delay (Jitter cfg)]
                              (do_loop cfg rnd ctx fn n (Suc attempt) (next_delay cfg delay) err s'))))"

definition Do ::
  "(nat \<Rightarrow> real) \<Rightarrow> (nat \<Rightarrow> go_error option) \<Rightarrow> Config \<Rightarrow> 's operation \<Rightarrow> 's \<Rightarrow> 's outcome" where
  "Do rnd ctx cfg fn s = do_loop cfg rnd ctx fn (nat (MaxAttempts cfg)) 0 (BaseDelay cfg) None s"

section \<open>HTTP\<close>

record http_response =
  resp_StatusCode :: int
  resp_Status :: string
  resp_Body :: string
  resp_closed :: bool

definition retryable :: "int \<Rightarrow> bool" where
  "retryable code \<longleftrightarrow> code \<in> {429, 502, 503, 504}"

text \<open>
  An HTTP call gives an error (with or without a response) or, by the contract of
  \<^verbatim>\<open>net/http\<close>, a response.
\<close>

type_synonym 's http_call = "'s \<Rightarrow> (http_response option \<times> go_error + http_response) \<times> 's"

text \<open>The closure that \<^verbatim>\<open>DoHTTP\<close> retries; the captured variable \<^verbatim>\<open>resp\<close> is part of its state.\<close>

definition http_op :: "'s http_call \<Rightarrow> ('s \<times> http_response option) operation" where
  "http_op fn st =
     (case fn (fst st) of
        (Inl (resp, err), s') \<Rightarrow> ((False, Some err), (s', resp))
      | (Inr resp, s') \<Rightarrow>
          if retryable (resp_StatusCode resp)
          then ((False, Some (ErrorString (resp_Status resp))), (s', Some (resp\<lparr> resp_closed := True \<rparr>)))
          else ((True, None), (s', Some resp)))"

definition DoHTTP ::
  "(nat \<Rightarrow> real) \<Rightarrow> (nat \<Rightarrow> go_error option) \<Rightarrow> Config \<Rightarrow> 's http_call \<Rightarrow> 's \<Rightarrow>
   (http_response option \<times> go_error option) \<times> 's" where
  "DoHTTP rnd ctx cfg fn s =
     (let r = Do rnd ctx cfg (http_op fn) (s, None)
      in ((snd (o_state r), o_err r), fst (o_state r)))"

section \<open>What a run does\<close>

definition state_after :: "'s operation \<Rightarrow> nat \<Rightarrow> 's \<Rightarrow> 's" where
  "state_after fn k s = ((\<lambda>s. snd (fn s)) ^^ k) s"

text \<open>The answer of the i-th call.\<close>

definition answer :: "'s operation \<Rightarrow> nat \<Rightarrow> 's \<Rightarrow> bool \<times> go_error option" where
  "answer fn i s = fst (fn (state_after fn i s))"

definition retries :: "bool \<times> go_error option \<Rightarrow> bool" where
  "retries r \<longleftrightarrow> \<not> fst r \<and> permanent_cause (snd r) = None"

text \<open>The i-th backoff delay before jitter.\<close>

definition delay_at :: "Config \<Rightarrow> int \<Rightarrow> nat \<Rightarrow> int" where
  "delay_at cfg d i = (next_delay cfg ^^ i) d"

definition final_error :: "nat \<Rightarrow> nat \<Rightarrow> bool \<times> go_error option \<Rightarrow> go_error option \<Rightarrow> go_error option" where
  "final_error k n r done =
     (if fst r then None
      else case permanent_cause (snd r) of
             Some e \<Rightarrow> Some e
           | None \<Rightarrow> if k = n then exhausted (snd r) else done)"

lemma state_after_simps [simp]:
  "state_after fn 0 s = s" "state_after fn (Suc k) s = state_after fn k (snd (fn s))"
  by (simp_all add: state_after_def funpow_Suc_right del: funpow.simps(2))

lemma answer_simps [simp]:
  "answer fn 0 s = fst (fn s)" "answer fn (Suc i) s = answer fn i (snd (fn s))"
  by (simp_all add: answer_def)

lemma delay_at_simps [simp]:
  "delay_at cfg d 0 = d" "delay_at cfg d (Suc i) = delay_at cfg (next_delay cfg d) i"
  by (simp_all add: delay_at_def funpow_Suc_right del: funpow.simps(2))

lemma upt_from_zero: "[0..<Suc k] = 0 # map Suc [0..<k]"
  by (simp add: upt_conv_Cons map_Suc_upt del: upt_Suc)

definition run_spec ::
  "Config \<Rightarrow> (nat \<Rightarrow> real) \<Rightarrow> (nat \<Rightarrow> go_error option) \<Rightarrow> 's operation \<Rightarrow> nat \<Rightarrow> nat \<Rightarrow> int \<Rightarrow> 's \<Rightarrow>
   's outcome \<Rightarrow> bool" where
  "run_spec cfg rnd ctx fn n attempt delay s r \<longleftrightarrow>
     (\<exists>k. o_calls r = Suc k \<and> k < n \<and> o_state r = state_after fn (Suc k) s
        \<and> list_all (\<lambda>i. retries (answer fn i s)) [0..<k]
        \<and> o_err r = final_error (Suc k) n (answer fn k s) (ctx (attempt + k))
        \<and> (o_err r = None \<longleftrightarrow> fst (answer fn k s))
        \<and> o_sleeps r = map (\<lambda>i. addJitter (rnd (attempt + i)) (delay_at cfg delay i) (Jitter cfg)) [0..<k])"

lemma run_spec_last:
  assumes "o_calls r = 1" "0 < n" "o_state r = snd (fn s)" "o_sleeps r = []"
    "o_err r = final_error 1 n (fst (fn s)) (ctx attempt)" "o_err r = None \<longleftrightarrow> fst (fst (fn s))"
  shows "run_spec cfg rnd ctx fn n attempt delay s r"
  using assms unfolding run_spec_def by (intro exI[of _ 0]) simp

lemma run_spec_more:
  assumes "run_spec cfg rnd ctx fn n (Suc attempt) (next_delay cfg delay) (snd (fn s)) r"
    and "retries (fst (fn s))"
  shows "run_spec cfg rnd ctx fn (Suc n) attempt delay s
           (one_more [addJitter (rnd attempt) delay (Jitter cfg)] r)"
proof -
  from assms(1) obtain k where k: "o_calls r = Suc k" "k < n" "o_state r = state_after fn (Suc k) (snd (fn s))"
    "list_all (\<lambda>i. retries (answer fn i (snd (fn s)))) [0..<k]"
    "o_err r = final_error (Suc k) n (answer fn k (snd (fn s))) (ctx (Suc attempt + k))"
    "o_err r = None \<longleftrightarrow> fst (answer fn k (snd (fn s)))"
    "o_sleeps r = map (\<lambda>i. addJitter (rnd (Suc attempt + i)) (delay_at cfg (next_delay cfg delay) i) (Jitter cfg)) [0..<k]"
    unfolding run_spec_def by (elim exE conjE) (rule that)
  have "list_all (\<lambda>i. retries (answer fn i s)) [0..<Suc k]"
    using k(4) assms(2) by (simp add: upt_from_zero list.pred_map comp_def del: upt_Suc)
  moreover have "o_sleeps (one_more [addJitter (rnd attempt) delay (Jitter cfg)] r) =
      map (\<lambda>i. addJitter (rnd (attempt + i)) (delay_at cfg delay i) (Jitter cfg)) [0..<Suc k]"
    using k(7) by (simp add: one_more_def upt_from_zero del: upt_Suc map_Suc_upt)
  moreover have "o_err r = final_error (Suc (Suc k)) (Suc n) (answer fn (Suc k) s) (ctx (attempt + Suc k))"
    using k(5) by (simp add: final_error_def)
  ultimately show ?thesis
    unfolding run_spec_def using k(1,2,3,6) by (intro exI[of _ "Suc k"]) (simp add: one_more_def del: upt_Suc)
qed

lemma do_loop_spec:
  assumes "0 < n" and "int attempt + int n = MaxAttempts cfg"
  shows "run_spec cfg rnd ctx fn n attempt delay s (do_loop cfg rnd ctx fn n attempt delay lastErr s)"
  using assms
proof (induction n arbitrary: attempt delay lastErr s)
  case (Suc n)
  obtain ok err s' where fn: "fn s = ((ok, err), s')" by (metis surj_pair)
  show ?case
  proof (cases "retries (ok, err) \<and> n \<noteq> 0 \<and> ctx attempt = None")
    case True
    with Suc have "run_spec cfg rnd ctx fn n (Suc attempt) (next_delay cfg delay) s'
        (do_loop cfg rnd ctx fn n (Suc attempt) (next_delay cfg delay) err s')" by simp
    from run_spec_more[of cfg rnd ctx fn n attempt delay s] this True Suc.prems show ?thesis
      by (simp add: fn retries_def)
  next
    case False
    with Suc.prems show ?thesis
      by (intro run_spec_last)
         (auto simp: fn retries_def final_error_def exhausted_def split: option.splits)
  qed
qed simp

section \<open>Bounds on the sleeps\<close>

lemma go_int_abs: "real_of_int \<bar>go_int x\<bar> \<le> \<bar>x\<bar>"
  by (auto simp: go_int_def)

lemma addJitter_bounds:
  fixes jitter r :: real
  assumes "0 \<le> d" and "0 \<le> r" and "r < 1" and "0 \<le> jitter" and "jitter \<le> 1"
  shows "0 \<le> addJitter r d jitter \<and> real_of_int (addJitter r d jitter) \<le> (1 + jitter) * real_of_int d"
proof (cases "jitter = 0")
  case False
  define x where "x = (r * 2 - 1) * (real_of_int d * jitter)"
  have "\<bar>r * 2 - 1\<bar> \<le> 1" using assms by linarith
  then have "\<bar>x\<bar> \<le> real_of_int d * jitter"
    using assms mult_right_mono[of "\<bar>r * 2 - 1\<bar>" 1 "real_of_int d * jitter"] by (simp add: abs_mult x_def)
  with go_int_abs[of x] have g: "\<bar>real_of_int (go_int x)\<bar> \<le> real_of_int d * jitter" by simp
  have a: "addJitter r d jitter = d + go_int x" using False assms by (simp add: addJitter_def x_def Let_def)
  have "real_of_int d * jitter \<le> real_of_int d" using assms by (simp add: mult_left_le)
  with g have "0 \<le> real_of_int (d + go_int x)" by simp
  moreover have "real_of_int (d + go_int x) \<le> (1 + jitter) * real_of_int d" using g by (simp add: algebra_simps)
  ultimately show ?thesis unfolding a by simp
qed (use assms in \<open>simp add: addJitter_def\<close>)

lemma next_delay_bounds:
  assumes "0 \<le> d" and "0 \<le> Multiplier cfg" and "0 \<le> MaxDelay cfg"
  shows "0 \<le> next_delay cfg d \<and> next_delay cfg d \<le> MaxDelay cfg"
  using assms by (auto simp: next_delay_def Let_def go_int_def)

lemma delay_at_bounds:
  assumes "0 \<le> d" and "d \<le> MaxDelay cfg" and "0 \<le> Multiplier cfg"
  shows "0 \<le> delay_at cfg d i \<and> delay_at cfg d i \<le> MaxDelay cfg"
  using assms
proof (induction i arbitrary: d)
  case (Suc i)
  with next_delay_bounds[of d cfg] show ?case by simp
qed simp

lemma Do_run:
  "0 < MaxAttempts cfg \<Longrightarrow>
     run_spec cfg rnd ctx fn (nat (MaxAttempts cfg)) 0 (BaseDelay cfg) s (Do rnd ctx cfg fn s)"
  unfolding Do_def by (rule do_loop_spec) simp_all

lemma Do_sleeps:
  assumes "0 < MaxAttempts cfg"
  obtains k where "k < nat (MaxAttempts cfg)" "o_calls (Do rnd ctx cfg fn s) = Suc k"
    "o_sleeps (Do rnd ctx cfg fn s) = map (\<lambda>i. addJitter (rnd i) (delay_at cfg (BaseDelay cfg) i) (Jitter cfg)) [0..<k]"
  using Do_run[OF assms, of rnd ctx fn s] that unfolding run_spec_def by (elim exE conjE) simp

lemma default_delays: "i < 3 \<Longrightarrow> delay_at Default (BaseDelay Default) i = 500 * 2 ^ i * Millisecond"
  by (cases i rule: nat.exhaust; cases "i - 1" rule: nat.exhaust; cases "i - 2" rule: nat.exhaust)
     (auto simp: next_delay_def Default_def Millisecond_def go_int_def)

lemma default_waiting:
  assumes "\<And>i. 0 \<le> rnd i \<and> rnd i < 1"
  shows "sum_list (o_sleeps (Do rnd ctx Default fn s)) \<le> 4200 * Millisecond"
proof -
  let ?sl = "\<lambda>i. addJitter (rnd i) (delay_at Default (BaseDelay Default) i) (Jitter Default)"
  obtain k where k: "k < 4" "o_sleeps (Do rnd ctx Default fn s) = map ?sl [0..<k]"
    by (rule Do_sleeps[of Default]) (auto simp: Default_def)
  have b: "0 \<le> ?sl i \<and> ?sl i \<le> 600 * 2 ^ i * Millisecond" if "i < 3" for i
  proof -
    have j: "0 \<le> Jitter Default" "Jitter Default \<le> 1" by (simp_all add: Default_def)
    have "0 \<le> 500 * 2 ^ i * Millisecond" by (simp add: Millisecond_def)
    from addJitter_bounds[OF this _ _ j, of "rnd i"] assms[of i]
    have "real_of_int (?sl i) \<le> (1 + Jitter Default) * real_of_int (500 * 2 ^ i * Millisecond)" "0 \<le> ?sl i"
      unfolding default_delays[OF that] by blast+
    note sl = this
    have eq: "(1 + Jitter Default) * real_of_int (500 * 2 ^ i * Millisecond) = real_of_int (600 * 2 ^ i * Millisecond)"
      by (simp add: Default_def)
    show ?thesis using sl(1)[unfolded eq of_int_le_iff] sl(2) by blast
  qed
  have "sum_list (map ?sl [0..<k]) \<le> sum_list (map ?sl [0..<3])"
  proof -
    have "[0..<3] = [0..<k] @ [k..<3]" using upt_add_eq_append[of 0 k "3 - k"] k(1) by simp
    moreover have "0 \<le> sum_list (map ?sl [k..<3])" using b by (intro sum_list_nonneg) auto
    ultimately show ?thesis by simp
  qed
  also have "\<dots> \<le> 4200 * Millisecond" using b[of 0] b[of 1] b[of 2] by (simp add: upt_rec numeral_2_eq_2)
  finally show ?thesis by (simp add: k(2))
qed

section \<open>Properties\<close>


text \<open>
  Bounded waiting.  With delays, multiplier and jitter in their meaningful ranges every
  sleep lies between 0 and \<^verbatim>\<open>MaxDelay\<close> enlarged by the jitter, there are fewer sleeps than
  attempts, and the default configuration sleeps at most 4.2 seconds in total.
\<close>

theorem Do_waiting:
  assumes "0 < MaxAttempts cfg" and "0 \<le> BaseDelay cfg" and "BaseDelay cfg \<le> MaxDelay cfg"
    and "0 \<le> Multiplier cfg" and "0 \<le> Jitter cfg" and "Jitter cfg \<le> 1"
    and "\<And>i. 0 \<le> rnd i \<and> rnd i < 1"
  shows "set (o_sleeps (Do rnd ctx cfg fn s)) \<subseteq> {0 .. \<lfloor>(1 + Jitter cfg) * real_of_int (MaxDelay cfg)\<rfloor>}
    \<and> int (length (o_sleeps (Do rnd ctx cfg fn s))) < MaxAttempts cfg
    \<and> sum_list (o_sleeps (Do rnd ctx Default fn s)) \<le> 4200 * Millisecond"
proof (intro conjI)
  obtain k where k: "k < nat (MaxAttempts cfg)"
    "o_sleeps (Do rnd ctx cfg fn s) = map (\<lambda>i. addJitter (rnd i) (delay_at cfg (BaseDelay cfg) i) (Jitter cfg)) [0..<k]"
    using assms(1) by (rule Do_sleeps)
  have "addJitter (rnd i) (delay_at cfg (BaseDelay cfg) i) (Jitter cfg) \<in> {0 .. \<lfloor>(1 + Jitter cfg) * real_of_int (MaxDelay cfg)\<rfloor>}" for i
  proof -
    have d: "0 \<le> delay_at cfg (BaseDelay cfg) i" "delay_at cfg (BaseDelay cfg) i \<le> MaxDelay cfg"
      using delay_at_bounds[OF assms(2-4)] by auto
    have "(1 + Jitter cfg) * delay_at cfg (BaseDelay cfg) i \<le> (1 + Jitter cfg) * MaxDelay cfg"
      using assms(5) d(2) by (intro mult_left_mono) auto
    with addJitter_bounds[OF d(1) _ _ assms(5,6), of "rnd i"] assms(7)[of i] show ?thesis
      by (auto simp: le_floor_iff)
  qed
  then show "set (o_sleeps (Do rnd ctx cfg fn s)) \<subseteq> {0 .. \<lfloor>(1 + Jitter cfg) * real_of_int (MaxDelay cfg)\<rfloor>}"
    by (auto simp: k(2))
  show "int (length (o_sleeps (Do rnd ctx cfg fn s))) < MaxAttempts cfg" using k assms(1) by simp
  show "sum_list (o_sleeps (Do rnd ctx Default fn s)) \<le> 4200 * Millisecond"
    by (rule default_waiting) (rule assms(7))
qed

theorem Do_waiting_witness:
  "set (o_sleeps (Do (\<lambda>_. 1/4) (\<lambda>_. None) Default (\<lambda>n. ((n = 9, None), Suc n)) 0))
     \<subseteq> {0 .. \<lfloor>(1 + Jitter Default) * real_of_int (MaxDelay Default)\<rfloor>}
    \<and> int (length (o_sleeps (Do (\<lambda>_. 1/4) (\<lambda>_. None) Default (\<lambda>n. ((n = 9, None), Suc n)) 0))) < MaxAttempts Default
    \<and> sum_list (o_sleeps (Do (\<lambda>_. 1/4) (\<lambda>_. None) Default (\<lambda>n. ((n = 9, None), Suc n)) 0)) \<le> 4200 * Millisecond"
  by (rule Do_waiting) (simp_all add: Default_def Millisecond_def)

lemma http_op_cases:
  "case fn s of
     (Inl (x, e), t) \<Rightarrow> http_op fn (s, y) = ((False, Some e), (t, x))
   | (Inr r, t) \<Rightarrow> http_op fn (s, y) =
       (if retryable (resp_StatusCode r)
        then ((False, Some (ErrorString (resp_Status r))), (t, Some (r\<lparr> resp_closed := True \<rparr>)))
        else ((True, None), (t, Some r)))"
  by (auto simp: http_op_def split: sum.splits prod.splits)

text \<open>
  The HTTP wrapper.  The response and the error it returns come from the last call that was
  made: an error of the call is an error of the wrapper; a response with status 429, 502, 503
  or 504 is returned with an error and with its body closed; any other response is returned
  open and without an error.
\<close>

theorem DoHTTP_result:
  assumes "0 < MaxAttempts cfg" and "DoHTTP rnd ctx cfg fn s = ((resp, err), s')"
  shows "\<exists>s0. case fn s0 of
      (Inl (x, e), t) \<Rightarrow> t = s' \<and> resp = x \<and> err \<noteq> None
    | (Inr r, t) \<Rightarrow> t = s' \<and>
        (if resp_StatusCode r \<in> {429, 502, 503, 504} then resp = Some (r\<lparr> resp_closed := True \<rparr>) \<and> err \<noteq> None
         else resp = Some r \<and> err = None)"
proof -
  let ?r = "Do rnd ctx cfg (http_op fn) (s, None)"
  obtain k where k: "o_state ?r = state_after (http_op fn) (Suc k) (s, None)"
    "o_err ?r = None \<longleftrightarrow> fst (answer (http_op fn) k (s, None))"
    using Do_run[OF assms(1), of rnd ctx "http_op fn" "(s, None)"] unfolding run_spec_def by (elim exE conjE) (rule that)
  obtain s0 y where st: "state_after (http_op fn) k (s, None) = (s0, y)" by fastforce
  have last: "o_state ?r = snd (http_op fn (s0, y))" "o_err ?r = None \<longleftrightarrow> fst (fst (http_op fn (s0, y)))"
    using k st by (simp_all add: answer_def state_after_def)
  from assms(2) have "o_state ?r = (s', resp)" "o_err ?r = err" by (auto simp: DoHTTP_def Let_def)
  with last http_op_cases[of fn s0 y] show ?thesis
    by (intro exI[of _ s0]) (auto simp: retryable_def split: sum.splits prod.splits if_splits)
qed

text \<open>An endpoint that is unavailable twice and then answers.\<close>

definition ex_endpoint :: "nat http_call" where
  "ex_endpoint n = (Inr \<lparr> resp_StatusCode = (if n < 2 then 503 else 200), resp_Status = [], resp_Body = [], resp_closed = False \<rparr>, Suc n)"

theorem DoHTTP_result_witness:
  "\<exists>s0. case ex_endpoint s0 of
      (Inl (x, e), t) \<Rightarrow> t = 3 \<and> Some \<lparr> resp_StatusCode = 200, resp_Status = [], resp_Body = [], resp_closed = False \<rparr> = x \<and> None \<noteq> (None :: go_error option)
    | (Inr r, t) \<Rightarrow> t = 3 \<and>
        (if resp_StatusCode r \<in> {429, 502, 503, 504}
         then Some \<lparr> resp_StatusCode = 200, resp_Status = [], resp_Body = [], resp_closed = False \<rparr> = Some (r\<lparr> resp_closed := True \<rparr>) \<and> None \<noteq> (None :: go_error option)
         else Some \<lparr> resp_StatusCode = 200, resp_Status = [], resp_Body = [], resp_closed = False \<rparr> = Some r \<and> (None :: go_error option) = None)"
proof (rule DoHTTP_result)
  show "0 < MaxAttempts Default" by (simp add: Default_def)
  show "DoHTTP (\<lambda>_. 0) (\<lambda>_. None) Default ex_endpoint 0 =
      ((Some \<lparr> resp_StatusCode = 200, resp_Status = [], resp_Body = [], resp_closed = False \<rparr>, None), 3)"
    by (simp add: DoHTTP_def Do_def Default_def http_op_def ex_endpoint_def retryable_def one_more_def
        permanent_cause_def eval_nat_numeral Let_def)
qed

end
