(* ===== verification/JobQueue.thy ===== *)
theory JobQueue
  imports Models
begin

text \<open>
  \<^verbatim>\<open>pkg/queue\<close>: the job queue interface and its in-memory implementation on a buffered channel.
  A channel is its buffer and its capacity; a send on a full channel and a receive from an
  empty one block.  An operation that can block, or that a \<^verbatim>\<open>select\<close> may resolve in several ways,
  gives the list of its possible outcomes, empty when it has to wait.  The context is the error
  it reports when it is done (\<open>None\<close> while it is not).  Capacity 0 (a channel that hands over
  directly) is outside the model: the program makes the queue with capacity 512.
\<close>

section \<open>The implementation\<close>

record InMemory =
  ch :: "Job list"
  ch_cap :: nat

definition NewInMemory :: "nat \<Rightarrow> InMemory" where
  "NewInMemory capacity = \<lparr> ch = [], ch_cap = capacity \<rparr>"

definition Enqueue :: "go_error option \<Rightarrow> Job \<Rightarrow> InMemory \<Rightarrow> (go_error option \<times> InMemory) list" where
  "Enqueue ctx job q = (if length (ch q) < ch_cap q then [(None, q\<lparr> ch := ch q @ [job] \<rparr>)] else [])"

definition Dequeue :: "go_error option \<Rightarrow> InMemory \<Rightarrow> ((go_error + Job) \<times> InMemory) list" where
  "Dequeue ctx q =
     (case ch q of [] \<Rightarrow> [] | job # rest \<Rightarrow> [(Inr job, q\<lparr> ch := rest \<rparr>)]) @
     (case ctx of None \<Rightarrow> [] | Some err \<Rightarrow> [(Inl err, q)])"

definition queue_Len :: "InMemory \<Rightarrow> nat" where
  "queue_Len q = length (ch q)"

section \<open>The interface\<close>

text \<open>
  What the users of a queue rely on: the jobs inside, in order; an enqueue that returns has
  added the job at the end; a dequeue returns the first job and removes it, or the error of the
  context and leaves the queue alone.
\<close>

locale job_queue =
  fixes enqueue :: "go_error option \<Rightarrow> Job \<Rightarrow> 'q \<Rightarrow> (go_error option \<times> 'q) list"
    and dequeue :: "go_error option \<Rightarrow> 'q \<Rightarrow> ((go_error + Job) \<times> 'q) list"
    and len :: "'q \<Rightarrow> nat"
    and jobs :: "'q \<Rightarrow> Job list"
    and inv :: "'q \<Rightarrow> bool"
  assumes enqueue_ok: "inv q \<Longrightarrow> (None, q') \<in> set (enqueue ctx j q) \<Longrightarrow> inv q' \<and> jobs q' = jobs q @ [j]"
    and enqueue_err: "inv q \<Longrightarrow> (Some e, q') \<in> set (enqueue ctx j q) \<Longrightarrow> inv q' \<and> jobs q' = jobs q"
    and dequeue_ok: "inv q \<Longrightarrow> (Inr j, q') \<in> set (dequeue ctx q) \<Longrightarrow> inv q' \<and> jobs q = j # jobs q'"
    and dequeue_err: "inv q \<Longrightarrow> (Inl e, q') \<in> set (dequeue ctx q) \<Longrightarrow> ctx = Some e \<and> q' = q"
    and dequeue_ready: "inv q \<Longrightarrow> dequeue ctx q = [] \<longleftrightarrow> jobs q = [] \<and> ctx = None"
    and len_jobs: "inv q \<Longrightarrow> len q = length (jobs q)"
begin

text \<open>The runs of a queue, with the jobs accepted and the jobs handed out so far.\<close>

inductive run :: "'q \<Rightarrow> Job list \<Rightarrow> Job list \<Rightarrow> 'q \<Rightarrow> bool" where
  run_start: "run q [] [] q"
| run_enqueued: "run q ins outs q1 \<Longrightarrow> (None, q2) \<in> set (enqueue ctx j q1) \<Longrightarrow> run q (ins @ [j]) outs q2"
| run_refused: "run q ins outs q1 \<Longrightarrow> (Some e, q2) \<in> set (enqueue ctx j q1) \<Longrightarrow> run q ins outs q2"
| run_dequeued: "run q ins outs q1 \<Longrightarrow> (Inr j, q2) \<in> set (dequeue ctx q1) \<Longrightarrow> run q ins (outs @ [j]) q2"
| run_cancelled: "run q ins outs q1 \<Longrightarrow> (Inl e, q2) \<in> set (dequeue ctx q1) \<Longrightarrow> run q ins outs q2"

lemma run_fifo: "run q ins outs q' \<Longrightarrow> inv q \<Longrightarrow> inv q' \<and> jobs q @ ins = outs @ jobs q'"
proof (induction rule: run.induct)
  case (run_enqueued q ins outs q1 q2 ctx j)
  then show ?case using enqueue_ok by (metis append.assoc)
next
  case (run_refused q ins outs q1 e q2 ctx j)
  then show ?case using enqueue_err by metis
next
  case (run_dequeued q ins outs q1 j q2 ctx)
  then show ?case using dequeue_ok by (metis append_Cons append_Nil append.assoc)
next
  case (run_cancelled q ins outs q1 e q2 ctx)
  then show ?case using dequeue_err by metis
qed simp

lemma run_len: "run q ins outs q' \<Longrightarrow> inv q \<Longrightarrow> len q' + length outs = len q + length ins"
  using run_fifo[of q ins outs q'] len_jobs by (metis add.commute length_append)

end

section \<open>The channel is one\<close>

definition queue_inv :: "InMemory \<Rightarrow> bool" where
  "queue_inv q \<longleftrightarrow> length (ch q) \<le> ch_cap q"

interpretation in_memory: job_queue Enqueue Dequeue queue_Len ch queue_inv
  by unfold_locales
     (auto simp: Enqueue_def Dequeue_def queue_Len_def queue_inv_def split: if_splits list.splits option.splits,
      metis length_Cons Suc_leD)

lemma NewInMemory_inv: "queue_inv (NewInMemory n)"
  by (simp add: queue_inv_def NewInMemory_def)

lemma run_capacity: "in_memory.run q ins outs q' \<Longrightarrow> ch_cap q' = ch_cap q"
  by (induction rule: in_memory.run.induct) (auto simp: Enqueue_def Dequeue_def split: if_splits list.splits option.splits)

text \<open>
  C19: no job is lost, duplicated or overtaken.  In every run of the in-memory queue from an
  empty one, the jobs accepted so far are the jobs handed out so far followed by the jobs
  still inside, in this order; the queue never holds more than its capacity, and its length is
  the difference of the two counts.
\<close>

theorem queue_fifo:
  assumes "in_memory.run (NewInMemory n) ins outs q"
  shows "ins = outs @ ch q \<and> length (ch q) \<le> n \<and> queue_Len q = length ins - length outs"
  using in_memory.run_fifo[OF assms NewInMemory_inv] run_capacity[OF assms]
  by (simp add: NewInMemory_def queue_inv_def queue_Len_def)

definition ex_job :: "string \<Rightarrow> Job" where
  "ex_job i = \<lparr> j_ID = i, j_Source = JobSourceManual, j_RepoURL = [], j_RepoOwner = [], j_RepoName = [],
     j_CommitSHA = [], j_Branch = [], j_PRNumber = 0, j_Status = JobStatusQueued, j_CreatedAt = 0,
     j_StartedAt = None, j_CompletedAt = None, j_Meta = Map.empty \<rparr>"

lemma ex_queue_run:
  "in_memory.run (NewInMemory 2) ([] @ [ex_job ''a''] @ [ex_job ''b'']) ([] @ [ex_job ''a''])
     \<lparr> ch = [ex_job ''b''], ch_cap = 2 \<rparr>"
  unfolding append.assoc[symmetric]
proof (rule in_memory.run_dequeued[where ctx = None])
  show "in_memory.run (NewInMemory 2) (([] @ [ex_job ''a'']) @ [ex_job ''b'']) []
      \<lparr> ch = [ex_job ''a'', ex_job ''b''], ch_cap = 2 \<rparr>"
    by (rule in_memory.run_enqueued[where ctx = None and ?q1.0 = "\<lparr> ch = [ex_job ''a''], ch_cap = 2 \<rparr>"],
        rule in_memory.run_enqueued[where ctx = None and ?q1.0 = "NewInMemory 2"], rule in_memory.run_start)
       (simp_all add: Enqueue_def NewInMemory_def)
qed (simp add: Dequeue_def)

theorem queue_fifo_witness:
  "[] @ [ex_job ''a''] @ [ex_job ''b''] = ([] @ [ex_job ''a'']) @ ch \<lparr> ch = [ex_job ''b''], ch_cap = 2 \<rparr>
    \<and> length (ch \<lparr> ch = [ex_job ''b''], ch_cap = 2 \<rparr>) \<le> 2
    \<and> queue_Len \<lparr> ch = [ex_job ''b''], ch_cap = 2 \<rparr> =
        length ([] @ [ex_job ''a''] @ [ex_job ''b'']) - length ([] @ [ex_job ''a''])"
  by (rule queue_fifo[OF ex_queue_run])

text \<open>
  Blocking.  Enqueueing never fails: it adds the job, or it waits for as long as the queue is
  full, whatever becomes of the context, so the branch of the caller that answers \<^verbatim>\<open>queue full\<close>
  is dead.  Dequeueing waits exactly while the queue is empty and the context is not done, and
  on a queue with a job and a context that is done it may go either way.
\<close>

theorem queue_blocking:
  "(Enqueue ctx j q = [] \<longleftrightarrow> ch_cap q \<le> length (ch q))
   \<and> fst ` set (Enqueue ctx j q) \<subseteq> {None}
   \<and> (Dequeue ctx q = [] \<longleftrightarrow> ch q = [] \<and> ctx = None)
   \<and> fst ` set (Dequeue ctx q) =
       (case ch q of [] \<Rightarrow> {} | x # _ \<Rightarrow> {Inr x}) \<union> (case ctx of None \<Rightarrow> {} | Some e \<Rightarrow> {Inl e})"
  by (auto simp: Enqueue_def Dequeue_def split: list.splits option.splits)

end
