(* ===== verification/GoFmt.thy ===== *)
theory GoFmt
  imports GoStrings
begin

text \<open>
  The formatting and parsing the program takes from the standard library: \<^verbatim>\<open>%d\<close>, \<^verbatim>\<open>%.nf\<close>, \<^verbatim>\<open>%q\<close>,
  and \<^verbatim>\<open>strconv.Atoi\<close> with its value on errors.
\<close>

section \<open>Decimal integers\<close>

definition digit :: "int \<Rightarrow> char" where "digit n = char_of (48 + n)"

function decimal :: "int \<Rightarrow> string" where
  "decimal n = (if n < 10 then [digit n] else decimal (n div 10) @ [digit (n mod 10)])"
  by pat_completeness auto
termination
  by (relation "measure nat") auto

declare decimal.simps [simp del]

definition fmt_d :: "int \<Rightarrow> string" where
  "fmt_d n = (if n < 0 then ''-'' @ decimal (- n) else decimal n)"

text \<open>
  \<^verbatim>\<open>%.nf\<close>: the nearest multiple of \<open>10^-n\<close>, the even one of two equally near; a negative number
  keeps its sign even when it rounds to zero.
\<close>

definition round_even :: "real \<Rightarrow> int" where
  "round_even x =
     (let f = \<lfloor>x\<rfloor>; r = x - real_of_int f
      in if r < 1/2 then f else if r > 1/2 then f + 1 else if even f then f else f + 1)"

definition pad_left :: "nat \<Rightarrow> string \<Rightarrow> string" where
  "pad_left n s = replicate (n - length s) (CHR ''0'') @ s"

definition fmt_f :: "nat \<Rightarrow> real \<Rightarrow> string" where
  "fmt_f n x =
     (let m = round_even (\<bar>x\<bar> * 10 ^ n)
      in (if x < 0 then ''-'' else []) @ decimal (m div 10 ^ n)
         @ (if n = 0 then [] else ''.'' @ pad_left n (decimal (m mod 10 ^ n))))"

section \<open>Parsing integers\<close>

definition digit_value :: "char \<Rightarrow> int option" where
  "digit_value c = (let n = of_char c - 48 in if 0 \<le> n \<and> n \<le> 9 then Some n else None)"

definition MaxUint :: int where "MaxUint = 2 ^ 64 - 1"

text \<open>The scan stops at the first digit that leaves 64 bits, whatever follows it.\<close>

fun digits_value :: "int \<Rightarrow> string \<Rightarrow> int option" where
  "digits_value acc [] = Some acc"
| "digits_value acc (c # s) =
     (case digit_value c of
        None \<Rightarrow> None
      | Some d \<Rightarrow> if acc * 10 + d > MaxUint then Some (acc * 10 + d) else digits_value (acc * 10 + d) s)"

definition MaxInt :: int where "MaxInt = 2 ^ 63 - 1"
definition MinInt :: int where "MinInt = - (2 ^ 63)"

text \<open>The value and whether the error is nil: 0 on a syntax error, the nearest bound on a range error.\<close>

definition Atoi :: "string \<Rightarrow> int \<times> bool" where
  "Atoi s =
     (let neg = (s \<noteq> [] \<and> hd s = CHR ''-'');
          body = (if s \<noteq> [] \<and> (hd s = CHR ''-'' \<or> hd s = CHR ''+'') then tl s else s)
      in if body = [] then (0, False)
         else case digits_value 0 body of
                None \<Rightarrow> (0, False)
              | Some v \<Rightarrow>
                  let i = (if neg then - v else v)
                  in if i > MaxInt then (MaxInt, False) else if i < MinInt then (MinInt, False) else (i, True))"

section \<open>Quoting\<close>

definition hex_digit :: "int \<Rightarrow> char" where
  "hex_digit n = (if n < 10 then digit n else char_of (87 + n))"

fun hex_digits :: "nat \<Rightarrow> int \<Rightarrow> string" where
  "hex_digits 0 r = []"
| "hex_digits (Suc n) r = hex_digits n (r div 16) @ [hex_digit (r mod 16)]"

definition backslash :: char where "backslash = CHR 0x5C"
definition dquote :: char where "dquote = CHR 0x22"

definition named_escapes :: "(rune \<times> char) list" where
  "named_escapes = [(7, CHR ''a''), (8, CHR ''b''), (12, CHR ''f''), (10, CHR ''n''), (13, CHR ''r''), (9, CHR ''t''), (11, CHR ''v'')]"

text \<open>\<open>isPrint\<close> is the Unicode table of \<^verbatim>\<open>strconv.IsPrint\<close>, asked for runes outside ASCII only.\<close>

definition escape_rune :: "(rune \<Rightarrow> bool) \<Rightarrow> text_rune \<Rightarrow> string" where
  "escape_rune isPrint x =
     (case x of (r, w) \<Rightarrow>
        if r = RuneError \<and> length w = 1 then [backslash, CHR ''x''] @ hex_digits 2 (of_char (hd w))
        else if r = of_char dquote \<or> r = of_char backslash then backslash # w
        else if (if r < 0x80 then 0x20 \<le> r \<and> r < 0x7F else isPrint r) then w
        else (case map_of named_escapes r of
                Some c \<Rightarrow> [backslash, c]
              | None \<Rightarrow>
                  if r < 0x20 \<or> r = 0x7F then [backslash, CHR ''x''] @ hex_digits 2 r
                  else if r < 0x10000 then [backslash, CHR ''u''] @ hex_digits 4 r
                  else [backslash, CHR ''U''] @ hex_digits 8 r))"

definition Quote :: "(rune \<Rightarrow> bool) \<Rightarrow> string \<Rightarrow> string" where
  "Quote isPrint s = dquote # concat (map (escape_rune isPrint) (runes s)) @ [dquote]"

section \<open>Printing and reading back\<close>

lemma digit_value_digit [simp]: "0 \<le> n \<Longrightarrow> n \<le> 9 \<Longrightarrow> digit_value (digit n) = Some n"
  by (simp add: digit_value_def digit_def)

lemma digits_value_append:
  "digits_value acc s = Some v \<Longrightarrow> v \<le> MaxUint \<Longrightarrow> digits_value acc (s @ t) = digits_value v t"
  by (induction acc s rule: digits_value.induct) (auto split: option.splits if_splits)

lemma digits_value_decimal: "0 \<le> n \<Longrightarrow> n \<le> MaxUint \<Longrightarrow> digits_value 0 (decimal n) = Some n"
proof (induction n rule: decimal.induct)
  case (1 n)
  show ?case
  proof (cases "n < 10")
    case True
    with 1 show ?thesis by (simp add: decimal.simps[of n])
  next
    case False
    have "n div 10 \<le> MaxUint" using 1(2,3) by linarith
    with 1 False have "digits_value 0 (decimal (n div 10)) = Some (n div 10)" by simp
    from digits_value_append[OF this \<open>n div 10 \<le> MaxUint\<close>] 1(3) False show ?thesis
      by (simp add: decimal.simps[of n])
  qed
qed

lemma decimal_nonempty [simp]: "decimal n \<noteq> []"
  by (simp add: decimal.simps[of n])

lemma decimal_digits: "0 \<le> n \<Longrightarrow> set (decimal n) \<subseteq> set ''0123456789''"
proof (induction n rule: decimal.induct)
  case (1 n)
  have "digit m \<in> set ''0123456789''" if "0 \<le> m" "m \<le> 9" for m
  proof -
    from that have "m \<in> set [0..9]" by simp
    moreover have "list_all (\<lambda>m. digit m \<in> set ''0123456789'') [0..9]" by code_simp
    ultimately show ?thesis by (simp add: list_all_iff del: set_upto)
  qed
  note dg = this
  show ?case
  proof (cases "n < 10")
    case True
    with 1 dg[of n] show ?thesis by (simp add: decimal.simps[of n])
  next
    case False
    with 1 dg[of "n mod 10"] show ?thesis by (subst decimal.simps) simp
  qed
qed

lemma decimal_head: "0 \<le> n \<Longrightarrow> hd (decimal n) \<in> set ''0123456789''"
  using decimal_digits[of n] by (auto simp: subset_iff)

lemma Atoi_fmt_d:
  assumes "MinInt \<le> n" and "n \<le> MaxInt"
  shows "Atoi (fmt_d n) = (n, True)"
proof (cases "n < 0")
  case True
  with assms have "- n \<le> MaxUint" by (simp add: MinInt_def MaxUint_def)
  with True assms show ?thesis by (simp add: Atoi_def fmt_d_def Let_def digits_value_decimal)
next
  case False
  then have "hd (decimal n) \<noteq> CHR ''-''" "hd (decimal n) \<noteq> CHR ''+''" using decimal_head[of n] by auto
  moreover have "n \<le> MaxUint" using assms(2) by (simp add: MaxInt_def MaxUint_def)
  ultimately show ?thesis using False assms by (simp add: Atoi_def fmt_d_def Let_def digits_value_decimal)
qed

lemma fmt_d_inj: "MinInt \<le> a \<Longrightarrow> a \<le> MaxInt \<Longrightarrow> MinInt \<le> b \<Longrightarrow> b \<le> MaxInt \<Longrightarrow> fmt_d a = fmt_d b \<Longrightarrow> a = b"
  by (metis Atoi_fmt_d Pair_inject)

end
