(* ===== verification/GoHttp.thy ===== *)
theory GoHttp
  imports GoStrings
begin

text \<open>
  The parts of \<^verbatim>\<open>net/http\<close> that the handlers of the services use: responses as they are built by a
  handler, \<^verbatim>\<open>http.Error\<close>, and the status codes by name.
\<close>

section \<open>Responses\<close>

text \<open>
  A response under construction: the headers, the status (fixed by the first \<^verbatim>\<open>WriteHeader\<close> or
  write; 200 when only a body was written) and the body.
\<close>

record Response =
  rs_header :: "string \<rightharpoonup> string"
  rs_code :: "int option"
  rs_body :: string

definition new_response :: Response where
  "new_response = \<lparr> rs_header = Map.empty, rs_code = None, rs_body = [] \<rparr>"

definition header_Set :: "string \<Rightarrow> string \<Rightarrow> Response \<Rightarrow> Response" where
  "header_Set k v w = w\<lparr> rs_header := (rs_header w)(k \<mapsto> v) \<rparr>"

definition WriteHeader :: "int \<Rightarrow> Response \<Rightarrow> Response" where
  "WriteHeader code w = (case rs_code w of None \<Rightarrow> w\<lparr> rs_code := Some code \<rparr> | Some c \<Rightarrow> w)"

definition write_body :: "string \<Rightarrow> Response \<Rightarrow> Response" where
  "write_body s w = (WriteHeader 200 w)\<lparr> rs_body := rs_body w @ s \<rparr>"

text \<open>The status line the client sees.\<close>

definition status_of :: "Response \<Rightarrow> int" where
  "status_of w = (case rs_code w of None \<Rightarrow> 200 | Some c \<Rightarrow> c)"

definition http_Error :: "string \<Rightarrow> int \<Rightarrow> Response \<Rightarrow> Response" where
  "http_Error msg code w =
     write_body (msg @ [newline])
       (WriteHeader code
         (header_Set ''X-Content-Type-Options'' ''nosniff''
           (header_Set ''Content-Type'' ''text/plain; charset=utf-8'' w)))"

definition json_type :: "Response \<Rightarrow> Response" where
  "json_type w = header_Set ''Content-Type'' ''application/json'' w"

definition StatusOK :: int where "StatusOK = 200"
definition StatusCreated :: int where "StatusCreated = 201"
definition StatusAccepted :: int where "StatusAccepted = 202"
definition StatusNoContent :: int where "StatusNoContent = 204"
definition StatusBadRequest :: int where "StatusBadRequest = 400"
definition StatusUnauthorized :: int where "StatusUnauthorized = 401"
definition StatusNotFound :: int where "StatusNotFound = 404"
definition StatusTooManyRequests :: int where "StatusTooManyRequests = 429"
definition StatusInternalServerError :: int where "StatusInternalServerError = 500"
definition StatusBadGateway :: int where "StatusBadGateway = 502"
definition StatusServiceUnavailable :: int where "StatusServiceUnavailable = 503"

lemmas status_codes [eval_simps] =
  StatusOK_def StatusCreated_def StatusAccepted_def StatusNoContent_def StatusBadRequest_def
  StatusUnauthorized_def StatusNotFound_def StatusTooManyRequests_def StatusInternalServerError_def
  StatusBadGateway_def StatusServiceUnavailable_def

section \<open>Requests of a client\<close>

record HttpRequest =
  rq_method :: string
  rq_url :: string
  rq_header :: "(string \<times> string) list"
  rq_body :: string

text \<open>
  What a call of \<^verbatim>\<open>http.Client.Do\<close> gives: an error, or a response with its status code and body.
  The network is a function of the request; the calls a component makes are collected as a list.
\<close>

record HttpReply =
  rp_status :: int
  rp_body :: string

type_synonym network = "HttpRequest \<Rightarrow> go_error + HttpReply"

text \<open>\<^verbatim>\<open>http.NewRequestWithContext\<close> fails when the URL does not parse.\<close>

definition NewRequest :: "(string \<Rightarrow> go_error option) \<Rightarrow> string \<Rightarrow> string \<Rightarrow> string \<Rightarrow> go_error + HttpRequest" where
  "NewRequest url_error verb url body =
     (case url_error url of
        Some err \<Rightarrow> Inl err
      | None \<Rightarrow> Inr \<lparr> rq_method = verb, rq_url = url, rq_header = [], rq_body = body \<rparr>)"

definition with_header :: "string \<Rightarrow> string \<Rightarrow> HttpRequest \<Rightarrow> HttpRequest" where
  "with_header k v r = r\<lparr> rq_header := rq_header r @ [(k, v)] \<rparr>"

section \<open>What the client sees\<close>

lemma status_of_simps [simp]:
  "status_of new_response = 200"
  "status_of (header_Set k v w) = status_of w"
  "status_of (json_type w) = status_of w"
  "rs_code w = None \<Longrightarrow> status_of (WriteHeader code w) = code"
  "status_of (write_body s w) = status_of w"
  "rs_code w = None \<Longrightarrow> status_of (http_Error msg code w) = code"
  by (auto simp: status_of_def new_response_def header_Set_def json_type_def WriteHeader_def write_body_def
      http_Error_def split: option.splits)

lemma rs_code_simps [simp]:
  "rs_code new_response = None"
  "rs_code (header_Set k v w) = rs_code w"
  "rs_code (json_type w) = rs_code w"
  by (simp_all add: new_response_def header_Set_def json_type_def)

lemma rs_body_simps [simp]:
  "rs_body new_response = []"
  "rs_body (header_Set k v w) = rs_body w"
  "rs_body (json_type w) = rs_body w"
  "rs_body (WriteHeader code w) = rs_body w"
  "rs_body (write_body s w) = rs_body w @ s"
  "rs_body (http_Error msg code w) = rs_body w @ msg @ [newline]"
  by (auto simp: new_response_def header_Set_def json_type_def WriteHeader_def write_body_def
      http_Error_def split: option.splits)

text \<open>The first status wins.\<close>

lemma WriteHeader_twice: "WriteHeader b (WriteHeader a w) = WriteHeader a w"
  by (auto simp: WriteHeader_def split: option.splits)

end
