(* ===== verification/Metrics.thy ===== *)
theory Metrics
  imports GoFmt GoHttp
begin

text \<open>
  \<^verbatim>\<open>pkg/metrics\<close>: counters, gauges and histograms, the registry that hands out one of each per
  name, and the handler that prints them.  Counters are 64-bit words and gauges 64-bit signed
  words, as in the source.  The registry returns pointers, so metrics live in a store indexed by
  addresses.  A Go map is visited in an order of its own choice, which the handler takes as an
  argument, as it does the readings of the runtime.
\<close>

section \<open>Counters and gauges\<close>

type_synonym uint64 = "64 word"
type_synonym int64 = "64 word"

definition Counter_Inc :: "uint64 \<Rightarrow> uint64" where "Counter_Inc v = v + 1"
definition Counter_Add :: "uint64 \<Rightarrow> uint64 \<Rightarrow> uint64" where "Counter_Add n v = v + n"
definition Counter_Value :: "uint64 \<Rightarrow> uint64" where "Counter_Value v = v"

definition Gauge_Set :: "int64 \<Rightarrow> int64 \<Rightarrow> int64" where "Gauge_Set n v = n"
definition Gauge_Inc :: "int64 \<Rightarrow> int64" where "Gauge_Inc v = v + 1"
definition Gauge_Dec :: "int64 \<Rightarrow> int64" where "Gauge_Dec v = v + (- 1)"
definition Gauge_Value :: "int64 \<Rightarrow> int64" where "Gauge_Value v = v"

section \<open>Histograms\<close>

record Histogram =
  h_buckets :: "real list"
  h_counts :: "uint64 list"
  h_sum :: real
  h_total :: uint64

definition defaultBuckets :: "real list" where
  "defaultBuckets = [5, 10, 25, 50, 100, 250, 500, 1000, 2500, 5000]"

definition NewHistogram :: "real list \<Rightarrow> Histogram" where
  "NewHistogram bs =
     (let bs' = (if bs = [] then defaultBuckets else bs)
      in \<lparr> h_buckets = bs', h_counts = replicate (length bs' + 1) 0, h_sum = 0, h_total = 0 \<rparr>)"

text \<open>The index of the first bucket that takes the value; the number of buckets when none does.\<close>

fun bucket_index :: "real \<Rightarrow> real list \<Rightarrow> nat" where
  "bucket_index ms [] = 0"
| "bucket_index ms (b # bs) = (if ms \<le> b then 0 else Suc (bucket_index ms bs))"

definition Observe :: "real \<Rightarrow> Histogram \<Rightarrow> Histogram" where
  "Observe ms h =
     (let i = bucket_index ms (h_buckets h)
      in h\<lparr> h_sum := h_sum h + ms, h_total := h_total h + 1, h_counts := (h_counts h)[i := h_counts h ! i + 1] \<rparr>)"

definition snapshot :: "Histogram \<Rightarrow> real list \<times> uint64 list \<times> real \<times> uint64" where
  "snapshot h = (h_buckets h, h_counts h, h_sum h, h_total h)"

section \<open>The registry\<close>

type_synonym addr = nat

record Registry =
  r_name :: string
  r_counters :: "string \<rightharpoonup> addr"
  r_gauges :: "string \<rightharpoonup> addr"
  r_histograms :: "string \<rightharpoonup> addr"
  r_startTime :: int

text \<open>The allocated metrics; an address below \<open>next_addr\<close> is in use.\<close>

record metric_store =
  next_addr :: addr
  counter_at :: "addr \<Rightarrow> uint64"
  gauge_at :: "addr \<Rightarrow> int64"
  histogram_at :: "addr \<Rightarrow> Histogram"

definition NewRegistry :: "int \<Rightarrow> string \<Rightarrow> Registry" where
  "NewRegistry now serviceName =
     \<lparr> r_name = serviceName, r_counters = Map.empty, r_gauges = Map.empty, r_histograms = Map.empty,
       r_startTime = now \<rparr>"

definition Registry_Counter :: "string \<Rightarrow> Registry \<times> metric_store \<Rightarrow> addr \<times> Registry \<times> metric_store" where
  "Registry_Counter name st =
     (case st of (r, h) \<Rightarrow>
        (case r_counters r name of
           Some c \<Rightarrow> (c, r, h)
         | None \<Rightarrow>
             let c = next_addr h
             in (c, r\<lparr> r_counters := (r_counters r)(name \<mapsto> c) \<rparr>,
                 h\<lparr> next_addr := c + 1, counter_at := (counter_at h)(c := 0) \<rparr>)))"

definition Registry_Gauge :: "string \<Rightarrow> Registry \<times> metric_store \<Rightarrow> addr \<times> Registry \<times> metric_store" where
  "Registry_Gauge name st =
     (case st of (r, h) \<Rightarrow>
        (case r_gauges r name of
           Some g \<Rightarrow> (g, r, h)
         | None \<Rightarrow>
             let g = next_addr h
             in (g, r\<lparr> r_gauges := (r_gauges r)(name \<mapsto> g) \<rparr>,
                 h\<lparr> next_addr := g + 1, gauge_at := (gauge_at h)(g := 0) \<rparr>)))"

definition Registry_Histogram :: "string \<Rightarrow> Registry \<times> metric_store \<Rightarrow> addr \<times> Registry \<times> metric_store" where
  "Registry_Histogram name st =
     (case st of (r, h) \<Rightarrow>
        (case r_histograms r name of
           Some a \<Rightarrow> (a, r, h)
         | None \<Rightarrow>
             let a = next_addr h
             in (a, r\<lparr> r_histograms := (r_histograms r)(name \<mapsto> a) \<rparr>,
                 h\<lparr> next_addr := a + 1, histogram_at := (histogram_at h)(a := NewHistogram []) \<rparr>)))"

section \<open>The text format\<close>

text \<open>What the handler reads from the runtime.\<close>

record runtime_readings =
  num_goroutine :: int
  uptime_seconds :: real
  heap_alloc :: uint64

definition fmt_line :: "string list \<Rightarrow> string" where
  "fmt_line parts = concat parts @ [newline]"

definition process_lines :: "string \<Rightarrow> runtime_readings \<Rightarrow> string list" where
  "process_lines pre rt =
     [fmt_line [''# HELP '', pre, ''goroutines Number of goroutines''],
      fmt_line [''# TYPE '', pre, ''goroutines gauge''],
      fmt_line [pre, ''goroutines '', fmt_d (num_goroutine rt)],
      fmt_line [''# HELP '', pre, ''uptime_seconds Seconds since service start''],
      fmt_line [''# TYPE '', pre, ''uptime_seconds gauge''],
      fmt_line [pre, ''uptime_seconds '', fmt_f 2 (uptime_seconds rt)],
      fmt_line [''# HELP '', pre, ''heap_alloc_bytes Heap bytes allocated''],
      fmt_line [''# TYPE '', pre, ''heap_alloc_bytes gauge''],
      fmt_line [pre, ''heap_alloc_bytes '', fmt_d (uint (heap_alloc rt))]]"

definition counter_lines :: "string \<Rightarrow> string \<Rightarrow> uint64 \<Rightarrow> string list" where
  "counter_lines pre name c =
     [fmt_line [''# TYPE '', pre, name, '' counter''],
      fmt_line [pre, name, '' '', fmt_d (uint (Counter_Value c))]]"

definition gauge_lines :: "string \<Rightarrow> string \<Rightarrow> int64 \<Rightarrow> string list" where
  "gauge_lines pre name g =
     [fmt_line [''# TYPE '', pre, name, '' gauge''],
      fmt_line [pre, name, '' '', fmt_d (sint (Gauge_Value g))]]"

text \<open>The running totals of the buckets, in order.\<close>

fun cumulate :: "uint64 \<Rightarrow> uint64 list \<Rightarrow> uint64 list" where
  "cumulate c [] = []"
| "cumulate c (n # ns) = (c + n) # cumulate (c + n) ns"

definition bucket_line :: "string \<Rightarrow> string \<Rightarrow> string \<Rightarrow> uint64 \<Rightarrow> string" where
  "bucket_line pre name le n =
     fmt_line [pre, name, ''_bucket{le='', [CHR 0x22], le, [CHR 0x22], ''} '', fmt_d (uint n)]"

definition histogram_lines :: "string \<Rightarrow> string \<Rightarrow> Histogram \<Rightarrow> string list" where
  "histogram_lines pre name h =
     (case snapshot h of (bs, cs, total_ms, n) \<Rightarrow>
        let cums = cumulate 0 cs
        in fmt_line [''# TYPE '', pre, name, '' histogram'']
           # map2 (\<lambda>b k. bucket_line pre name (fmt_f 0 b) k) bs cums
           @ [bucket_line pre name ''+Inf'' (cums ! length bs),
              fmt_line [pre, name, ''_sum '', fmt_f 3 total_ms],
              fmt_line [pre, name, ''_count '', fmt_d (uint n)]])"

text \<open>The orders in which the three maps are visited list their entries.\<close>

definition metrics_Handler ::
  "runtime_readings \<Rightarrow> (string \<times> addr) list \<Rightarrow> (string \<times> addr) list \<Rightarrow> (string \<times> addr) list \<Rightarrow>
   Registry \<Rightarrow> metric_store \<Rightarrow> Response \<Rightarrow> Response" where
  "metrics_Handler rt cs gs hs r h w =
     (let pre = r_name r @ ''_''
      in fold write_body
           (process_lines pre rt
            @ concat (map (\<lambda>(name, a). counter_lines pre name (counter_at h a)) cs)
            @ concat (map (\<lambda>(name, a). gauge_lines pre name (gauge_at h a)) gs)
            @ concat (map (\<lambda>(name, a). histogram_lines pre name (histogram_at h a)) hs))
           (header_Set ''Content-Type'' ''text/plain; version=0.0.4'' w))"

section \<open>Histograms count\<close>

text \<open>The counts of a list of observations, bucket by bucket.\<close>

fun spec_counts :: "real list \<Rightarrow> real list \<Rightarrow> uint64 list" where
  "spec_counts [] xs = [of_nat (length xs)]"
| "spec_counts (b # bs) xs =
     of_nat (length (filter (\<lambda>x. x \<le> b) xs)) # spec_counts bs (filter (\<lambda>x. \<not> x \<le> b) xs)"

lemma length_spec_counts [simp]: "length (spec_counts bs xs) = Suc (length bs)"
  by (induction bs arbitrary: xs) auto

lemma bucket_index_le: "bucket_index x bs \<le> length bs"
  by (induction bs) auto

lemma spec_counts_add:
  "(spec_counts bs xs)[bucket_index x bs := spec_counts bs xs ! bucket_index x bs + 1] = spec_counts bs (xs @ [x])"
  by (induction bs arbitrary: xs) (auto simp: add.commute)

lemma Observe_simps [simp]:
  "h_buckets (Observe x h) = h_buckets h" "h_sum (Observe x h) = h_sum h + x"
  "h_total (Observe x h) = h_total h + 1"
  by (simp_all add: Observe_def Let_def)

lemma fold_Observe:
  assumes "h_buckets h = bs" and "h_counts h = spec_counts bs ys"
  shows "h_counts (fold Observe xs h) = spec_counts bs (ys @ xs) \<and>
         h_total (fold Observe xs h) = h_total h + of_nat (length xs) \<and>
         h_sum (fold Observe xs h) = h_sum h + sum_list xs"
  using assms
proof (induction xs arbitrary: h ys)
  case (Cons x xs)
  have "h_counts (Observe x h) = spec_counts bs (ys @ [x])"
    using Cons.prems spec_counts_add[of bs ys x] by (simp add: Observe_def Let_def)
  with Cons.IH[of "Observe x h" "ys @ [x]"] Cons.prems show ?case by (simp add: add.commute add.left_commute)
qed simp

lemma spec_counts_Nil: "spec_counts bs [] = replicate (Suc (length bs)) 0"
  by (induction bs) auto

lemma filter_split_le:
  fixes b b' :: real
  assumes "b \<le> b'"
  shows "length (filter (\<lambda>x. x \<le> b) xs) + length (filter (\<lambda>x. x \<le> b' \<and> \<not> x \<le> b) xs) =
    length (filter (\<lambda>x. x \<le> b') xs)"
  using assms by (induction xs) auto

lemma cumulate_spec:
  "sorted bs \<Longrightarrow> cumulate c (spec_counts bs xs) =
     map (\<lambda>b. c + of_nat (length (filter (\<lambda>x. x \<le> b) xs))) bs @ [c + of_nat (length xs)]"
proof (induction bs arbitrary: c xs)
  case (Cons b bs)
  let ?f = "\<lambda>P. length (filter P xs)"
  have "of_nat (?f (\<lambda>x. x \<le> b)) + of_nat (?f (\<lambda>x. x \<le> b' \<and> \<not> x \<le> b)) = (of_nat (?f (\<lambda>x. x \<le> b')) :: uint64)"
    if "b' \<in> set bs" for b'
    using Cons.prems that filter_split_le[of b b' xs] by (simp flip: of_nat_add)
  moreover have "of_nat (?f (\<lambda>x. x \<le> b)) + of_nat (?f (\<lambda>x. \<not> x \<le> b)) = (of_nat (length xs) :: uint64)"
    using sum_length_filter_compl[of "\<lambda>x. x \<le> b" xs] by (simp flip: of_nat_add)
  ultimately show ?case using Cons by (simp add: add.assoc conj_commute)
qed simp

section \<open>The registry hands out one metric per name\<close>

text \<open>A map to addresses below \<open>n\<close>, no two keys to the same one.\<close>

definition alloc_wf :: "addr \<Rightarrow> (string \<rightharpoonup> addr) \<Rightarrow> bool" where
  "alloc_wf n m \<longleftrightarrow> inj_on m (dom m) \<and> (\<forall>a \<in> ran m. a < n)"

definition registry_wf :: "Registry \<times> metric_store \<Rightarrow> bool" where
  "registry_wf st \<longleftrightarrow>
     (case st of (r, h) \<Rightarrow>
        alloc_wf (next_addr h) (r_counters r) \<and> alloc_wf (next_addr h) (r_gauges r) \<and>
        alloc_wf (next_addr h) (r_histograms r))"

lemma alloc_wf_mono: "alloc_wf n m \<Longrightarrow> alloc_wf (Suc n) m"
  by (auto simp: alloc_wf_def)

lemma alloc_wf_fresh:
  assumes "alloc_wf n m" and "m k = None"
  shows "alloc_wf (Suc n) (m(k \<mapsto> n))"
proof -
  have "m k' \<noteq> Some n" for k' using assms(1) by (auto simp: alloc_wf_def ran_def)
  then show ?thesis
    using assms by (auto simp: alloc_wf_def inj_on_def dom_def ran_def less_Suc_eq split: if_splits)
qed

lemma alloc_wf_inj: "alloc_wf n m \<Longrightarrow> m k = Some a \<Longrightarrow> m k' = Some a \<Longrightarrow> k = k'"
  by (auto simp: alloc_wf_def inj_on_def dom_def)

lemma registry_wf_new: "registry_wf (NewRegistry now name, h)"
  by (simp add: registry_wf_def NewRegistry_def alloc_wf_def)

lemma registry_wf_steps:
  assumes "registry_wf st"
  shows "registry_wf (snd (Registry_Counter name st))" "registry_wf (snd (Registry_Gauge name st))"
    "registry_wf (snd (Registry_Histogram name st))"
  using assms
  by (auto simp: registry_wf_def Registry_Counter_def Registry_Gauge_def Registry_Histogram_def Let_def
      intro: alloc_wf_mono alloc_wf_fresh split: prod.splits option.splits)

lemma Registry_Counter_bound:
  "r_counters (fst (snd (Registry_Counter name st))) name = Some (fst (Registry_Counter name st))"
  by (auto simp: Registry_Counter_def Let_def split: prod.splits option.splits)

lemma Registry_Counter_keeps:
  "r_counters (fst st) k = Some a \<Longrightarrow> r_counters (fst (snd (Registry_Counter name st))) k = Some a"
  by (auto simp: Registry_Counter_def Let_def split: prod.splits option.splits)

section \<open>Properties\<close>

text \<open>
  C28: histograms.  With bucket bounds in increasing order, after any observations the running
  totals that the handler prints are, for each bound, the number of observations not above it,
  and for \<^verbatim>\<open>+Inf\<close> the total count; the totals wrap at 2^64 like the counters they are.
\<close>

theorem histogram_cumulative:
  assumes "sorted bs" and "bs \<noteq> []"
  shows "let h = fold Observe xs (NewHistogram bs) in
      cumulate 0 (h_counts h) = map (\<lambda>b. of_nat (length (filter (\<lambda>x. x \<le> b) xs))) bs @ [h_total h]
      \<and> h_total h = of_nat (length xs) \<and> h_sum h = sum_list xs"
proof -
  have "h_buckets (NewHistogram bs) = bs" "h_counts (NewHistogram bs) = spec_counts bs []"
    "h_total (NewHistogram bs) = 0" "h_sum (NewHistogram bs) = 0"
    using assms(2) by (simp_all add: NewHistogram_def spec_counts_Nil)
  with fold_Observe[OF this(1,2), of xs] cumulate_spec[OF assms(1), of 0 xs] show ?thesis by (simp add: Let_def)
qed

theorem histogram_cumulative_witness:
  "let h = fold Observe [7, 3, 9999] (NewHistogram defaultBuckets) in
      cumulate 0 (h_counts h) =
        map (\<lambda>b. of_nat (length (filter (\<lambda>x. x \<le> b) [7, 3, 9999]))) defaultBuckets @ [h_total h]
      \<and> h_total h = of_nat (length [7, 3, 9999 :: real]) \<and> h_sum h = sum_list [7, 3, 9999]"
  by (rule histogram_cumulative) (simp_all add: defaultBuckets_def)

text \<open>
  C32: the registry.  In a well-formed registry, as every new one is and every request leaves it,
  asking twice for a counter of one name gives the same address and changes nothing the second
  time, and counters of different names have different addresses.
\<close>

theorem registry_counters:
  assumes "registry_wf st" and "Registry_Counter name st = (a, st')" and "Registry_Counter name' st' = (a', st'')"
  shows "registry_wf st'' \<and> (a = a' \<longleftrightarrow> name = name') \<and> (if name = name' then st'' = st' else True)"
proof -
  have w: "registry_wf st'" "registry_wf st''" using registry_wf_steps(1)[OF assms(1), of name]
      registry_wf_steps(1)[of st' name'] assms(2,3) by simp_all
  have b: "r_counters (fst st') name = Some a" using Registry_Counter_bound[of name st] assms(2) by simp
  have same: "st'' = st' \<and> a' = a" if "name = name'"
    using that assms(3) b by (cases st') (simp add: Registry_Counter_def)
  have "r_counters (fst st'') name = Some a" "r_counters (fst st'') name' = Some a'"
    using Registry_Counter_keeps[OF b, of name'] Registry_Counter_bound[of name' st'] assms(3) by simp_all
  with w(2) have "a = a' \<Longrightarrow> name = name'"
    by (cases st'') (auto simp: registry_wf_def dest: alloc_wf_inj)
  with w same show ?thesis by auto
qed

definition ex_store :: metric_store where
  "ex_store = \<lparr> next_addr = 0, counter_at = (\<lambda>_. 0), gauge_at = (\<lambda>_. 0), histogram_at = (\<lambda>_. NewHistogram []) \<rparr>"

theorem registry_counters_witness:
  "let (a, st') = Registry_Counter ''hits'' (NewRegistry 0 ''svc'', ex_store);
       (a', st'') = Registry_Counter ''misses'' st'
   in registry_wf st'' \<and> (a = a' \<longleftrightarrow> ''hits'' = ''misses'') \<and> (if ''hits'' = ''misses'' then st'' = st' else True)"
  using registry_counters[OF registry_wf_new[of 0 "''svc''" ex_store], of "''hits''" _ _ "''misses''"]
  by (auto split: prod.splits)

lemma sint64_of_int: "sint (word_of_int k :: int64) = (k + 2 ^ 63) mod 2 ^ 64 - 2 ^ 63"
  using int_word_sint[of k, where 'a = 64] by simp

lemma Counter_Inc_pow: "(Counter_Inc ^^ n) v = v + of_nat n"
  by (induction n) (simp_all add: Counter_Inc_def add.assoc)

text \<open>
  Counters and gauges at their width.  A counter shows the number of its increments modulo
  2^64; a gauge after \<open>i\<close> increments and \<open>d\<close> decrements shows the difference, as long as that is
  in the range of a signed 64-bit integer.
\<close>

theorem counter_gauge_values:
  "uint (Counter_Value ((Counter_Inc ^^ n) 0)) = int n mod 2 ^ 64
   \<and> sint (Gauge_Value ((Gauge_Dec ^^ d) ((Gauge_Inc ^^ i) 0))) = (int i - int d + 2 ^ 63) mod 2 ^ 64 - 2 ^ 63"
proof -
  have inc: "(Gauge_Inc ^^ i) v = v + of_nat i" for v by (induction i) (simp_all add: Gauge_Inc_def add.assoc)
  have dec: "(Gauge_Dec ^^ d) v = v - of_nat d" for v
    by (induction d) (simp_all add: Gauge_Dec_def algebra_simps)
  have "(of_nat i - of_nat d :: int64) = word_of_int (int i - int d)" by simp
  then have "sint (Gauge_Value ((Gauge_Dec ^^ d) ((Gauge_Inc ^^ i) 0))) = (int i - int d + 2 ^ 63) mod 2 ^ 64 - 2 ^ 63"
    by (simp only: Gauge_Value_def inc dec add_0 sint64_of_int)
  moreover have "uint (Counter_Value ((Counter_Inc ^^ n) 0)) = int n mod 2 ^ 64"
    by (simp add: Counter_Value_def Counter_Inc_pow unsigned_of_nat take_bit_eq_mod zmod_int)
  ultimately show ?thesis by blast
qed

end
