(* ===== verification/AuditStore.thy ===== *)
theory AuditStore
  imports Models Signing Metrics
begin

text \<open>
  The audit service (\<^verbatim>\<open>services/audit-service\<close>): the store interface, the in-memory store, the
  statements the PostgreSQL store sends, and the HTTP handlers.  The interface is a locale,
  the in-memory store an instance of it.  Go leaves the capacity of a slice grown by \<^verbatim>\<open>append\<close>
  open; it is the argument \<open>cap\<close> of the query.  The database and the JSON encoder are arguments
  as well.
\<close>

section \<open>The in-memory store\<close>

record Memory =
  mem_entries :: "AuditEntry list"
  mem_secret :: string

definition NewMemory :: "string \<Rightarrow> Memory" where
  "NewMemory s = \<lparr> mem_entries = [], mem_secret = s \<rparr>"

definition with_signature :: "string \<Rightarrow> AuditEntry \<Rightarrow> AuditEntry" where
  "with_signature key e = (if ae_Signature e = [] then e\<lparr> ae_Signature := Sign key (ae_Payload e) \<rparr> else e)"

definition Insert :: "AuditEntry \<Rightarrow> Memory \<Rightarrow> go_error option \<times> Memory" where
  "Insert e m = (None, m\<lparr> mem_entries := mem_entries m @ [with_signature (mem_secret m) e] \<rparr>)"

definition entry_matches :: "AuditQuery \<Rightarrow> AuditEntry \<Rightarrow> bool" where
  "entry_matches q e \<longleftrightarrow>
     \<not> (aq_JobID q \<noteq> [] \<and> ae_JobID e \<noteq> aq_JobID q) \<and>
     \<not> (aq_EventType q \<noteq> [] \<and> ae_EventType e \<noteq> aq_EventType q) \<and>
     \<not> (aq_Actor q \<noteq> [] \<and> ae_Actor e \<noteq> aq_Actor q) \<and>
     \<not> (aq_Since q \<noteq> 0 \<and> ae_CreatedAt e < aq_Since q) \<and>
     \<not> (aq_Until q \<noteq> 0 \<and> ae_CreatedAt e > aq_Until q)"

definition zero_entry :: AuditEntry where
  "zero_entry = \<lparr> ae_ID = [], ae_JobID = [], ae_EventType = [], ae_Actor = [], ae_Payload = [],
                  ae_Signature = [], ae_CreatedAt = 0 \<rparr>"

text \<open>
  \<^verbatim>\<open>out[lo:hi]\<close> on a slice: the upper bound is checked against the capacity, not the length, and
  the elements beyond the length are zero values.
\<close>

definition slice_cap :: "'a \<Rightarrow> nat \<Rightarrow> 'a list \<Rightarrow> int \<Rightarrow> int \<Rightarrow> panic + 'a list" where
  "slice_cap z c xs lo hi =
     (if 0 \<le> lo \<and> lo \<le> hi \<and> hi \<le> int c
      then Inr (take (nat hi - nat lo) (drop (nat lo) (xs @ replicate (c - length xs) z)))
      else Inl SliceBounds)"

definition Query :: "(nat \<Rightarrow> nat) \<Rightarrow> AuditQuery \<Rightarrow> Memory \<Rightarrow> panic + AuditEntry list" where
  "Query cap q m =
     (let out = filter (entry_matches q) (mem_entries m);
          limit = (if aq_Limit q \<le> 0 \<or> aq_Limit q > int (length out) then int (length out) else aq_Limit q);
          offset = aq_Offset q
      in if offset \<ge> int (length out) then Inr []
         else slice_cap zero_entry (cap (length out)) out offset (offset + limit))"

definition mem_Verify :: "string \<Rightarrow> Memory \<Rightarrow> bool \<times> go_error option" where
  "mem_Verify i m =
     (case find (\<lambda>e. ae_ID e = i) (mem_entries m) of
        Some e \<Rightarrow> (Verify (mem_secret m) (ae_Payload e) (ae_Signature e), None)
      | None \<Rightarrow> (False, None))"

section \<open>The statements of the PostgreSQL store\<close>

text \<open>An argument of a statement.\<close>

datatype sql_arg = SqlText string | SqlTime int | SqlInt int

definition tabs :: "nat \<Rightarrow> string" where "tabs n = newline # replicate n (CHR 0x09)"

definition insert_stmt :: string where
  "insert_stmt =
     tabs 2 @ ''INSERT INTO audit_entries (id, job_id, event_type, actor, payload, signature, created_at)'' @
     tabs 2 @ ''VALUES ($1, $2, $3, $4, $5, $6, $7)''"

definition pg_Insert ::
  "(string \<Rightarrow> sql_arg list \<Rightarrow> 'db \<Rightarrow> go_error option \<times> 'db) \<Rightarrow> string \<Rightarrow> AuditEntry \<Rightarrow> 'db \<Rightarrow> go_error option \<times> 'db" where
  "pg_Insert exec key entry db =
     (let e = with_signature key entry
      in exec insert_stmt
           [SqlText (ae_ID e), SqlText (ae_JobID e), SqlText (ae_EventType e), SqlText (ae_Actor e),
            SqlText (ae_Payload e), SqlText (ae_Signature e), SqlTime (ae_CreatedAt e)] db)"

definition select_stmt :: string where
  "select_stmt =
     ''SELECT id, job_id, event_type, actor, payload, signature, created_at'' @
     tabs 1 @ replicate 10 (CHR '' '') @ ''FROM audit_entries WHERE 1=1''"

type_synonym statement = "string \<times> sql_arg list \<times> int"

text \<open>One optional clause: its text with the next placeholder, and its argument.\<close>

definition add_clause :: "bool \<Rightarrow> string \<Rightarrow> sql_arg \<Rightarrow> statement \<Rightarrow> statement" where
  "add_clause present txt arg st =
     (case st of (query, args, n) \<Rightarrow>
        if present then (query @ txt @ ''$'' @ fmt_d n, args @ [arg], n + 1) else (query, args, n))"

definition order_by :: "statement \<Rightarrow> statement" where
  "order_by st = (case st of (query, args, n) \<Rightarrow> (query @ '' ORDER BY created_at DESC'', args, n))"

definition query_stmt :: "AuditQuery \<Rightarrow> statement" where
  "query_stmt q =
     (add_clause (aq_Offset q > 0) '' OFFSET '' (SqlInt (aq_Offset q)) \<circ>
      add_clause (aq_Limit q > 0) '' LIMIT '' (SqlInt (aq_Limit q)) \<circ>
      order_by \<circ>
      add_clause (aq_Until q \<noteq> 0) '' AND created_at <= '' (SqlTime (aq_Until q)) \<circ>
      add_clause (aq_Since q \<noteq> 0) '' AND created_at >= '' (SqlTime (aq_Since q)) \<circ>
      add_clause (aq_Actor q \<noteq> []) '' AND actor = '' (SqlText (aq_Actor q)) \<circ>
      add_clause (aq_EventType q \<noteq> []) '' AND event_type = '' (SqlText (aq_EventType q)) \<circ>
      add_clause (aq_JobID q \<noteq> []) '' AND job_id = '' (SqlText (aq_JobID q)))
     (select_stmt, [], 1)"

text \<open>Reading the rows stops at the first one that cannot be scanned.\<close>

fun scan_rows :: "(go_error + AuditEntry) list \<Rightarrow> go_error + AuditEntry list" where
  "scan_rows [] = Inr []"
| "scan_rows (r # rs) =
     (case r of Inl err \<Rightarrow> Inl err
      | Inr e \<Rightarrow> (case scan_rows rs of Inl err \<Rightarrow> Inl err | Inr es \<Rightarrow> Inr (e # es)))"

text \<open>The database answers with an error, or with rows and the error that ended the iteration.\<close>

definition pg_Query ::
  "(string \<Rightarrow> sql_arg list \<Rightarrow> 'db \<Rightarrow> go_error + (go_error + AuditEntry) list \<times> go_error option) \<Rightarrow>
   AuditQuery \<Rightarrow> 'db \<Rightarrow> AuditEntry list \<times> go_error option" where
  "pg_Query query q db =
     (case query_stmt q of (txt, args, n) \<Rightarrow>
        (case query txt args db of
           Inl err \<Rightarrow> ([], Some err)
         | Inr (rows, end_err) \<Rightarrow>
             (case scan_rows rows of Inl err \<Rightarrow> ([], Some err) | Inr es \<Rightarrow> (es, end_err))))"

definition verify_stmt :: string where
  "verify_stmt = ''SELECT payload, signature FROM audit_entries WHERE id = $1''"

text \<open>\<open>Inr None\<close> is \<^verbatim>\<open>sql.ErrNoRows\<close>.\<close>

definition pg_Verify ::
  "(string \<Rightarrow> sql_arg list \<Rightarrow> 'db \<Rightarrow> go_error + (string \<times> string) option) \<Rightarrow>
   string \<Rightarrow> string \<Rightarrow> 'db \<Rightarrow> bool \<times> go_error option" where
  "pg_Verify queryRow key i db =
     (case queryRow verify_stmt [SqlText i] db of
        Inr None \<Rightarrow> (False, None)
      | Inl err \<Rightarrow> (False, Some err)
      | Inr (Some (payload, storedSig)) \<Rightarrow> (Verify key payload storedSig, None))"

section \<open>The interface\<close>

text \<open>
  What the handlers rely on: a store keeps, for each identifier, the first entry inserted under
  it, signed if it came without a signature, and verification recomputes the signature of the
  kept payload.  Entries may be kept with another time stamp (\<open>keep\<close>), and both operations may fail.
\<close>

locale audit_store =
  fixes insert :: "AuditEntry \<Rightarrow> 's \<Rightarrow> go_error option \<times> 's"
    and verify :: "string \<Rightarrow> 's \<Rightarrow> bool \<times> go_error option"
    and lookup :: "'s \<Rightarrow> string \<Rightarrow> AuditEntry option"
    and key :: "'s \<Rightarrow> string"
    and keep :: "AuditEntry \<Rightarrow> AuditEntry"
  assumes insert_ok: "fst (insert e s) = None \<Longrightarrow>
            lookup (snd (insert e s)) i =
              (case lookup s i of Some x \<Rightarrow> Some x | None \<Rightarrow> if i = ae_ID e then Some (keep (with_signature (key s) e)) else None)"
    and keep_signed: "ae_Payload (keep e) = ae_Payload e" "ae_Signature (keep e) = ae_Signature e"
    and insert_key: "key (snd (insert e s)) = key s"
    and insert_fails: "fst (insert e s) \<noteq> None \<Longrightarrow> lookup (snd (insert e s)) i = lookup s i"
    and verify_error: "snd (verify i s) \<noteq> None \<Longrightarrow> \<not> fst (verify i s)"
    and verify_kept: "snd (verify i s) = None \<Longrightarrow> verify i s =
          (case lookup s i of Some e \<Rightarrow> (Verify (key s) (ae_Payload e) (ae_Signature e), None) | None \<Rightarrow> (False, None))"
begin

definition all_valid :: "'s \<Rightarrow> bool" where
  "all_valid s \<longleftrightarrow> (\<forall>i e. lookup s i = Some e \<longrightarrow> ae_Signature e = Sign (key s) (ae_Payload e))"

lemma insert_keeps: "lookup s i = Some x \<Longrightarrow> lookup (snd (insert e s)) i = Some x"
  using insert_ok[of e s i] insert_fails[of e s i] by (cases "fst (insert e s) = None") auto

lemma insert_all_valid:
  assumes "all_valid s" and "ae_Signature e = []"
  shows "all_valid (snd (insert e s))"
proof (cases "fst (insert e s) = None")
  case True
  with assms show ?thesis
    by (auto simp: all_valid_def insert_ok insert_key keep_signed with_signature_def split: option.splits if_splits)
next
  case False
  with assms show ?thesis by (simp add: all_valid_def insert_fails insert_key)
qed

lemma verify_iff:
  "fst (verify i s) \<longleftrightarrow> snd (verify i s) = None \<and> (\<exists>e. lookup s i = Some e \<and> ae_Signature e = Sign (key s) (ae_Payload e))"
  using verify_error[of i s] verify_kept[of i s]
  by (cases "snd (verify i s) = None") (auto simp: Verify_def hmac_Equal_iff split: option.splits)

text \<open>A history of inserts, latest first.\<close>

definition filled :: "AuditEntry list \<Rightarrow> 's \<Rightarrow> 's" where
  "filled es s = foldr (\<lambda>e s. snd (insert e s)) es s"

lemma filled_simps: "filled [] s = s" "filled (e # es) s = snd (insert e (filled es s))"
  by (simp_all add: filled_def)

lemma filled_valid: "all_valid s \<Longrightarrow> list_all (\<lambda>e. ae_Signature e = []) es \<Longrightarrow> all_valid (filled es s)"
  by (induction es) (auto simp: filled_def insert_all_valid)

lemma filled_keeps: "lookup s i = Some x \<Longrightarrow> lookup (filled es s) i = Some x"
  by (induction es) (auto simp: filled_def insert_keeps)

lemma filled_key: "key (filled es s) = key s"
  by (induction es) (auto simp: filled_def insert_key)

lemma filled_verifies:
  assumes "all_valid s" and "list_all (\<lambda>e. ae_Signature e = []) es" and "snd (verify i (filled es s)) = None"
  shows "fst (verify i (filled es s)) \<longleftrightarrow> lookup (filled es s) i \<noteq> None"
  using filled_valid[OF assms(1,2)] assms(3) by (auto simp: verify_iff all_valid_def)

end

definition mem_lookup :: "Memory \<Rightarrow> string \<Rightarrow> AuditEntry option" where
  "mem_lookup m i = find (\<lambda>e. ae_ID e = i) (mem_entries m)"

lemma ae_ID_with_signature [simp]: "ae_ID (with_signature k e) = ae_ID e"
  by (simp add: with_signature_def)

interpretation memory: audit_store Insert mem_Verify mem_lookup mem_secret "\<lambda>e. e"
  by unfold_locales
     (auto simp: Insert_def mem_Verify_def mem_lookup_def find_append split: option.splits)

section \<open>The service\<close>

text \<open>A decoded JSON value is a string or something else.\<close>

datatype json_val = JString string | JOther

record 's AuditService =
  as_store :: 's
  as_entriesInserted :: uint64
  as_entriesVerified :: uint64
  as_verifyFailed :: uint64

text \<open>\<^verbatim>\<open>v, _ := payload[k].(string)\<close>\<close>

definition string_field :: "(string \<rightharpoonup> json_val) \<Rightarrow> string \<Rightarrow> string" where
  "string_field payload k = (case payload k of Some (JString s) \<Rightarrow> s | _ \<Rightarrow> [])"

definition newID :: "string \<Rightarrow> string" where
  "newID random_bytes = EncodeToString random_bytes"

definition audit_entry :: "((string \<rightharpoonup> json_val) \<Rightarrow> string) \<Rightarrow> string \<Rightarrow> int \<Rightarrow> (string \<rightharpoonup> json_val) \<Rightarrow> AuditEntry" where
  "audit_entry marshal rand_bytes now payload =
     \<lparr> ae_ID = newID rand_bytes, ae_JobID = string_field payload ''job_id'',
       ae_EventType = string_field payload ''event_type'', ae_Actor = string_field payload ''actor'',
       ae_Payload = marshal payload, ae_Signature = [], ae_CreatedAt = now \<rparr>"

text \<open>\<^verbatim>\<open>POST /api/v1/entries\<close>; the body is given decoded, or as the decoding error.\<close>

definition post_entries ::
  "((string \<rightharpoonup> json_val) \<Rightarrow> string) \<Rightarrow> (AuditEntry \<Rightarrow> string) \<Rightarrow>
   (AuditEntry \<Rightarrow> 's \<Rightarrow> go_error option \<times> 's) \<Rightarrow> string \<Rightarrow> int \<Rightarrow>
   go_error + (string \<rightharpoonup> json_val) \<Rightarrow> 's AuditService \<Rightarrow> Response \<times> 's AuditService" where
  "post_entries marshal encode ins rand_bytes now body svc =
     (case body of
        Inl err \<Rightarrow> (http_Error ''invalid body'' StatusBadRequest new_response, svc)
      | Inr payload \<Rightarrow>
          let entry = audit_entry marshal rand_bytes now payload
          in case ins entry (as_store svc) of
               (Some err, s') \<Rightarrow>
                 (http_Error ''store error'' StatusInternalServerError new_response, svc\<lparr> as_store := s' \<rparr>)
             | (None, s') \<Rightarrow>
                 (write_body (encode entry) (WriteHeader StatusCreated (json_type new_response)),
                  svc\<lparr> as_store := s', as_entriesInserted := Counter_Inc (as_entriesInserted svc) \<rparr>))"

text \<open>\<^verbatim>\<open>GET /api/v1/entries\<close>; \<open>param\<close> reads the URL query, empty for an absent parameter.\<close>

definition audit_query :: "(string \<Rightarrow> string) \<Rightarrow> AuditQuery" where
  "audit_query param =
     (let limit = fst (Atoi (param ''limit'')); offset = fst (Atoi (param ''offset''))
      in \<lparr> aq_JobID = param ''job_id'', aq_EventType = param ''event_type'', aq_Actor = param ''actor'',
           aq_Since = 0, aq_Until = 0, aq_Limit = (if limit = 0 then 50 else limit), aq_Offset = offset \<rparr>)"

definition get_entries ::
  "(AuditEntry list \<Rightarrow> string) \<Rightarrow> (AuditQuery \<Rightarrow> 's \<Rightarrow> panic + AuditEntry list \<times> go_error option) \<Rightarrow>
   (string \<Rightarrow> string) \<Rightarrow> 's AuditService \<Rightarrow> panic + Response" where
  "get_entries encode query param svc =
     (case query (audit_query param) (as_store svc) of
        Inl p \<Rightarrow> Inl p
      | Inr (es, Some err) \<Rightarrow> Inr (http_Error ''query error'' StatusInternalServerError new_response)
      | Inr (es, None) \<Rightarrow> Inr (write_body (encode es) (json_type new_response)))"

text \<open>\<^verbatim>\<open>GET /api/v1/entries/{id}/verify\<close>\<close>

definition verify_entry ::
  "(string \<Rightarrow> bool \<Rightarrow> string) \<Rightarrow> (string \<Rightarrow> 's \<Rightarrow> bool \<times> go_error option) \<Rightarrow> string \<Rightarrow>
   's AuditService \<Rightarrow> Response \<times> 's AuditService" where
  "verify_entry encode verify i svc =
     (case verify i (as_store svc) of
        (ok, Some err) \<Rightarrow> (http_Error ''verify error'' StatusInternalServerError new_response, svc)
      | (ok, None) \<Rightarrow>
          (write_body (encode i ok) (json_type new_response),
           svc\<lparr> as_entriesVerified := Counter_Inc (as_entriesVerified svc),
                as_verifyFailed := (if \<not> ok then Counter_Inc (as_verifyFailed svc) else as_verifyFailed svc) \<rparr>))"

definition mem_Query_op :: "(nat \<Rightarrow> nat) \<Rightarrow> AuditQuery \<Rightarrow> Memory \<Rightarrow> panic + AuditEntry list \<times> go_error option" where
  "mem_Query_op cap q m = (case Query cap q m of Inl p \<Rightarrow> Inl p | Inr es \<Rightarrow> Inr (es, None))"

section \<open>Properties\<close>

lemma Insert_ok: "fst (Insert e m) = None"
  by (simp add: Insert_def)

lemma Memory_all_valid_new: "memory.all_valid (NewMemory k)"
  by (simp add: memory.all_valid_def mem_lookup_def NewMemory_def)

text \<open>The identifiers kept after a history of inserts, latest first, and what verifies.\<close>

lemma memory_ids: "mem_lookup (memory.filled es (NewMemory k)) i = None \<longleftrightarrow> i \<notin> ae_ID ` set es"
proof (induction es)
  case Nil
  show ?case by (simp add: memory.filled_simps mem_lookup_def NewMemory_def)
next
  case (Cons e es)
  then show ?case
    by (auto simp: memory.filled_simps memory.insert_ok[OF Insert_ok] split: option.splits)
qed

lemma memory_verifies:
  assumes "list_all (\<lambda>e. ae_Signature e = []) es"
  shows "mem_Verify i (memory.filled es (NewMemory k)) = (i \<in> ae_ID ` set es, None)"
proof -
  let ?m = "memory.filled es (NewMemory k)"
  have "snd (mem_Verify i ?m) = None" by (simp add: mem_Verify_def split: option.splits)
  with memory.filled_verifies[OF Memory_all_valid_new assms this] memory_ids[of es k i] show ?thesis by (simp add: prod_eq_iff)
qed

text \<open>
  Every recorded entry verifies.  After any sequence of posts whose entries came without a
  signature, an identifier verifies exactly when an entry was inserted under it, and the entry
  kept for it is never replaced by later inserts.
\<close>

theorem audit_verifies:
  assumes "list_all (\<lambda>e. ae_Signature e = []) es"
  shows "(fst (mem_Verify i (foldr (\<lambda>e m. snd (Insert e m)) es (NewMemory k))) \<longleftrightarrow> i \<in> ae_ID ` set es)
    \<and> snd (mem_Verify i (foldr (\<lambda>e m. snd (Insert e m)) es (NewMemory k))) = None
    \<and> (case mem_lookup (foldr (\<lambda>e m. snd (Insert e m)) es (NewMemory k)) i of
         None \<Rightarrow> True
       | Some x \<Rightarrow> mem_lookup (foldr (\<lambda>e m. snd (Insert e m)) (later @ es) (NewMemory k)) i = Some x)"
proof -
  let ?m = "memory.filled es (NewMemory k)"
  have "mem_lookup (memory.filled (later @ es) (NewMemory k)) i = Some x" if "mem_lookup ?m i = Some x" for x
    using memory.filled_keeps[OF that, of later] by (simp add: memory.filled_def)
  with memory_verifies[OF assms, of i k] show ?thesis by (auto simp: memory.filled_def split: option.splits)
qed

definition ex_entry :: "string \<Rightarrow> AuditEntry" where
  "ex_entry i = zero_entry\<lparr> ae_ID := i, ae_Payload := ''{}'' \<rparr>"

theorem audit_verifies_witness:
  "fst (mem_Verify ''a'' (foldr (\<lambda>e m. snd (Insert e m)) [ex_entry ''b'', ex_entry ''a''] (NewMemory ''k'')))"
  using audit_verifies[of "[ex_entry ''b'', ex_entry ''a'']" "''a''" "''k''" "[]"]
  by (simp add: ex_entry_def zero_entry_def)

text \<open>
  Recording an event.  A well-formed post to the in-memory service is answered with status
  201 and counted; the entry stored for the new identifier is signed and verifies, while the
  entry in the answer carries an empty signature.  A body that cannot be decoded is answered
  with status 400 and changes nothing.
\<close>

theorem post_entries_memory:
  assumes "mem_lookup (as_store svc) (newID bs) = None"
  shows "(case post_entries marshal encode Insert bs now (Inr payload) svc of (w, svc') \<Rightarrow>
      status_of w = 201 \<and> rs_body w = encode (audit_entry marshal bs now payload)
      \<and> ae_Signature (audit_entry marshal bs now payload) = []
      \<and> as_entriesInserted svc' = as_entriesInserted svc + 1
      \<and> mem_lookup (as_store svc') (newID bs) =
          Some ((audit_entry marshal bs now payload)\<lparr> ae_Signature := Sign (mem_secret (as_store svc)) (marshal payload) \<rparr>)
      \<and> mem_Verify (newID bs) (as_store svc') = (True, None))
    \<and> post_entries marshal encode Insert bs now (Inl err) svc = (http_Error ''invalid body'' 400 new_response, svc)"
proof -
  let ?e = "audit_entry marshal bs now payload"
  let ?m = "snd (Insert ?e (as_store svc))"
  have e: "ae_ID ?e = newID bs" "ae_Signature ?e = []" "ae_Payload ?e = marshal payload"
    by (simp_all add: audit_entry_def)
  have l: "mem_lookup ?m (newID bs) = Some (?e\<lparr> ae_Signature := Sign (mem_secret (as_store svc)) (marshal payload) \<rparr>)"
    using assms memory.insert_ok[of ?e "as_store svc" "newID bs"] e by (simp add: Insert_ok with_signature_def)
  moreover have "mem_Verify (newID bs) ?m = (True, None)"
    using l e(3) memory.insert_key[of ?e "as_store svc"] by (simp add: mem_Verify_def mem_lookup_def Verify_def hmac_Equal_iff)
  moreover have "post_entries marshal encode Insert bs now (Inr payload) svc =
      (write_body (encode ?e) (WriteHeader StatusCreated (json_type new_response)),
       svc\<lparr> as_store := ?m, as_entriesInserted := Counter_Inc (as_entriesInserted svc) \<rparr>)"
    using Insert_ok[of ?e "as_store svc"] by (auto simp: post_entries_def Let_def split: prod.splits)
  ultimately show ?thesis
    using e(2) by (simp add: StatusCreated_def Counter_Inc_def post_entries_def StatusBadRequest_def)
qed

definition ex_service :: "Memory AuditService" where
  "ex_service = \<lparr> as_store = NewMemory ''k'', as_entriesInserted = 0, as_entriesVerified = 0, as_verifyFailed = 0 \<rparr>"

theorem post_entries_memory_witness:
  "status_of (fst (post_entries (\<lambda>_. ''{}'') ae_ID Insert ''0123456789abcdef'' 7 (Inr Map.empty) ex_service)) = 201"
proof -
  have "mem_lookup (as_store ex_service) (newID ''0123456789abcdef'') = None"
    by (simp add: ex_service_def NewMemory_def mem_lookup_def)
  from post_entries_memory[OF this, where marshal = "\<lambda>_. ''{}''" and encode = ae_ID
      and now = 7 and payload = Map.empty and err = ContextCanceled] show ?thesis
    by (simp split: prod.splits)
qed

lemma slice_cap_prefix:
  "0 \<le> lo \<Longrightarrow> lo \<le> hi \<Longrightarrow> hi \<le> int (length xs) \<Longrightarrow> length xs \<le> c \<Longrightarrow>
     slice_cap z c xs lo hi = Inr (take (nat (hi - lo)) (drop (nat lo) xs))"
  by (simp add: slice_cap_def nat_diff_distrib')

lemma slice_cap_beyond:
  "0 \<le> lo \<Longrightarrow> lo \<le> int (length xs) \<Longrightarrow> int (length xs) \<le> hi \<Longrightarrow> hi \<le> int c \<Longrightarrow>
     slice_cap z c xs lo hi = Inr (drop (nat lo) xs @ replicate (nat hi - length xs) z)"
  by (simp add: slice_cap_def take_append nat_le_iff)

text \<open>
  C34: pages of the in-memory store.  With \<open>n\<close> matching entries a query gives the requested page
  when it lies within them, and nothing when it starts behind them.  A page that starts inside
  and ends outside (every page but the first, when the limit is not below \<open>n\<close>, because the limit
  is cut down to \<open>n\<close> and not to \<open>n\<close> minus the offset) ends in blank entries or in a run-time panic,
  depending on the capacity of the slice; a negative offset always panics.
\<close>

theorem Query_pages:
  fixes q :: AuditQuery and m :: Memory and cap :: "nat \<Rightarrow> nat"
  defines "out \<equiv> filter (entry_matches q) (mem_entries m)"
  defines "limit \<equiv> (if aq_Limit q \<le> 0 then int (length out) else min (aq_Limit q) (int (length out)))"
  assumes "length out \<le> cap (length out)"
  shows "Query cap q m =
    (if aq_Offset q \<ge> int (length out) then Inr []
     else if aq_Offset q < 0 then Inl SliceBounds
     else if aq_Offset q + limit \<le> int (length out) then Inr (take (nat limit) (drop (nat (aq_Offset q)) out))
     else if aq_Offset q + limit \<le> int (cap (length out))
     then Inr (drop (nat (aq_Offset q)) out @ replicate (nat (aq_Offset q + limit) - length out) zero_entry)
     else Inl SliceBounds)"
proof -
  have limit: "(if aq_Limit q \<le> 0 \<or> aq_Limit q > int (length out) then int (length out) else aq_Limit q) = limit"
    by (simp add: limit_def)
  have "0 \<le> limit" by (simp add: limit_def)
  have "Query cap q m = (if aq_Offset q \<ge> int (length out) then Inr []
      else slice_cap zero_entry (cap (length out)) out (aq_Offset q) (aq_Offset q + limit))"
    unfolding Query_def out_def[symmetric] Let_def limit ..
  then show ?thesis
    using assms(3) \<open>0 \<le> limit\<close> slice_cap_prefix[of "aq_Offset q" "aq_Offset q + limit" out "cap (length out)" zero_entry]
      slice_cap_beyond[of "aq_Offset q" out "aq_Offset q + limit" "cap (length out)" zero_entry]
    by (auto simp: slice_cap_def)
qed

text \<open>The default page size and a second page: one entry is skipped, and a blank one appears.\<close>

definition ex_page :: "int \<Rightarrow> AuditQuery" where
  "ex_page offset = \<lparr> aq_JobID = [], aq_EventType = [], aq_Actor = [], aq_Since = 0, aq_Until = 0,
     aq_Limit = 50, aq_Offset = offset \<rparr>"

definition doubling :: "nat \<Rightarrow> nat" where
  "doubling n = (if n \<le> 2 then n else if n \<le> 4 then 4 else 2 * n)"

theorem Query_pages_witness:
  "Query doubling (ex_page 1) \<lparr> mem_entries = [ex_entry ''a'', ex_entry ''b'', ex_entry ''c''], mem_secret = ''k'' \<rparr> =
     Inr [ex_entry ''b'', ex_entry ''c'', zero_entry]
   \<and> Query doubling (ex_page 1) \<lparr> mem_entries = [ex_entry ''a'', ex_entry ''b''], mem_secret = ''k'' \<rparr> = Inl SliceBounds"
  by (subst (1 2) Query_pages) (simp_all add: ex_page_def doubling_def entry_matches_def)

section \<open>The PostgreSQL store\<close>

text \<open>
  What the store relies on of the database: the insert statement either fails and changes nothing, or
  adds the row of its arguments, which it does only for a new identifier (the column is the
  primary key), with the time stamp rounded to the precision of the column; the select statement
  fails, or gives payload and signature of the row with the identifier.  \<open>rows\<close> is the content of the
  table, \<open>roundtime\<close> the rounding.
\<close>

definition sql_insert_law ::
  "(string \<Rightarrow> sql_arg list \<Rightarrow> 'db \<Rightarrow> go_error option \<times> 'db) \<Rightarrow> (int \<Rightarrow> int) \<Rightarrow> ('db \<Rightarrow> AuditEntry list) \<Rightarrow> bool" where
  "sql_insert_law exec roundtime rows \<longleftrightarrow>
     (\<forall>db i j t a p s c.
        case exec insert_stmt [SqlText i, SqlText j, SqlText t, SqlText a, SqlText p, SqlText s, SqlTime c] db of
          (Some err, db') \<Rightarrow> rows db' = rows db
        | (None, db') \<Rightarrow> i \<notin> ae_ID ` set (rows db)
            \<and> rows db' = rows db @ [\<lparr> ae_ID = i, ae_JobID = j, ae_EventType = t, ae_Actor = a, ae_Payload = p, ae_Signature = s,
                                        ae_CreatedAt = roundtime c \<rparr>])"

definition sql_select_law ::
  "(string \<Rightarrow> sql_arg list \<Rightarrow> 'db \<Rightarrow> go_error + (string \<times> string) option) \<Rightarrow> ('db \<Rightarrow> AuditEntry list) \<Rightarrow> bool" where
  "sql_select_law queryRow rows \<longleftrightarrow>
     (\<forall>db i. case queryRow verify_stmt [SqlText i] db of
               Inl err \<Rightarrow> True
             | Inr found \<Rightarrow> found = map_option (\<lambda>e. (ae_Payload e, ae_Signature e)) (find (\<lambda>e. ae_ID e = i) (rows db)))"

lemma pg_Insert_cases:
  assumes "sql_insert_law exec roundtime rows"
  shows "case pg_Insert exec k e db of
      (Some err, db') \<Rightarrow> rows db' = rows db
    | (None, db') \<Rightarrow> ae_ID e \<notin> ae_ID ` set (rows db)
        \<and> rows db' = rows db @ [(with_signature k e)\<lparr> ae_CreatedAt := roundtime (ae_CreatedAt e) \<rparr>]"
proof -
  let ?e = "with_signature k e"
  have "\<lparr> ae_ID = ae_ID ?e, ae_JobID = ae_JobID ?e, ae_EventType = ae_EventType ?e, ae_Actor = ae_Actor ?e, ae_Payload = ae_Payload ?e,
      ae_Signature = ae_Signature ?e, ae_CreatedAt = roundtime (ae_CreatedAt ?e) \<rparr> = ?e\<lparr> ae_CreatedAt := roundtime (ae_CreatedAt ?e) \<rparr>" by simp
  moreover have "ae_CreatedAt ?e = ae_CreatedAt e" by (simp add: with_signature_def)
  ultimately show ?thesis
    using assms[unfolded sql_insert_law_def, THEN spec[of _ db], THEN spec[of _ "ae_ID ?e"], THEN spec[of _ "ae_JobID ?e"],
        THEN spec[of _ "ae_EventType ?e"], THEN spec[of _ "ae_Actor ?e"], THEN spec[of _ "ae_Payload ?e"],
        THEN spec[of _ "ae_Signature ?e"], THEN spec[of _ "ae_CreatedAt ?e"]]
    by (auto simp: pg_Insert_def Let_def split: prod.splits option.splits)
qed

text \<open>Under these laws the store keeps the contract of the interface.\<close>

lemma pg_audit_store:
  assumes ins: "sql_insert_law exec roundtime rows" and sel: "sql_select_law queryRow rows"
  shows "audit_store (pg_Insert exec k) (pg_Verify queryRow k) (\<lambda>db i. find (\<lambda>e. ae_ID e = i) (rows db)) (\<lambda>db. k)
           (\<lambda>e. e\<lparr> ae_CreatedAt := roundtime (ae_CreatedAt e) \<rparr>)"
proof (unfold_locales, goal_cases)
  case (1 e s i)
  then show ?case
    using pg_Insert_cases[OF ins, where k = k and e = e and db = s] by (auto simp: find_append with_signature_def split: option.splits prod.splits)
next
  case (5 e s i)
  then show ?case using pg_Insert_cases[OF ins, where k = k and e = e and db = s] by (auto split: option.splits prod.splits)
next
  case (6 i s)
  then show ?case by (auto simp: pg_Verify_def split: sum.splits option.splits)
next
  case (7 i s)
  then show ?case
    using sel[unfolded sql_select_law_def, THEN spec[of _ s], THEN spec[of _ i]]
    by (auto simp: pg_Verify_def split: sum.splits option.splits)
qed simp_all

text \<open>
  C14: The PostgreSQL store verifies what it holds.  With a database that keeps its laws, after any
  sequence of inserts of unsigned entries into an empty table, whichever of them fail, an
  identifier that can be looked up verifies exactly when the table holds it; no identifier is held
  twice, because a second insert under it fails; and rows are never lost by later inserts.
\<close>

theorem postgres_verifies:
  assumes ins: "sql_insert_law exec roundtime rows" and sel: "sql_select_law queryRow rows"
    and "rows db = []" and "list_all (\<lambda>e. ae_Signature e = []) es"
  shows "case foldr (\<lambda>e d. snd (pg_Insert exec k e d)) es db of db' \<Rightarrow>
      (snd (pg_Verify queryRow k i db') = None \<longrightarrow> fst (pg_Verify queryRow k i db') = (i \<in> ae_ID ` set (rows db')))
      \<and> distinct (map ae_ID (rows db'))
      \<and> (ae_ID e \<in> ae_ID ` set (rows db') \<longrightarrow> fst (pg_Insert exec k e db') \<noteq> None)
      \<and> prefix (rows db') (rows (foldr (\<lambda>e d. snd (pg_Insert exec k e d)) later db'))"
proof -
  note st = pg_audit_store[OF ins sel, of k]
  let ?put = "\<lambda>es d. foldr (\<lambda>e d. snd (pg_Insert exec k e d)) es d"
  note step = pg_Insert_cases[OF ins, where k = k]
  have filled: "audit_store.filled (pg_Insert exec k) es d = ?put es d" for es d
    by (simp add: audit_store.filled_def[OF st])
  have empty: "audit_store.all_valid (\<lambda>db i. find (\<lambda>e. ae_ID e = i) (rows db)) (\<lambda>db. k) db"
    using assms(3) by (simp add: audit_store.all_valid_def[OF st])
  have dist: "distinct (map ae_ID (rows (?put es db)))" for es
  proof (induction es)
    case (Cons e es)
    then show ?case using step[of e "?put es db"] by (auto split: prod.splits option.splits)
  qed (use assms(3) in simp)
  have pre: "prefix (rows d) (rows (?put later d))" for d
  proof (induction later)
    case (Cons e es)
    then show ?case using step[of e "?put es d"] by (auto split: prod.splits option.splits)
  qed simp
  have "fst (pg_Verify queryRow k i (?put es db)) = (find (\<lambda>e. ae_ID e = i) (rows (?put es db)) \<noteq> None)"
    if "snd (pg_Verify queryRow k i (?put es db)) = None"
    using audit_store.filled_verifies[OF st empty assms(4)] that unfolding filled by blast
  moreover have "find (\<lambda>e. ae_ID e = i) xs \<noteq> None \<longleftrightarrow> i \<in> ae_ID ` set xs" for xs :: "AuditEntry list"
    by (auto simp: find_None_iff)
  moreover have "fst (pg_Insert exec k e d) \<noteq> None" if "ae_ID e \<in> ae_ID ` set (rows d)" for d
    using step[of e d] that by (auto split: prod.splits option.splits)
  ultimately show ?thesis using dist[of es] pre by simp
qed

text \<open>A table that keeps the laws: a list of rows with whole-microsecond times.\<close>

definition list_exec :: "string \<Rightarrow> sql_arg list \<Rightarrow> AuditEntry list \<Rightarrow> go_error option \<times> AuditEntry list" where
  "list_exec stmt args rows =
     (case args of
        [SqlText i, SqlText j, SqlText t, SqlText a, SqlText p, SqlText s, SqlTime c] \<Rightarrow>
          if i \<in> ae_ID ` set rows then (Some (ErrorString ''duplicate key''), rows)
          else (None, rows @ [\<lparr> ae_ID = i, ae_JobID = j, ae_EventType = t, ae_Actor = a, ae_Payload = p, ae_Signature = s,
                                ae_CreatedAt = 1000 * (c div 1000) \<rparr>])
      | _ \<Rightarrow> (Some (ErrorString ''syntax''), rows))"

definition list_queryRow :: "string \<Rightarrow> sql_arg list \<Rightarrow> AuditEntry list \<Rightarrow> go_error + (string \<times> string) option" where
  "list_queryRow stmt args rows =
     (case args of
        [SqlText i] \<Rightarrow> Inr (map_option (\<lambda>e. (ae_Payload e, ae_Signature e)) (find (\<lambda>e. ae_ID e = i) rows))
      | _ \<Rightarrow> Inl (ErrorString ''syntax''))"

lemma list_table_laws:
  "sql_insert_law list_exec (\<lambda>c. 1000 * (c div 1000)) (\<lambda>rows. rows)" "sql_select_law list_queryRow (\<lambda>rows. rows)"
  by (auto simp: sql_insert_law_def sql_select_law_def list_exec_def list_queryRow_def split: if_splits)

theorem postgres_verifies_witness:
  "let db = foldr (\<lambda>e d. snd (pg_Insert list_exec ''k'' e d)) [ex_entry ''a'', ex_entry ''b'', ex_entry ''a''] [] in
     fst (pg_Verify list_queryRow ''k'' ''a'' db) \<and> distinct (map ae_ID db) \<and> fst (pg_Insert list_exec ''k'' (ex_entry ''b'') db) \<noteq> None"
  using postgres_verifies[OF list_table_laws, of "[]" "[ex_entry ''a'', ex_entry ''b'', ex_entry ''a'']" "''k''" "''a''" "ex_entry ''b''" "[]"]
  by (simp add: ex_entry_def zero_entry_def pg_Insert_def pg_Verify_def list_exec_def list_queryRow_def with_signature_def)

section \<open>Statements are free of user text\<close>

text \<open>Which clauses a query has.\<close>

definition query_shape :: "AuditQuery \<Rightarrow> bool list" where
  "query_shape q = [aq_JobID q \<noteq> [], aq_EventType q \<noteq> [], aq_Actor q \<noteq> [], aq_Since q \<noteq> 0, aq_Until q \<noteq> 0,
     aq_Limit q > 0, aq_Offset q > 0]"

text \<open>
  The clauses a query asks for, each with the value it is about: the conditions, and what follows the
  ordering.  \<open>clauses k cs\<close> writes them with placeholders numbered from \<open>k\<close> on.
\<close>

definition optional :: "bool \<Rightarrow> 'a \<Rightarrow> 'a list" where
  "optional b x = (if b then [x] else [])"

definition conditions :: "AuditQuery \<Rightarrow> (string \<times> sql_arg) list" where
  "conditions q =
     optional (aq_JobID q \<noteq> []) ('' AND job_id = '', SqlText (aq_JobID q)) @
     optional (aq_EventType q \<noteq> []) ('' AND event_type = '', SqlText (aq_EventType q)) @
     optional (aq_Actor q \<noteq> []) ('' AND actor = '', SqlText (aq_Actor q)) @
     optional (aq_Since q \<noteq> 0) ('' AND created_at >= '', SqlTime (aq_Since q)) @
     optional (aq_Until q \<noteq> 0) ('' AND created_at <= '', SqlTime (aq_Until q))"

definition page_clauses :: "AuditQuery \<Rightarrow> (string \<times> sql_arg) list" where
  "page_clauses q =
     optional (aq_Limit q > 0) ('' LIMIT '', SqlInt (aq_Limit q)) @
     optional (aq_Offset q > 0) ('' OFFSET '', SqlInt (aq_Offset q))"

definition clauses :: "nat \<Rightarrow> (string \<times> sql_arg) list \<Rightarrow> string" where
  "clauses k cs = concat (map (\<lambda>(i, t, a). t @ ''$'' @ fmt_d (int i)) (enumerate k cs))"

lemma clauses_simps:
  "clauses k [] = []" "clauses k ((t, a) # cs) = t @ ''$'' @ fmt_d (int k) @ clauses (Suc k) cs"
  "clauses k (cs @ ds) = clauses k cs @ clauses (k + length cs) ds"
  by (simp_all add: clauses_def enumerate_append_eq)

definition built :: "string \<Rightarrow> (string \<times> sql_arg) list \<Rightarrow> statement" where
  "built txt cs = (txt, map snd cs, int (length cs) + 1)"

lemma built_steps:
  "add_clause b t a (built txt cs) = built (txt @ clauses (Suc (length cs)) (optional b (t, a))) (cs @ optional b (t, a))"
  "order_by (built txt cs) = built (txt @ '' ORDER BY created_at DESC'') cs"
  "(select_stmt, [], 1) = built select_stmt []"
  by (simp_all add: add_clause_def order_by_def built_def optional_def clauses_simps add.commute)

lemma query_stmt_layout:
  "query_stmt q =
     built (select_stmt @ clauses 1 (conditions q) @ '' ORDER BY created_at DESC'' @ clauses (Suc (length (conditions q))) (page_clauses q))
       (conditions q @ page_clauses q)"
  unfolding query_stmt_def o_def built_steps conditions_def page_clauses_def
  by (simp only: clauses_simps(3) append.assoc append_Nil length_append list.size One_nat_def add_Suc add_0 add.assoc)

text \<open>The numbers of the placeholders in a text, in their order.\<close>

definition is_digit :: "char \<Rightarrow> bool" where
  "is_digit c \<longleftrightarrow> c \<in> set ''0123456789''"

fun placeholders :: "string \<Rightarrow> string list" where
  "placeholders [] = []"
| "placeholders (c # s) = (if c = CHR ''$'' then [takeWhile is_digit s] else []) @ placeholders s"

lemma placeholders_skip: "CHR ''$'' \<notin> set t \<Longrightarrow> placeholders (t @ s) = placeholders s"
  by (induction t) auto

lemma placeholders_number:
  assumes "\<not> is_digit (hd (s @ '' ''))"
  shows "placeholders (''$'' @ fmt_d (int n) @ s) = fmt_d (int n) # placeholders s"
proof -
  have d: "set (fmt_d (int n)) \<subseteq> set ''0123456789''" using decimal_digits[of "int n"] by (simp add: fmt_d_def)
  then have "takeWhile is_digit (fmt_d (int n) @ s) = fmt_d (int n) @ takeWhile is_digit s"
    by (auto simp: is_digit_def intro!: takeWhile_append2)
  moreover have "takeWhile is_digit s = []" using assms by (cases s) auto
  moreover have "placeholders (fmt_d (int n) @ s) = placeholders s" using d by (intro placeholders_skip) auto
  ultimately show ?thesis by simp
qed

definition plain_clause :: "string \<times> sql_arg \<Rightarrow> bool" where
  "plain_clause c \<longleftrightarrow> hd (fst c @ '' '') = CHR '' '' \<and> fst c \<noteq> [] \<and> CHR ''$'' \<notin> set (fst c)"

lemma plain_clauses: "list_all plain_clause (conditions q)" "list_all plain_clause (page_clauses q)"
  by (simp_all add: conditions_def page_clauses_def optional_def plain_clause_def)

lemma placeholders_clauses:
  assumes "list_all plain_clause cs" and "\<not> is_digit (hd (s @ '' ''))"
  shows "placeholders (clauses k cs @ s) = map (\<lambda>i. fmt_d (int i)) [k..<k + length cs] @ placeholders s"
  using assms(1)
proof (induction cs arbitrary: k)
  case (Cons c cs)
  obtain t a where c: "c = (t, a)" by fastforce
  have next_char: "\<not> is_digit (hd ((clauses (Suc k) cs @ s) @ '' ''))"
  proof (cases cs)
    case (Cons d ds)
    then have "plain_clause d" using Cons.prems by simp
    then obtain u where "fst d = CHR '' '' # u" by (cases "fst d") (auto simp: plain_clause_def)
    then show ?thesis using Cons by (cases d) (simp add: clauses_simps is_digit_def)
  qed (use assms(2) in \<open>simp add: clauses_simps\<close>)
  have "placeholders (clauses k (c # cs) @ s) = placeholders (''$'' @ fmt_d (int k) @ clauses (Suc k) cs @ s)"
    using Cons.prems placeholders_skip[of t] by (simp add: c clauses_simps plain_clause_def)
  then show ?case
    using Cons placeholders_number[OF next_char, of k] by (simp add: upt_conv_Cons del: upt_Suc)
qed (simp add: clauses_simps)

text \<open>
  C29: no injection.  The text of the query statement depends only on which of the filters are
  set, never on their values.  It consists of the fixed text and one clause for each filter that is
  set, and the placeholder of the i-th clause has the number i, where the i-th argument is
  the value of that filter; read off the text, the placeholders are numbered 1, 2, 3 and so on, one for each argument.
\<close>

theorem query_stmt_no_injection:
  assumes "query_shape q = query_shape q'"
  shows "fst (query_stmt q) = fst (query_stmt q')
    \<and> fst (query_stmt q) = select_stmt @ clauses 1 (conditions q) @ '' ORDER BY created_at DESC''
        @ clauses (Suc (length (conditions q))) (page_clauses q)
    \<and> fst (snd (query_stmt q)) = map snd (conditions q @ page_clauses q)
    \<and> placeholders (fst (query_stmt q)) = map (\<lambda>i. fmt_d (int i)) [1..<Suc (length (fst (snd (query_stmt q))))]"
proof (intro conjI)
  show "fst (query_stmt q) = fst (query_stmt q')"
    using assms by (simp add: query_shape_def query_stmt_layout built_def conditions_def page_clauses_def optional_def clauses_simps)
  have order: "placeholders ('' ORDER BY created_at DESC'' @ clauses k (page_clauses q)) =
      map (\<lambda>i. fmt_d (int i)) [k..<k + length (page_clauses q)]" for k
    using placeholders_skip[of "'' ORDER BY created_at DESC''" "clauses k (page_clauses q)"]
      placeholders_clauses[OF plain_clauses(2)[of q], where s = "[]" and k = k] by (simp add: is_digit_def)
  have "placeholders (fst (query_stmt q)) =
      placeholders (clauses 1 (conditions q) @ '' ORDER BY created_at DESC'' @ clauses (Suc (length (conditions q))) (page_clauses q))"
    unfolding query_stmt_layout built_def fst_conv by (rule placeholders_skip) (simp add: select_stmt_def tabs_def newline_def)
  also have "\<dots> = map (\<lambda>i. fmt_d (int i)) ([1..<1 + length (conditions q)]
      @ [Suc (length (conditions q))..<Suc (length (conditions q)) + length (page_clauses q)])"
    using placeholders_clauses[OF plain_clauses(1)[of q], where k = 1
        and s = "'' ORDER BY created_at DESC'' @ clauses (Suc (length (conditions q))) (page_clauses q)"] order
    by (simp add: is_digit_def)
  also have "[1..<1 + length (conditions q)] @ [Suc (length (conditions q))..<Suc (length (conditions q)) + length (page_clauses q)] =
      [1..<Suc (length (fst (snd (query_stmt q))))]"
    using upt_add_eq_append[of 1 "Suc (length (conditions q))" "length (page_clauses q)"] by (simp add: query_stmt_layout built_def)
  finally show "placeholders (fst (query_stmt q)) = map (\<lambda>i. fmt_d (int i)) [1..<Suc (length (fst (snd (query_stmt q))))]" .
qed (simp_all add: query_stmt_layout built_def)

theorem query_stmt_no_injection_witness:
  "fst (query_stmt (audit_query (\<lambda>k. if k = ''job_id'' then ''x; DROP TABLE audit_entries'' else []))) =
   fst (query_stmt (audit_query (\<lambda>k. if k = ''job_id'' then ''j1'' else [])))"
  using query_stmt_no_injection[of "audit_query (\<lambda>k. if k = ''job_id'' then ''x; DROP TABLE audit_entries'' else [])"
      "audit_query (\<lambda>k. if k = ''job_id'' then ''j1'' else [])"]
  by (simp add: query_shape_def audit_query_def Let_def Atoi_def)

end
