(* ===== verification/PolicyEngine.thy ===== *)
theory PolicyEngine
  imports Rules Metrics
begin

text \<open>
  The policy engine (\<^verbatim>\<open>services/policy-engine\<close>): loading the rules at start, and the handler that
  evaluates files and turns the findings into a verdict.  The file system, the YAML decoder, the
  pattern compiler, the JSON encoder and the clock are arguments.
\<close>

section \<open>Starting\<close>

record Engine =
  en_rules :: "Rule list"
  en_evaluator :: Evaluator
  en_listenAddr :: string
  en_reg :: Registry

definition LoadRules ::
  "(string \<Rightarrow> bool) \<Rightarrow> (string \<Rightarrow> go_error + DirEntry list) \<Rightarrow> (string \<Rightarrow> go_error + string) \<Rightarrow>
   (string \<Rightarrow> go_error + Rule list) \<Rightarrow> string \<Rightarrow> go_error + Rule list" where
  "LoadRules notExist readDir readFile unmarshal dir =
     (if dir = [] then Inl (ErrorString ''RULES_DIR not set'')
      else if notExist dir then Inl (ErrorQuoted ''rules dir'' dir ''does not exist'')
      else LoadDir readDir readFile unmarshal dir)"

text \<open>\<open>loaded\<close> is what \<^verbatim>\<open>LoadRules\<close> gave; an error is logged and leaves no rules.\<close>

definition loaded_rules :: "go_error + Rule list \<Rightarrow> Rule list" where
  "loaded_rules loaded = (case loaded of Inl err \<Rightarrow> [] | Inr rs \<Rightarrow> rs)"

definition set_gauge :: "string \<Rightarrow> int64 \<Rightarrow> Registry \<times> metric_store \<Rightarrow> Registry \<times> metric_store" where
  "set_gauge name n st =
     (case Registry_Gauge name st of (a, r, h) \<Rightarrow> (r, h\<lparr> gauge_at := (gauge_at h)(a := Gauge_Set n (gauge_at h a)) \<rparr>))"

definition inc_counter :: "string \<Rightarrow> Registry \<times> metric_store \<Rightarrow> Registry \<times> metric_store" where
  "inc_counter name st =
     (case Registry_Counter name st of (a, r, h) \<Rightarrow> (r, h\<lparr> counter_at := (counter_at h)(a := Counter_Inc (counter_at h a)) \<rparr>))"

definition observe_histogram :: "string \<Rightarrow> real \<Rightarrow> Registry \<times> metric_store \<Rightarrow> Registry \<times> metric_store" where
  "observe_histogram name ms st =
     (case Registry_Histogram name st of (a, r, h) \<Rightarrow> (r, h\<lparr> histogram_at := (histogram_at h)(a := Observe ms (histogram_at h a)) \<rparr>))"

definition engine_New ::
  "(string \<Rightarrow> go_error + regex) \<Rightarrow> (string \<Rightarrow> go_error + Rule list) \<Rightarrow> int \<Rightarrow> string \<Rightarrow> string \<Rightarrow>
   metric_store \<Rightarrow> go_error + Engine \<times> metric_store" where
  "engine_New compile loadRules now listenAddr rulesDir h =
     (let loaded = loaded_rules (loadRules rulesDir)
      in case NewEvaluator compile loaded of
           Inl err \<Rightarrow> Inl (Wrapped ''compile rules'' err)
         | Inr eval \<Rightarrow>
             (case set_gauge ''rules_loaded'' (of_nat (length loaded)) (NewRegistry now ''policy_engine'', h) of
                (reg, h') \<Rightarrow>
                  Inr (\<lparr> en_rules = loaded, en_evaluator = eval, en_listenAddr = listenAddr, en_reg = reg \<rparr>, h')))"

section \<open>Evaluating\<close>

record EvaluateRequest =
  req_JobID :: string
  req_Files :: "FileContent list"

definition blocking :: "Finding \<Rightarrow> bool" where
  "blocking f \<longleftrightarrow> f_Severity f = SeverityCritical \<or> f_Severity f = SeverityHigh"

definition finding_text :: "Finding \<Rightarrow> string" where
  "finding_text f =
     ''['' @ f_RuleID f @ ''] '' @ f_Message f @ '' at '' @ f_File f @ '':'' @ fmt_d (f_Line f)"

text \<open>The body of the loop over the findings.\<close>

definition add_finding :: "Finding \<Rightarrow> PolicyResult \<Rightarrow> PolicyResult" where
  "add_finding f result =
     (let r = (if blocking f
               then result\<lparr> pr_Blocked := True, pr_Allowed := False, pr_Errors := pr_Errors result @ [finding_text f] \<rparr>
               else result\<lparr> pr_Warnings := pr_Warnings result @ [finding_text f] \<rparr>)
      in r\<lparr> pr_Rules := pr_Rules r @ [\<lparr> rm_RuleID = f_RuleID f, rm_Matched = True, rm_Reason = f_Message f \<rparr>] \<rparr>)"

definition policy_result :: "string \<Rightarrow> Finding list \<Rightarrow> PolicyResult" where
  "policy_result jobID findings =
     fold add_finding findings
       \<lparr> pr_JobID = jobID, pr_Allowed = True, pr_Blocked = False, pr_Warnings = [], pr_Errors = [], pr_Rules = [] \<rparr>"

text \<open>\<^verbatim>\<open>POST /api/v1/evaluate\<close>; the body is given decoded, and \<open>t0\<close>, \<open>t1\<close> are the two clock readings.\<close>

definition evaluateHandler ::
  "(PolicyResult \<Rightarrow> string) \<Rightarrow> int \<Rightarrow> int \<Rightarrow> go_error + EvaluateRequest \<Rightarrow> Engine \<Rightarrow> metric_store \<Rightarrow>
   Response \<times> Engine \<times> metric_store" where
  "evaluateHandler encode t0 t1 body e h =
     (case inc_counter ''evaluations_total'' (en_reg e, h) of (reg1, h1) \<Rightarrow>
        (case body of
           Inl err \<Rightarrow> (http_Error ''invalid body'' StatusBadRequest new_response, e\<lparr> en_reg := reg1 \<rparr>, h1)
         | Inr req \<Rightarrow>
             let findings = Evaluate (en_evaluator e) (req_Files req)
             in case observe_histogram ''evaluation_duration_ms'' (real_of_int (t1 - t0)) (reg1, h1) of (reg2, h2) \<Rightarrow>
                  (write_body (encode (policy_result (req_JobID req) findings)) (json_type new_response),
                   e\<lparr> en_reg := reg2 \<rparr>, h2)))"

definition listRulesHandler :: "(Rule list \<Rightarrow> string) \<Rightarrow> Engine \<Rightarrow> Response" where
  "listRulesHandler encode e = write_body (encode (en_rules e)) (json_type new_response)"

section \<open>The verdict\<close>

lemma fold_add_finding:
  "fold add_finding fs r =
     r\<lparr> pr_Blocked := pr_Blocked r \<or> list_ex blocking fs, pr_Allowed := pr_Allowed r \<and> \<not> list_ex blocking fs,
        pr_Errors := pr_Errors r @ map finding_text (filter blocking fs),
        pr_Warnings := pr_Warnings r @ map finding_text (filter (\<lambda>f. \<not> blocking f) fs),
        pr_Rules := pr_Rules r @ map (\<lambda>f. \<lparr> rm_RuleID = f_RuleID f, rm_Matched = True, rm_Reason = f_Message f \<rparr>) fs \<rparr>"
  by (induction fs arbitrary: r) (auto simp: add_finding_def Let_def)

lemma policy_result_eq:
  "policy_result jobID fs =
     \<lparr> pr_JobID = jobID, pr_Allowed = (\<not> list_ex blocking fs), pr_Blocked = list_ex blocking fs,
       pr_Warnings = map finding_text (filter (\<lambda>f. \<not> blocking f) fs), pr_Errors = map finding_text (filter blocking fs),
       pr_Rules = map (\<lambda>f. \<lparr> rm_RuleID = f_RuleID f, rm_Matched = True, rm_Reason = f_Message f \<rparr>) fs \<rparr>"
  by (simp add: policy_result_def fold_add_finding)

text \<open>
  C22: the verdict of the policy engine is the verdict of the summary.  The findings are allowed
  exactly when their summary passes and blocked otherwise; the errors list exactly the critical
  and high findings and the warnings all others, each in order, and every finding appears as a
  rule match.
\<close>

theorem policy_verdict:
  "pr_Allowed (policy_result jobID fs) = s_Passed (NewSummary fs)
   \<and> pr_Blocked (policy_result jobID fs) = (\<not> s_Passed (NewSummary fs))
   \<and> pr_Errors (policy_result jobID fs) = map finding_text (filter blocking fs)
   \<and> pr_Warnings (policy_result jobID fs) = map finding_text (filter (\<lambda>f. \<not> blocking f) fs)
   \<and> map rm_RuleID (pr_Rules (policy_result jobID fs)) = map f_RuleID fs"
  by (auto simp: policy_result_eq NewSummary_Passed_iff list_ex_iff blocking_def severity_defs comp_def)

lemma Evaluate_no_rules: "ev_rules ev = [] \<Longrightarrow> Evaluate ev files = []"
  by (auto simp: Evaluate_def)

text \<open>
  C38: the engine fails open.  When the rules cannot be loaded, for whatever reason (a missing
  directory, but also one file that cannot be read or parsed), the engine still starts, with no
  rules and a \<^verbatim>\<open>rules_loaded\<close> gauge of zero, and answers every evaluation with an unconditional
  approval.
\<close>

theorem engine_fails_open:
  assumes "loadRules dir = Inl err"
  shows "\<exists>e h'. engine_New compile loadRules now addr dir h = Inr (e, h') \<and> en_rules e = []
    \<and> rs_body (fst (evaluateHandler encode t0 t1 (Inr req) e h'')) =
        encode \<lparr> pr_JobID = req_JobID req, pr_Allowed = True, pr_Blocked = False, pr_Warnings = [], pr_Errors = [], pr_Rules = [] \<rparr>"
proof -
  obtain ev where ev: "NewEvaluator compile [] = Inr ev" "ev_rules ev = []"
    by (simp add: NewEvaluator_def)
  obtain reg h' where "set_gauge ''rules_loaded'' (of_nat 0) (NewRegistry now ''policy_engine'', h) = (reg, h')"
    by fastforce
  then have "engine_New compile loadRules now addr dir h =
      Inr (\<lparr> en_rules = [], en_evaluator = ev, en_listenAddr = addr, en_reg = reg \<rparr>, h')"
    by (simp add: engine_New_def loaded_rules_def assms ev(1))
  then show ?thesis
    by (auto simp: evaluateHandler_def Evaluate_no_rules[OF ev(2)] policy_result_def split: prod.splits)
qed

theorem engine_fails_open_witness:
  "\<exists>e h'. engine_New ex_compile
        (LoadRules (\<lambda>_. False) (\<lambda>_. Inr [\<lparr> de_Name = ''a.yaml'', de_IsDir = False \<rparr>]) (\<lambda>_. Inr ''rules: ['')
          (\<lambda>_. Inl (ErrorString ''yaml''))) 0 '':8081'' ''rules'' ex_store = Inr (e, h') \<and> en_rules e = []
    \<and> rs_body (fst (evaluateHandler pr_JobID 0 1 (Inr \<lparr> req_JobID = ''j'', req_Files = [ex_file ''eval(x)''] \<rparr>) e ex_store)) =
        pr_JobID \<lparr> pr_JobID = ''j'', pr_Allowed = True, pr_Blocked = False, pr_Warnings = [], pr_Errors = [], pr_Rules = [] \<rparr>"
  using engine_fails_open[where loadRules = "LoadRules (\<lambda>_. False) (\<lambda>_. Inr [\<lparr> de_Name = ''a.yaml'', de_IsDir = False \<rparr>])
      (\<lambda>_. Inr ''rules: ['') (\<lambda>_. Inl (ErrorString ''yaml''))" and dir = "''rules''"
      and req = "\<lparr> req_JobID = ''j'', req_Files = [ex_file ''eval(x)''] \<rparr>" and encode = pr_JobID]
  by (simp add: LoadRules_def LoadDir_def LoadFile_def Ext_def)

end
