(* ===== verification/GitHub.thy ===== *)
theory GitHub
  imports Models GoFmt GoHttp
begin

text \<open>
  \<^verbatim>\<open>pkg/github\<close>: the client that reports a result as a Check Run with annotations, and as a
  pull-request comment.  Strings are the UTF-8 bytes of the source.  The JSON encoder, the
  formatting of times, URL parsing and the network are arguments; a call returns its error and
  the requests it sent.
\<close>

section \<open>Data\<close>

record Client =
  cl_token :: string

definition NewClient :: "string \<Rightarrow> Client" where "NewClient token = \<lparr> cl_token = token \<rparr>"

record annotation =
  an_Path :: string
  an_StartLine :: int
  an_EndLine :: int
  an_AnnotationLevel :: string
  an_Message :: string
  an_Title :: string

record checkRunOutput =
  co_Title :: string
  co_Summary :: string
  co_Text :: string
  co_Annotations :: "annotation list"

record checkRunPayload =
  cp_Name :: string
  cp_HeadSHA :: string
  cp_Status :: string
  cp_Conclusion :: string
  cp_StartedAt :: string
  cp_CompletedAt :: string
  cp_Output :: checkRunOutput

definition apiBase :: string where "apiBase = ''https://api.github.com''"

definition max_int :: "int \<Rightarrow> int \<Rightarrow> int" where "max_int a b = (if a > b then a else b)"

section \<open>Symbols outside ASCII\<close>

definition utf_check :: string where "utf_check = [CHR 0xE2, CHR 0x9C, CHR 0x85]"
definition utf_cross :: string where "utf_cross = [CHR 0xE2, CHR 0x9D, CHR 0x8C]"
definition utf_dash :: string where "utf_dash = [CHR 0xE2, CHR 0x80, CHR 0x94]"
definition utf_dots :: string where "utf_dots = [CHR 0xE2, CHR 0x80, CHR 0xA6]"
definition utf_red :: string where "utf_red = [CHR 0xF0, CHR 0x9F, CHR 0x94, CHR 0xB4]"
definition utf_orange :: string where "utf_orange = [CHR 0xF0, CHR 0x9F, CHR 0x9F, CHR 0xA0]"
definition utf_yellow :: string where "utf_yellow = [CHR 0xF0, CHR 0x9F, CHR 0x9F, CHR 0xA1]"
definition utf_blue :: string where "utf_blue = [CHR 0xF0, CHR 0x9F, CHR 0x94, CHR 0xB5]"
definition utf_info :: string where
  "utf_info = [CHR 0xE2, CHR 0x84, CHR 0xB9, CHR 0xEF, CHR 0xB8, CHR 0x8F]"

section \<open>Check runs\<close>

definition severityToLevel :: "Severity \<Rightarrow> string" where
  "severityToLevel s =
     (if s = SeverityCritical \<or> s = SeverityHigh then ''failure''
      else if s = SeverityMedium then ''warning'' else ''notice'')"

definition buildAnnotations :: "Finding list \<Rightarrow> annotation list" where
  "buildAnnotations findings =
     map (\<lambda>f. \<lparr> an_Path = f_File f, an_StartLine = max_int 1 (f_Line f), an_EndLine = max_int 1 (f_Line f),
                an_AnnotationLevel = severityToLevel (f_Severity f), an_Message = f_Message f,
                an_Title = ''['' @ f_RuleID f @ ''] '' @ f_RuleName f \<rparr>) findings"

definition titleFor :: "AnalysisResult \<Rightarrow> string" where
  "titleFor r =
     (let s = ar_Summary r
      in if s_Passed s
         then utf_check @ '' Passed '' @ utf_dash @ '' score '' @ fmt_f 0 (s_Score s) @ ''/100, ''
              @ fmt_d (s_TotalFindings s) @ '' findings''
         else utf_cross @ '' Failed '' @ utf_dash @ '' score '' @ fmt_f 0 (s_Score s) @ ''/100, ''
              @ fmt_d (map_get0 (s_BySeverity s) ''critical'' + map_get0 (s_BySeverity s) ''high'')
              @ '' critical/high findings'')"

definition nl :: string where "nl = [newline]"

definition check_summary :: "AnalysisResult \<Rightarrow> string" where
  "check_summary r =
     (let s = ar_Summary r; n = (\<lambda>sev. fmt_d (map_get0 (s_BySeverity s) sev))
      in ''**Score:** '' @ fmt_f 0 (s_Score s) @ '' / 100'' @ nl @ nl
         @ ''| Severity | Count |'' @ nl @ ''|----------|-------|'' @ nl
         @ ''| '' @ utf_red @ '' Critical | '' @ n ''critical'' @ '' |'' @ nl
         @ ''| '' @ utf_orange @ '' High     | '' @ n ''high'' @ '' |'' @ nl
         @ ''| '' @ utf_yellow @ '' Medium   | '' @ n ''medium'' @ '' |'' @ nl
         @ ''| '' @ utf_blue @ '' Low      | '' @ n ''low'' @ '' |'' @ nl
         @ ''| '' @ utf_info @ ''  Info    | '' @ n ''info'' @ '' |'' @ nl @ nl
         @ ''Analysis completed in '' @ fmt_d (ar_DurationMS r) @ ''ms.'')"

definition check_payload :: "(int \<Rightarrow> string) \<Rightarrow> AnalysisResult \<Rightarrow> checkRunPayload" where
  "check_payload rfc3339 result =
     (let conclusion = (if \<not> s_Passed (ar_Summary result) then ''failure'' else ''success'');
          annotations = buildAnnotations (ar_Findings result);
          annotations' = (if length annotations > 50 then take 50 annotations else annotations)
      in \<lparr> cp_Name = ''lint-in-the-dead'', cp_HeadSHA = ar_CommitSHA result, cp_Status = ''completed'',
           cp_Conclusion = conclusion, cp_StartedAt = [], cp_CompletedAt = rfc3339 (ar_CompletedAt result),
           cp_Output = \<lparr> co_Title = titleFor result, co_Summary = check_summary result, co_Text = [],
                         co_Annotations = annotations' \<rparr> \<rparr>)"

definition github_headers :: "Client \<Rightarrow> HttpRequest \<Rightarrow> HttpRequest" where
  "github_headers c r =
     with_header ''X-GitHub-Api-Version'' ''2022-11-28''
       (with_header ''Content-Type'' ''application/json''
         (with_header ''Accept'' ''application/vnd.github+json''
           (with_header ''Authorization'' (''Bearer '' @ cl_token c) r)))"

text \<open>Sending a prepared request: \<open>what\<close> names the call in the error of the transport.\<close>

definition send_request ::
  "network \<Rightarrow> string \<Rightarrow> (HttpReply \<Rightarrow> go_error) \<Rightarrow> HttpRequest \<Rightarrow> go_error option \<times> HttpRequest list" where
  "send_request net what api_error req =
     (case net req of
        Inl err \<Rightarrow> (Some (Wrapped what err), [req])
      | Inr resp \<Rightarrow> (if rp_status resp \<ge> 300 then Some (api_error resp) else None, [req]))"

text \<open>\<open>show_error\<close> decodes the body of an error answer into the text of the error.\<close>

definition PostCheckRun ::
  "(checkRunPayload \<Rightarrow> go_error + string) \<Rightarrow> (int \<Rightarrow> string) \<Rightarrow> (string \<Rightarrow> go_error option) \<Rightarrow> (string \<Rightarrow> string) \<Rightarrow>
   network \<Rightarrow> Client \<Rightarrow> string \<Rightarrow> string \<Rightarrow> AnalysisResult \<Rightarrow> go_error option \<times> HttpRequest list" where
  "PostCheckRun marshal rfc3339 url_error show_error net c owner repo result =
     (case marshal (check_payload rfc3339 result) of
        Inl err \<Rightarrow> (Some err, [])
      | Inr body \<Rightarrow>
          (case NewRequest url_error ''POST'' (apiBase @ ''/repos/'' @ owner @ ''/'' @ repo @ ''/check-runs'') body of
             Inl err \<Rightarrow> (Some err, [])
           | Inr req \<Rightarrow>
               send_request net ''post check run''
                 (\<lambda>resp. ErrorString (''github API '' @ fmt_d (rp_status resp) @ '': '' @ show_error (rp_body resp)))
                 (github_headers c req)))"

section \<open>Comments\<close>

definition severity_row :: "Summary \<Rightarrow> string \<Rightarrow> string" where
  "severity_row s sev =
     (let n = map_get0 (s_BySeverity s) sev
      in if n > 0 then ''| '' @ sev @ '' | '' @ fmt_d n @ '' |'' @ nl else [])"

definition finding_item :: "Finding \<Rightarrow> string" where
  "finding_item f =
     ''- **['' @ f_RuleID f @ '']** `'' @ f_File f @ '':'' @ fmt_d (f_Line f) @ ''` '' @ utf_dash @ '' '' @ f_Message f @ nl"

definition top_findings :: "Finding list \<Rightarrow> string" where
  "top_findings fs =
     (if length fs > 0 then
        nl @ ''<details><summary>Top findings</summary>'' @ nl @ nl
        @ concat (map finding_item (take (if length fs < 10 then length fs else 10) fs))
        @ (if length fs > 10 then nl @ ''_'' @ utf_dots @ ''and '' @ fmt_d (int (length fs) - 10) @ '' more findings._'' @ nl else [])
        @ nl @ ''</details>'' @ nl
      else [])"

text \<open>The slice \<^verbatim>\<open>r.CommitSHA[:8]\<close> panics on a shorter string.\<close>

definition buildCommentBody :: "AnalysisResult \<Rightarrow> panic + string" where
  "buildCommentBody r =
     (let s = ar_Summary r; icon = (if \<not> s_Passed s then utf_cross else utf_check)
      in case str_slice (ar_CommitSHA r) 0 8 of
           Inl p \<Rightarrow> Inl p
         | Inr sha \<Rightarrow>
             Inr (''## '' @ icon @ '' lint-in-the-dead Analysis'' @ nl @ nl
                  @ ''**Score:** `'' @ fmt_f 0 (s_Score s) @ '' / 100` | **Commit:** `'' @ sha @ ''`'' @ nl @ nl
                  @ ''| Severity | Count |'' @ nl @ ''|:---------|------:|'' @ nl
                  @ concat (map (severity_row s) [''critical'', ''high'', ''medium'', ''low'', ''info''])
                  @ top_findings (ar_Findings r)
                  @ nl @ ''_Analysis took '' @ fmt_d (ar_DurationMS r) @ ''ms._'' @ nl))"

definition PRComment ::
  "(string \<Rightarrow> string) \<Rightarrow> (string \<Rightarrow> go_error option) \<Rightarrow> network \<Rightarrow> Client \<Rightarrow> string \<Rightarrow> string \<Rightarrow> int \<Rightarrow>
   AnalysisResult \<Rightarrow> panic + go_error option \<times> HttpRequest list" where
  "PRComment marshal url_error net c owner repo prNumber result =
     (case buildCommentBody result of
        Inl p \<Rightarrow> Inl p
      | Inr body \<Rightarrow>
          Inr (case NewRequest url_error ''POST''
                      (apiBase @ ''/repos/'' @ owner @ ''/'' @ repo @ ''/issues/'' @ fmt_d prNumber @ ''/comments'') (marshal body) of
                 Inl err \<Rightarrow> (Some err, [])
               | Inr req \<Rightarrow>
                   send_request net ''post pr comment''
                     (\<lambda>resp. ErrorString (''github API '' @ fmt_d (rp_status resp))) (github_headers c req)))"

section \<open>Properties\<close>

text \<open>
  C30: the check run agrees with the verdict.  For a result whose summary is that of its findings,
  the conclusion is \<^verbatim>\<open>failure\<close> exactly when some finding is annotated at level \<^verbatim>\<open>failure\<close>; the run
  carries the annotations of the first 50 findings in order, each on a line from 1 on.  The cut
  ignores severities, so a run can fail without showing a single failure.
\<close>

theorem check_run_annotations:
  assumes "ar_Summary r = NewSummary (ar_Findings r)"
  shows "(cp_Conclusion (check_payload tf r) = ''failure'' \<longleftrightarrow>
            ''failure'' \<in> an_AnnotationLevel ` set (buildAnnotations (ar_Findings r)))
    \<and> co_Annotations (cp_Output (check_payload tf r)) = buildAnnotations (take 50 (ar_Findings r))
    \<and> length (co_Annotations (cp_Output (check_payload tf r))) \<le> 50
    \<and> an_StartLine ` set (co_Annotations (cp_Output (check_payload tf r))) \<subseteq> {1 ..}"
proof -
  have level: "''failure'' = severityToLevel s \<longleftrightarrow> s = ''critical'' \<or> s = ''high''" for s
    by (simp add: severityToLevel_def severity_defs)
  have "''failure'' \<in> an_AnnotationLevel ` set (buildAnnotations fs) \<longleftrightarrow> \<not> s_Passed (NewSummary fs)" for fs
  proof -
    have "an_AnnotationLevel ` set (buildAnnotations fs) = (\<lambda>f. severityToLevel (f_Severity f)) ` set fs"
      by (simp add: buildAnnotations_def image_image)
    then show ?thesis by (simp add: NewSummary_Passed_iff image_iff level)
  qed
  moreover have "take 50 (buildAnnotations fs) = buildAnnotations (take 50 fs)" for fs
    by (simp add: buildAnnotations_def take_map)
  ultimately have a: "co_Annotations (cp_Output (check_payload tf r)) = buildAnnotations (take 50 (ar_Findings r))"
    and c: "cp_Conclusion (check_payload tf r) = ''failure'' \<longleftrightarrow>
        ''failure'' \<in> an_AnnotationLevel ` set (buildAnnotations (ar_Findings r))"
    using assms by (simp_all add: check_payload_def Let_def buildAnnotations_def)
  show ?thesis unfolding a using c by (auto simp: buildAnnotations_def max_int_def)
qed

definition ex_result :: "Finding list \<Rightarrow> AnalysisResult" where
  "ex_result fs = \<lparr> ar_JobID = ''j'', ar_RepoOwner = ''o'', ar_RepoName = ''r'', ar_CommitSHA = ''abc'', ar_Language = ''go'',
     ar_Findings = fs, ar_Summary = NewSummary fs, ar_CompletedAt = 0, ar_DurationMS = 3 \<rparr>"

theorem check_run_annotations_witness:
  "cp_Conclusion (check_payload (\<lambda>_. []) (ex_result (replicate 50 (ex_finding ''low'') @ [ex_finding ''high'']))) = ''failure''
   \<and> co_Annotations (cp_Output (check_payload (\<lambda>_. []) (ex_result (replicate 50 (ex_finding ''low'') @ [ex_finding ''high''])))) =
       buildAnnotations (replicate 50 (ex_finding ''low''))"
proof -
  let ?fs = "replicate 50 (ex_finding ''low'') @ [ex_finding ''high'']"
  have "ar_Summary (ex_result ?fs) = NewSummary (ar_Findings (ex_result ?fs))" by (simp add: ex_result_def)
  note all = check_run_annotations[OF this, of "\<lambda>_. []"]
  have "''failure'' \<in> an_AnnotationLevel ` set (buildAnnotations (ar_Findings (ex_result ?fs)))"
    by (simp add: ex_result_def buildAnnotations_def severityToLevel_def severity_defs ex_finding_def)
  moreover have "take 50 (ar_Findings (ex_result ?fs)) = replicate 50 (ex_finding ''low'')" by (simp add: ex_result_def)
  ultimately show ?thesis using all by presburger
qed

text \<open>
  A comment for a commit identifier of fewer than 8 bytes (a manual job may carry any, even
  the empty one) panics, and any other is written; the comment of a result sends exactly one
  request when its address parses.
\<close>

theorem comment_panics_iff:
  "(buildCommentBody r = Inl SliceBounds \<longleftrightarrow> length (ar_CommitSHA r) < 8)
   \<and> (PRComment marshal url_error net c owner repo n r = Inl SliceBounds \<longleftrightarrow> length (ar_CommitSHA r) < 8)
   \<and> (case PRComment marshal (\<lambda>_. None) net c owner repo n r of
        Inl _ \<Rightarrow> True | Inr (_, reqs) \<Rightarrow> length reqs = 1)"
  by (auto simp: buildCommentBody_def PRComment_def Let_def str_slice_def NewRequest_def send_request_def
      split: sum.splits prod.splits)

end
