(* ===== verification/Notifier.thy ===== *)
theory Notifier
  imports GitHub Metrics
begin

text \<open>
  The notification service (\<^verbatim>\<open>services/notification-service\<close>): the Slack and e-mail back ends, the
  dispatcher and the handler.  The network is an argument; a send returns its error and the
  requests, or the SMTP commands, it issued.
\<close>

section \<open>Slack\<close>

record Slack = webhookURL :: string

definition NewSlack :: "string \<Rightarrow> Slack" where "NewSlack url = \<lparr> webhookURL = url \<rparr>"

definition Slack_Enabled :: "Slack \<Rightarrow> bool" where "Slack_Enabled s \<longleftrightarrow> webhookURL s \<noteq> []"

definition statusLabel :: "bool \<Rightarrow> string" where
  "statusLabel passed = (if passed then ''passed'' else ''FAILED'')"

record slack_attachment =
  sa_color :: string
  sa_text :: string
  sa_footer :: string
  sa_ts :: int
  sa_mrkdwn_in :: "string list"

definition slack_text :: "AnalysisResult \<Rightarrow> string" where
  "slack_text result =
     (let s = ar_Summary result; icon = (if \<not> s_Passed s then '':x:'' else '':white_check_mark:'');
          n = (\<lambda>sev. fmt_d (map_get0 (s_BySeverity s) sev))
      in icon @ '' *'' @ ar_RepoOwner result @ ''/'' @ ar_RepoName result @ ''* '' @ utf_dash @ '' analysis ''
         @ statusLabel (s_Passed s) @ nl
         @ ''Score: '' @ fmt_f 0 (s_Score s) @ ''/100 | Findings: '' @ fmt_d (s_TotalFindings s)
         @ '' (critical: '' @ n ''critical'' @ '', high: '' @ n ''high'' @ '', medium: '' @ n ''medium'' @ '')'')"

text \<open>The timestamp in seconds; times are nanoseconds.\<close>

definition slack_payload :: "AnalysisResult \<Rightarrow> slack_attachment" where
  "slack_payload result =
     \<lparr> sa_color = (if \<not> s_Passed (ar_Summary result) then ''#ff0000'' else ''#36a64f''),
       sa_text = slack_text result, sa_footer = ''lint-in-the-dead'',
       sa_ts = ar_CompletedAt result div 1000000000, sa_mrkdwn_in = [''text''] \<rparr>"

definition Slack_Send ::
  "(slack_attachment \<Rightarrow> string) \<Rightarrow> (string \<Rightarrow> go_error option) \<Rightarrow> network \<Rightarrow> NotificationRequest \<Rightarrow> Slack \<Rightarrow>
   go_error option \<times> HttpRequest list" where
  "Slack_Send marshal url_error net req s =
     (if \<not> Slack_Enabled s then (None, [])
      else case NewRequest url_error ''POST'' (webhookURL s) (marshal (slack_payload (nr_Result req))) of
             Inl err \<Rightarrow> (Some err, [])
           | Inr r \<Rightarrow>
               send_request net ''slack post'' (\<lambda>resp. ErrorString (''slack returned '' @ fmt_d (rp_status resp)))
                 (with_header ''Content-Type'' ''application/json'' r))"

section \<open>E-mail\<close>

record Email =
  em_host :: string
  em_port :: string
  em_user :: string
  em_pass :: string
  em_from :: string

definition NewEmail :: "string \<Rightarrow> string \<Rightarrow> string \<Rightarrow> string \<Rightarrow> string \<Rightarrow> Email" where
  "NewEmail host port user pass from' =
     \<lparr> em_host = host, em_port = port, em_user = user, em_pass = pass, em_from = from' \<rparr>"

definition Email_Enabled :: "Email \<Rightarrow> bool" where
  "Email_Enabled e \<longleftrightarrow> em_host e \<noteq> [] \<and> em_user e \<noteq> []"

definition crlf :: string where "crlf = [CHR 0x0D, CHR 0x0A]"

definition email_subject :: "AnalysisResult \<Rightarrow> string" where
  "email_subject result =
     ''[lint-in-the-dead] '' @ ar_RepoOwner result @ ''/'' @ ar_RepoName result @ '' '' @ utf_dash @ '' analysis ''
     @ statusLabel (s_Passed (ar_Summary result)) @ '' (score '' @ fmt_f 0 (s_Score (ar_Summary result)) @ '')''"

definition email_body :: "AnalysisResult \<Rightarrow> string" where
  "email_body result =
     (let s = ar_Summary result; n = (\<lambda>sev. fmt_d (map_get0 (s_BySeverity s) sev))
      in ''Repository: '' @ ar_RepoOwner result @ ''/'' @ ar_RepoName result @ nl
         @ ''Commit: '' @ ar_CommitSHA result @ nl @ ''Score: '' @ fmt_f 0 (s_Score s) @ ''/100'' @ nl @ nl
         @ ''Findings:'' @ nl @ ''  Critical: '' @ n ''critical'' @ nl @ ''  High: '' @ n ''high'' @ nl
         @ ''  Medium: '' @ n ''medium'' @ nl @ ''  Low: '' @ n ''low'' @ nl
         @ ''  Total: '' @ fmt_d (s_TotalFindings s) @ nl @ nl
         @ ''Duration: '' @ fmt_d (ar_DurationMS result) @ ''ms'' @ nl)"

definition email_msg :: "Email \<Rightarrow> AnalysisResult \<Rightarrow> string list \<Rightarrow> string" where
  "email_msg e result to =
     ''From: '' @ em_from e @ crlf @ ''To: '' @ join_with '', '' to @ crlf
     @ ''Subject: '' @ email_subject result @ crlf
     @ ''Content-Type: text/plain; charset=utf-8'' @ crlf @ crlf @ email_body result"

text \<open>\<^verbatim>\<open>net.JoinHostPort\<close> puts brackets around a host with a colon or a percent sign.\<close>

definition JoinHostPort :: "string \<Rightarrow> string \<Rightarrow> string" where
  "JoinHostPort host port =
     (if CHR '':'' \<in> set host \<or> CHR ''%'' \<in> set host then ''['' @ host @ '']:'' @ port else host @ '':'' @ port)"

text \<open>The commands of an SMTP session over TLS, and the whole of \<^verbatim>\<open>smtp.SendMail\<close> as one.\<close>

datatype smtp_cmd =
    TlsDial string
  | NewClientCmd string
  | AuthCmd string string
  | MailCmd string
  | RcptCmd string
  | DataCmd
  | WriteCmd string
  | CloseData
  | QuitCmd
  | SendMailCmd string string "string list" string

text \<open>The recipients one by one, until one is refused.\<close>

fun rcpt_all :: "(smtp_cmd \<Rightarrow> go_error option) \<Rightarrow> string list \<Rightarrow> go_error option \<times> smtp_cmd list" where
  "rcpt_all srv [] = (None, [])"
| "rcpt_all srv (t # ts) =
     (case srv (RcptCmd t) of
        Some err \<Rightarrow> (Some err, [RcptCmd t])
      | None \<Rightarrow> (case rcpt_all srv ts of (r, cmds) \<Rightarrow> (r, RcptCmd t # cmds)))"

text \<open>
  The session after the client is made.  The deferred \<^verbatim>\<open>Quit\<close> runs last, after the deferred close
  of the data writer.
\<close>

definition smtp_session ::
  "(smtp_cmd \<Rightarrow> go_error option) \<Rightarrow> Email \<Rightarrow> string list \<Rightarrow> string \<Rightarrow> go_error option \<times> smtp_cmd list" where
  "smtp_session srv e to msg =
     (let auth = AuthCmd (em_user e) (em_pass e); mail = MailCmd (em_from e)
      in case srv auth of
           Some err \<Rightarrow> (Some err, [auth, QuitCmd])
         | None \<Rightarrow>
             (case srv mail of
                Some err \<Rightarrow> (Some err, [auth, mail, QuitCmd])
              | None \<Rightarrow>
                  (case rcpt_all srv to of
                     (Some err, rs) \<Rightarrow> (Some err, [auth, mail] @ rs @ [QuitCmd])
                   | (None, rs) \<Rightarrow>
                       (case srv DataCmd of
                          Some err \<Rightarrow> (Some err, [auth, mail] @ rs @ [DataCmd, QuitCmd])
                        | None \<Rightarrow>
                            (srv (WriteCmd msg), [auth, mail] @ rs @ [DataCmd, WriteCmd msg, CloseData, QuitCmd])))))"

definition sendTLS ::
  "(smtp_cmd \<Rightarrow> go_error option) \<Rightarrow> Email \<Rightarrow> string \<Rightarrow> string list \<Rightarrow> string \<Rightarrow> go_error option \<times> smtp_cmd list" where
  "sendTLS srv e addr to msg =
     (case srv (TlsDial addr) of
        Some err \<Rightarrow> (Some (Wrapped ''tls dial'' err), [TlsDial addr])
      | None \<Rightarrow>
          (case srv (NewClientCmd (em_host e)) of
             Some err \<Rightarrow> (Some (Wrapped ''smtp client'' err), [TlsDial addr, NewClientCmd (em_host e)])
           | None \<Rightarrow>
               (case smtp_session srv e to msg of
                  (r, cmds) \<Rightarrow> (r, [TlsDial addr, NewClientCmd (em_host e)] @ cmds))))"

definition Email_Send ::
  "(smtp_cmd \<Rightarrow> go_error option) \<Rightarrow> NotificationRequest \<Rightarrow> string list \<Rightarrow> Email \<Rightarrow> go_error option \<times> smtp_cmd list" where
  "Email_Send srv req to e =
     (if \<not> Email_Enabled e \<or> to = [] then (None, [])
      else let msg = email_msg e (nr_Result req) to; addr = JoinHostPort (em_host e) (em_port e)
           in if em_port e = ''465'' then sendTLS srv e addr to msg
              else let c = SendMailCmd addr (em_from e) to msg in (srv c, [c]))"

section \<open>Dispatching\<close>

record Dispatcher =
  dp_slack :: Slack
  dp_email :: Email

definition NewDispatcher :: "Slack \<Rightarrow> Email \<Rightarrow> Dispatcher" where
  "NewDispatcher s e = \<lparr> dp_slack = s, dp_email = e \<rparr>"

text \<open>What is done for one target: the requests sent, and the line logged.\<close>

definition dispatch_target ::
  "(slack_attachment \<Rightarrow> string) \<Rightarrow> (string \<Rightarrow> go_error option) \<Rightarrow> network \<Rightarrow> NotificationRequest \<Rightarrow> Dispatcher \<Rightarrow>
   string \<Rightarrow> HttpRequest list \<times> (string \<times> go_error option) list" where
  "dispatch_target marshal url_error net req d target =
     (if target = ''slack'' then
        (case Slack_Send marshal url_error net req (dp_slack d) of
           (Some err, rs) \<Rightarrow> (rs, [(''slack notify'', Some err)])
         | (None, rs) \<Rightarrow> (rs, []))
      else if target = ''email''
      then ([], [(''email notify: no recipients configured for job '' @ nr_JobID req, None)])
      else ([], []))"

definition Dispatch ::
  "(slack_attachment \<Rightarrow> string) \<Rightarrow> (string \<Rightarrow> go_error option) \<Rightarrow> network \<Rightarrow> NotificationRequest \<Rightarrow> Dispatcher \<Rightarrow>
   HttpRequest list \<times> (string \<times> go_error option) list" where
  "Dispatch marshal url_error net req d =
     (let rs = map (dispatch_target marshal url_error net req d) (nr_Targets req)
      in (concat (map fst rs), concat (map snd rs)))"

text \<open>
  \<^verbatim>\<open>POST /api/v1/notify\<close>: the response does not wait for the goroutine that dispatches, whose
  effects are the last component; the counter is of requests, sent or not.
\<close>

definition notify_handler ::
  "(NotificationRequest \<Rightarrow> 'effects) \<Rightarrow> go_error + NotificationRequest \<Rightarrow> uint64 \<Rightarrow> Response \<times> uint64 \<times> 'effects option" where
  "notify_handler dispatch body notifSent =
     (case body of
        Inl err \<Rightarrow> (http_Error ''invalid body'' StatusBadRequest new_response, notifSent, None)
      | Inr req \<Rightarrow> (WriteHeader StatusAccepted new_response, Counter_Inc notifSent, Some (dispatch req)))"

section \<open>Properties\<close>

lemma rcpt_all_cmds:
  "rcpt_all srv ts = (r, cmds) \<Longrightarrow>
     \<exists>n. cmds = map RcptCmd (take n ts) \<and> (r = None \<longleftrightarrow> list_all (\<lambda>t. srv (RcptCmd t) = None) ts) \<and>
         (if r = None then n = length ts else True)"
proof (induction ts arbitrary: r cmds)
  case (Cons t ts)
  show ?case
  proof (cases "srv (RcptCmd t)")
    case None
    with Cons.prems obtain cmds' where c: "rcpt_all srv ts = (r, cmds')" "cmds = RcptCmd t # cmds'"
      by (auto split: prod.splits)
    from Cons.IH[OF c(1)] obtain n where "cmds' = map RcptCmd (take n ts)"
      "r = None \<longleftrightarrow> list_all (\<lambda>t. srv (RcptCmd t) = None) ts" "if r = None then n = length ts else True" by blast
    with None c(2) show ?thesis by (intro exI[of _ "Suc n"]) auto
  next
    case (Some err)
    with Cons.prems show ?thesis by (intro exI[of _ 1]) auto
  qed
qed simp

text \<open>
  An SMTP session over TLS.  The message is written only after authentication, the sender
  and every recipient were accepted; whatever fails, a session that got a client ends with
  \<^verbatim>\<open>Quit\<close>; and the result is no error exactly when every command that reports one succeeded.
\<close>

theorem sendTLS_protocol:
  "case sendTLS srv e addr to msg of (r, cmds) \<Rightarrow>
     (WriteCmd msg \<in> set cmds \<longleftrightarrow>
        list_all (\<lambda>c. srv c = None)
          ([TlsDial addr, NewClientCmd (em_host e), AuthCmd (em_user e) (em_pass e), MailCmd (em_from e)]
           @ map RcptCmd to @ [DataCmd]))
     \<and> (r = None \<longleftrightarrow> WriteCmd msg \<in> set cmds \<and> srv (WriteCmd msg) = None)
     \<and> (NewClientCmd (em_host e) \<in> set cmds \<and> srv (NewClientCmd (em_host e)) = None \<longleftrightarrow> last cmds = QuitCmd)"
proof -
  obtain r0 rs where rs: "rcpt_all srv to = (r0, rs)" by fastforce
  obtain n where n: "rs = map RcptCmd (take n to)" "r0 = None \<longleftrightarrow> list_all (\<lambda>t. srv (RcptCmd t) = None) to"
    using rcpt_all_cmds[OF rs] by blast
  show ?thesis
    using n(2)
    by (cases r0)
       (auto simp: sendTLS_def smtp_session_def Let_def rs n(1) list.pred_map comp_def split: option.splits prod.splits)
qed

text \<open>
  Dispatching.  Only Slack is ever notified, once per \<^verbatim>\<open>slack\<close> target and not at all when it is
  not configured or its address does not parse; an \<^verbatim>\<open>email\<close> target sends nothing, whatever the
  configuration of the e-mail back end, and leaves a line in the log; other targets do nothing.
\<close>

theorem Dispatch_targets:
  "fst (Dispatch marshal url_error net req d) =
     (if Slack_Enabled (dp_slack d) \<and> url_error (webhookURL (dp_slack d)) = None
      then replicate (length (filter (\<lambda>t. t = ''slack'') (nr_Targets req)))
             \<lparr> rq_method = ''POST'', rq_url = webhookURL (dp_slack d),
               rq_header = [(''Content-Type'', ''application/json'')],
               rq_body = marshal (slack_payload (nr_Result req)) \<rparr>
      else [])
   \<and> fst (Dispatch marshal url_error net req d) =
       fst (Dispatch marshal url_error net req (d\<lparr> dp_email := e \<rparr>))
   \<and> length (filter (\<lambda>l. snd l = None) (snd (Dispatch marshal url_error net req d))) =
       length (filter (\<lambda>t. t = ''email'') (nr_Targets req))"
proof -
  let ?q = "\<lparr> rq_method = ''POST'', rq_url = webhookURL (dp_slack d),
     rq_header = [(''Content-Type'', ''application/json'')], rq_body = marshal (slack_payload (nr_Result req)) \<rparr>"
  let ?on = "Slack_Enabled (dp_slack d) \<and> url_error (webhookURL (dp_slack d)) = None"
  have send: "snd (Slack_Send marshal url_error net req (dp_slack d)) = (if ?on then [?q] else [])"
    by (auto simp: Slack_Send_def NewRequest_def send_request_def with_header_def split: sum.splits option.splits)
  have one: "fst (dispatch_target marshal url_error net req d t) = (if t = ''slack'' \<and> ?on then [?q] else [])" for t
    using send by (auto simp: dispatch_target_def split: prod.splits option.splits)
  have "concat (map (\<lambda>t. fst (dispatch_target marshal url_error net req d t)) ts) =
      (if ?on then replicate (length (filter (\<lambda>t. t = ''slack'') ts)) ?q else [])" for ts
    by (induction ts) (auto simp: one)
  moreover have "fst (dispatch_target marshal url_error net req (d\<lparr> dp_email := e \<rparr>) t) =
      fst (dispatch_target marshal url_error net req d t)" for t
    by (simp add: dispatch_target_def)
  moreover have "length (filter (\<lambda>l. snd l = None) (concat (map (\<lambda>t. snd (dispatch_target marshal url_error net req d t)) ts))) =
      length (filter (\<lambda>t. t = ''email'') ts)" for ts
    by (induction ts) (auto simp: dispatch_target_def split: prod.splits option.splits)
  ultimately show ?thesis by (simp add: Dispatch_def Let_def comp_def)
qed

end
