(* ===== verification/Analyzer.thy ===== *)
theory Analyzer
  imports Rules Entropy Deps Cache Retry JobQueue GitHub Notifier
begin

text \<open>
  The analyzer of the analysis service (\<^verbatim>\<open>analyzer.go\<close>, \<^verbatim>\<open>languages.go\<close>): cloning, collecting
  files, the call of the policy engine, the local scanners, the result cache and the posts to the
  other services.  Git, the file system, the network, the clock and the JSON codec are arguments;
  a run returns its result, the new cache, the directories it removed and the goroutines it
  started.
\<close>

section \<open>Languages\<close>

definition extLang :: "(string \<times> string) list" where
  "extLang =
    [(''.go'', ''go''), (''.ts'', ''typescript''), (''.tsx'', ''typescript''), (''.js'', ''javascript''),
     (''.jsx'', ''javascript''), (''.mjs'', ''javascript''), (''.cjs'', ''javascript''), (''.py'', ''python''),
     (''.rs'', ''rust''), (''.java'', ''java''), (''.kt'', ''kotlin''), (''.kts'', ''kotlin''), (''.cs'', ''csharp''),
     (''.cpp'', ''cpp''), (''.cc'', ''cpp''), (''.cxx'', ''cpp''), (''.c'', ''c''), (''.h'', ''c''), (''.hpp'', ''cpp''),
     (''.rb'', ''ruby''), (''.php'', ''php''), (''.swift'', ''swift''), (''.sh'', ''bash''), (''.bash'', ''bash''),
     (''.yaml'', ''yaml''), (''.yml'', ''yaml''), (''.json'', ''json''), (''.tf'', ''terraform''), (''.hcl'', ''hcl''),
     (''.sql'', ''sql''), (''.proto'', ''protobuf'')]"

definition DetectLanguage :: "string \<Rightarrow> string" where
  "DetectLanguage path =
     (case map_of extLang (ToLower (Ext path)) of Some lang \<Rightarrow> lang | None \<Rightarrow> ''unknown'')"

definition binary_exts :: "string list" where
  "binary_exts = [''.png'', ''.jpg'', ''.jpeg'', ''.gif'', ''.pdf'', ''.zip'', ''.tar'', ''.gz'', ''.exe'', ''.bin'',
     ''.so'', ''.dll'', ''.wasm'', ''.class'', ''.jar'']"

definition IsBinary :: "string \<Rightarrow> bool" where
  "IsBinary path \<longleftrightarrow> ToLower (Ext path) \<in> set binary_exts"

section \<open>Collecting files\<close>

text \<open>
  A directory tree as \<^verbatim>\<open>filepath.Walk\<close> sees it: a file with its content, or the error of reading
  it; a directory with its entries in the order of the walk, readable or not.
\<close>

datatype fs_node =
    FFile string "go_error + string"
  | FDir string bool "fs_node list"

fun node_name :: "fs_node \<Rightarrow> string" where
  "node_name (FFile n _) = n"
| "node_name (FDir n _ _) = n"

text \<open>The walk below a directory; \<open>path\<close> is the path of the node and \<open>rel\<close> that path from the root.\<close>

fun walk :: "string \<Rightarrow> string \<Rightarrow> fs_node \<Rightarrow> FileContent list" where
  "walk path rel (FFile name data) =
     (if IsBinary path then []
      else case data of
             Inl err \<Rightarrow> []
           | Inr content \<Rightarrow> [\<lparr> fc_Path = rel, fc_Language = DetectLanguage path, fc_Content = content \<rparr>])"
| "walk path rel (FDir name readable es) =
     (if \<not> readable \<or> name = ''.git'' then []
      else concat (map (\<lambda>e. walk (path @ ''/'' @ node_name e) (rel @ ''/'' @ node_name e) e) es))"

text \<open>The root is a directory; its entries have their names as relative paths.\<close>

definition collectFiles :: "string \<Rightarrow> fs_node \<Rightarrow> FileContent list \<times> go_error option" where
  "collectFiles rootdir node =
     (case node of
        FFile name data \<Rightarrow> (walk rootdir ''.'' node, None)
      | FDir name readable es \<Rightarrow>
          (if \<not> readable \<or> name = ''.git'' then ([], None)
           else (concat (map (\<lambda>e. walk (rootdir @ ''/'' @ node_name e) (node_name e) e) es), None)))"

section \<open>Cloning\<close>

definition clone_args :: "Job \<Rightarrow> string \<Rightarrow> string list" where
  "clone_args job dir =
     [''clone'', ''--depth=1'', ''--single-branch''] @
     (if j_Branch job \<noteq> [] then [''--branch'', j_Branch job] else []) @ [j_RepoURL job, dir]"

text \<open>The directory or the error, and the directories removed on the way.\<close>

definition cloneRepo ::
  "go_error + string \<Rightarrow> (string list \<Rightarrow> go_error option) \<Rightarrow> Job \<Rightarrow> (go_error + string) \<times> string list" where
  "cloneRepo mkdirTemp git job =
     (case mkdirTemp of
        Inl err \<Rightarrow> (Inl err, [])
      | Inr dir \<Rightarrow>
          (case git (clone_args job dir) of
             Some err \<Rightarrow> (Inl (Wrapped ''git clone failed'' err), [dir])
           | None \<Rightarrow> (Inr dir, [])))"

section \<open>The policy engine and the local scanners\<close>

record Analyzer =
  az_policyEngineURL :: string
  az_auditServiceURL :: string
  az_notificationURL :: string
  az_ghClient :: "Client option"
  az_resultCache :: "(string, AnalysisResult) TTL"

definition analyzer_New :: "string \<Rightarrow> string \<Rightarrow> string \<Rightarrow> string \<Rightarrow> Analyzer" where
  "analyzer_New githubToken policyURL auditURL notifURL =
     \<lparr> az_policyEngineURL = policyURL, az_auditServiceURL = auditURL, az_notificationURL = notifURL,
       az_ghClient = (if githubToken \<noteq> [] then Some (NewClient githubToken) else None),
       az_resultCache = fst (Cache.New (7200 * Second)) \<rparr>"

text \<open>
  The function passed to \<^verbatim>\<open>DoHTTP\<close>: the error of an address that does not parse is permanent.
  Answering a request may change the state of the other side.
\<close>

definition policy_call ::
  "(string \<Rightarrow> go_error option) \<Rightarrow> (HttpRequest \<Rightarrow> 's http_call) \<Rightarrow> string \<Rightarrow> string \<Rightarrow> 's http_call" where
  "policy_call url_error net url body s =
     (case NewRequest url_error ''POST'' (url @ ''/api/v1/evaluate'') body of
        Inl err \<Rightarrow> (Inl (None, Permanent err), s)
      | Inr req \<Rightarrow> net (with_header ''Content-Type'' ''application/json'' req) s)"

record ('s) policy_env =
  pe_rnd :: "nat \<Rightarrow> real"
  pe_ctx :: "nat \<Rightarrow> go_error option"
  pe_url_error :: "string \<Rightarrow> go_error option"
  pe_net :: "HttpRequest \<Rightarrow> 's http_call"
  pe_marshal :: "string \<times> FileContent list \<Rightarrow> string"
  pe_decode :: "string \<Rightarrow> go_error + PolicyResult"

text \<open>
  The result, and the state of the other side after the calls.  \<^verbatim>\<open>DoHTTP\<close> gives a response whenever
  it gives no error.
\<close>

definition evaluatePolicy ::
  "'s policy_env \<Rightarrow> Analyzer \<Rightarrow> string \<Rightarrow> FileContent list \<Rightarrow> 's \<Rightarrow> (go_error + Finding list) \<times> 's" where
  "evaluatePolicy env a jobID files s =
     (case DoHTTP (pe_rnd env) (pe_ctx env) Default
             (policy_call (pe_url_error env) (pe_net env) (az_policyEngineURL a) (pe_marshal env (jobID, files))) s of
        ((resp, Some err), s') \<Rightarrow> (Inl err, s')
      | ((resp, None), s') \<Rightarrow>
          (case pe_decode env (case resp of None \<Rightarrow> [] | Some r \<Rightarrow> resp_Body r) of
             Inl err \<Rightarrow> (Inl err, s')
           | Inr pr \<Rightarrow> (Inr [], s')))"

definition entropyFindings :: "FileContent list \<Rightarrow> Finding list" where
  "entropyFindings files = concat (map (\<lambda>f. ToModelFindings (Scan (fc_Path f) (fc_Content f) DefaultThreshold)) files)"

definition unpinned_finding :: "string \<Rightarrow> Dep \<Rightarrow> Finding" where
  "unpinned_finding path d =
     \<lparr> f_RuleID = ''DEP-001'', f_RuleName = ''Unpinned dependency'', f_Category = CategoryCompliance,
       f_Severity = SeverityMedium, f_File = path, f_Line = 1, f_Column = 1,
       f_Message = ''Dependency '' @ quoted (d_Name d) @ '' has no pinned version. Pin versions for reproducible builds.'',
       f_Snippet = [], f_FixSuggestion = ''Specify an exact version (e.g. ==1.2.3 or v1.2.3).'' \<rparr>"

definition depFindings :: "FileContent list \<Rightarrow> Finding list" where
  "depFindings files =
     concat (map (\<lambda>f. case ScanFile (fc_Path f) (fc_Content f) of
                         Inl err \<Rightarrow> []
                       | Inr None \<Rightarrow> []
                       | Inr (Some m) \<Rightarrow>
                           map (unpinned_finding (fc_Path f)) (filter (\<lambda>d. d_Version d = []) (m_Deps m))) files)"

section \<open>A run\<close>

text \<open>The goroutines a run starts.\<close>

datatype post =
    GoAudit Job AnalysisResult
  | GoNotification Job AnalysisResult
  | GoCheckRun Job AnalysisResult

text \<open>What a run reads: the clock at the lookup, at the start, at completion and at the cache update.\<close>

record clock =
  ck_get :: int
  ck_start :: int
  ck_completed :: int
  ck_since :: int
  ck_set :: int

record 's run_out =
  ro_result :: "go_error + AnalysisResult"
  ro_analyzer :: Analyzer
  ro_removed :: "string list"
  ro_posts :: "post list"
  ro_policy :: 's

definition cache_key :: "Job \<Rightarrow> string" where
  "cache_key job = j_RepoOwner job @ ''/'' @ j_RepoName job @ ''@'' @ j_CommitSHA job"

definition run_result :: "clock \<Rightarrow> Job \<Rightarrow> Finding list \<Rightarrow> AnalysisResult" where
  "run_result ck job findings =
     \<lparr> ar_JobID = j_ID job, ar_RepoOwner = j_RepoOwner job, ar_RepoName = j_RepoName job,
       ar_CommitSHA = j_CommitSHA job, ar_Language = [], ar_Findings = findings,
       ar_Summary = NewSummary findings, ar_CompletedAt = ck_completed ck,
       ar_DurationMS = go_div (ck_since ck - ck_start ck) 1000000 \<rparr>"

definition run_posts :: "Analyzer \<Rightarrow> Job \<Rightarrow> AnalysisResult \<Rightarrow> post list" where
  "run_posts a job result =
     [GoAudit job result, GoNotification job result] @
     (if az_ghClient a \<noteq> None \<and> j_Source job = JobSourceGitHub then [GoCheckRun job result] else [])"

text \<open>\<open>tree\<close> gives the file tree below the cloned directory.\<close>

definition Run ::
  "'s policy_env \<Rightarrow> go_error + string \<Rightarrow> (string list \<Rightarrow> go_error option) \<Rightarrow> (string \<Rightarrow> fs_node) \<Rightarrow> clock \<Rightarrow>
   Job \<Rightarrow> Analyzer \<Rightarrow> 's \<Rightarrow> 's run_out" where
  "Run env mkdirTemp git tree ck job a s =
     (case Cache.Get (ck_get ck) (cache_key job) (az_resultCache a) of
        Some cached \<Rightarrow>
          \<lparr> ro_result = Inr (cached\<lparr> ar_JobID := j_ID job \<rparr>), ro_analyzer = a, ro_removed = [], ro_posts = [], ro_policy = s \<rparr>
      | None \<Rightarrow>
          (case cloneRepo mkdirTemp git job of
             (Inl err, removed) \<Rightarrow>
               \<lparr> ro_result = Inl (Wrapped ''clone'' err), ro_analyzer = a, ro_removed = removed, ro_posts = [], ro_policy = s \<rparr>
           | (Inr dir, removed) \<Rightarrow>
               (case collectFiles dir (tree dir) of
                  (files, Some err) \<Rightarrow>
                    \<lparr> ro_result = Inl (Wrapped ''collect files'' err), ro_analyzer = a, ro_removed = removed @ [dir],
                      ro_posts = [], ro_policy = s \<rparr>
                | (files, None) \<Rightarrow>
                    (case evaluatePolicy env a (j_ID job) files s of
                       (evaluated, s') \<Rightarrow>
                         let policy = (case evaluated of Inl err \<Rightarrow> [] | Inr fs \<Rightarrow> fs);
                             findings = policy @ entropyFindings files @ depFindings files;
                             result = run_result ck job findings
                         in \<lparr> ro_result = Inr result,
                              ro_analyzer = a\<lparr> az_resultCache := Cache.Set (ck_set ck) (cache_key job) result (az_resultCache a) \<rparr>,
                              ro_removed = removed @ [dir], ro_posts = run_posts a job result, ro_policy = s' \<rparr>))))"

section \<open>The posts\<close>

record post_env =
  po_marshal_audit :: "Job \<Rightarrow> AnalysisResult \<Rightarrow> string"
  po_marshal_notify :: "NotificationRequest \<Rightarrow> string"
  po_marshal_check :: "checkRunPayload \<Rightarrow> go_error + string"
  po_marshal_comment :: "string \<Rightarrow> string"
  po_rfc3339 :: "int \<Rightarrow> string"
  po_show_error :: "string \<Rightarrow> string"
  po_url_error :: "string \<Rightarrow> go_error option"
  po_net :: network

definition zero_policy :: PolicyResult where
  "zero_policy = \<lparr> pr_JobID = [], pr_Allowed = False, pr_Blocked = False, pr_Warnings = [], pr_Errors = [], pr_Rules = [] \<rparr>"

text \<open>
  Posting JSON to a service; the error of \<^verbatim>\<open>NewRequestWithContext\<close> is dropped, so an address that
  does not parse leaves a nil request, whose use panics.
\<close>

definition post_json :: "post_env \<Rightarrow> string \<Rightarrow> string \<Rightarrow> panic + HttpRequest list" where
  "post_json env url body =
     (case NewRequest (po_url_error env) ''POST'' url body of
        Inl err \<Rightarrow> Inl NilDeref
      | Inr req \<Rightarrow> Inr [with_header ''Content-Type'' ''application/json'' req])"

definition postAudit :: "post_env \<Rightarrow> Analyzer \<Rightarrow> Job \<Rightarrow> AnalysisResult \<Rightarrow> panic + HttpRequest list" where
  "postAudit env a job result =
     (if az_auditServiceURL a = [] then Inr []
      else post_json env (az_auditServiceURL a @ ''/api/v1/entries'') (po_marshal_audit env job result))"

definition postNotification :: "post_env \<Rightarrow> Analyzer \<Rightarrow> Job \<Rightarrow> AnalysisResult \<Rightarrow> panic + HttpRequest list" where
  "postNotification env a job result =
     (if az_notificationURL a = [] then Inr []
      else post_json env (az_notificationURL a @ ''/api/v1/notify'')
             (po_marshal_notify env \<lparr> nr_JobID = j_ID job, nr_Result = result, nr_Policy = zero_policy, nr_Targets = [''slack''] \<rparr>))"

definition postGitHubCheckRun :: "post_env \<Rightarrow> Client \<Rightarrow> Job \<Rightarrow> AnalysisResult \<Rightarrow> panic + HttpRequest list" where
  "postGitHubCheckRun env c job result =
     (case GitHub.PostCheckRun (po_marshal_check env) (po_rfc3339 env) (po_url_error env) (po_show_error env) (po_net env)
             c (j_RepoOwner job) (j_RepoName job) result of
        (Some err, reqs) \<Rightarrow> Inr reqs
      | (None, reqs) \<Rightarrow>
          if j_PRNumber job > 0 then
            (case PRComment (po_marshal_comment env) (po_url_error env) (po_net env) c (j_RepoOwner job) (j_RepoName job)
                    (j_PRNumber job) result of
               Inl p \<Rightarrow> Inl p
             | Inr (err, reqs') \<Rightarrow> Inr (reqs @ reqs'))
          else Inr reqs)"

text \<open>The body of the goroutine a run starts for a post.\<close>

definition run_post :: "post_env \<Rightarrow> Analyzer \<Rightarrow> post \<Rightarrow> panic + HttpRequest list" where
  "run_post env a p =
     (case p of
        GoAudit job result \<Rightarrow> postAudit env a job result
      | GoNotification job result \<Rightarrow> postNotification env a job result
      | GoCheckRun job result \<Rightarrow>
          (case az_ghClient a of None \<Rightarrow> Inl NilDeref | Some c \<Rightarrow> postGitHubCheckRun env c job result))"

text \<open>
  When the posts of a job cannot panic: the addresses of the services parse, and a commit that will be
  commented on has at least eight bytes.
\<close>

definition post_safe :: "(string \<Rightarrow> go_error option) \<Rightarrow> Analyzer \<Rightarrow> Job \<Rightarrow> bool" where
  "post_safe url_error a job \<longleftrightarrow>
     (az_auditServiceURL a = [] \<or> url_error (az_auditServiceURL a @ ''/api/v1/entries'') = None)
     \<and> (az_notificationURL a = [] \<or> url_error (az_notificationURL a @ ''/api/v1/notify'') = None)
     \<and> (az_ghClient a = None \<or> j_Source job \<noteq> JobSourceGitHub \<or> j_PRNumber job \<le> 0 \<or> 8 \<le> length (j_CommitSHA job))"

lemma PRComment_returns:
  "8 \<le> length (ar_CommitSHA r) \<Longrightarrow> \<exists>err reqs. PRComment marshal url_error net c owner repo n r = Inr (err, reqs)"
  by (auto simp: PRComment_def buildCommentBody_def str_slice_def Let_def split: sum.splits prod.splits)

lemma run_post_safe:
  assumes "post_safe (po_url_error env) a job" and "p \<in> set (run_posts a job r)" and "ar_CommitSHA r = j_CommitSHA job"
  shows "\<exists>reqs. run_post env a p = Inr reqs"
proof -
  consider "p = GoAudit job r" | "p = GoNotification job r"
    | c where "p = GoCheckRun job r" "az_ghClient a = Some c" "j_Source job = JobSourceGitHub"
    using assms(2) by (auto simp: run_posts_def split: if_splits)
  then show ?thesis
  proof cases
    case 3
    then have "0 < j_PRNumber job \<Longrightarrow> 8 \<le> length (ar_CommitSHA r)" using assms(1,3) by (auto simp: post_safe_def)
    then have "0 < j_PRNumber job \<Longrightarrow> \<exists>err reqs. PRComment (po_marshal_comment env) (po_url_error env) (po_net env) c
        (j_RepoOwner job) (j_RepoName job) (j_PRNumber job) r = Inr (err, reqs)" using PRComment_returns by blast
    then show ?thesis using 3 by (auto simp: run_post_def postGitHubCheckRun_def split: prod.splits option.splits)
  qed (use assms(1) in \<open>auto simp: run_post_def postAudit_def postNotification_def post_json_def NewRequest_def post_safe_def
      split: option.splits\<close>)
qed

section \<open>Collected files\<close>

text \<open>The files a walk reaches, by the names on the way down.\<close>

inductive file_at :: "fs_node \<Rightarrow> string list \<Rightarrow> go_error + string \<Rightarrow> bool" where
  at_here: "file_at (FFile name data) [] data"
| at_below: "e \<in> set es \<Longrightarrow> name \<noteq> ''.git'' \<Longrightarrow> file_at e p data \<Longrightarrow> file_at (FDir name True es) (node_name e # p) data"

inductive_cases file_at_fileE: "file_at (FFile name data) p d"
inductive_cases file_at_dirE: "file_at (FDir name readable es) p d"

definition below :: "string \<Rightarrow> string list \<Rightarrow> string" where
  "below base p = base @ concat (map (\<lambda>n. ''/'' @ n) p)"

lemma below_simps [simp]: "below b [] = b" "below b (n # p) = below (b @ ''/'' @ n) p"
  by (simp_all add: below_def)

definition file_content :: "string \<Rightarrow> string \<Rightarrow> string \<Rightarrow> FileContent" where
  "file_content path rel content = \<lparr> fc_Path = rel, fc_Language = DetectLanguage path, fc_Content = content \<rparr>"

lemma walk_iff:
  "f \<in> set (walk path rel node) \<longleftrightarrow>
     (\<exists>p c. file_at node p (Inr c) \<and> \<not> IsBinary (below path p) \<and> f = file_content (below path p) (below rel p) c)"
proof (induction path rel node arbitrary: f rule: walk.induct)
  case (1 path rel name data)
  show ?case
    by (auto simp: file_content_def intro: at_here elim!: file_at_fileE split: sum.splits)
       (metis at_here below_simps(1))
next
  case (2 path rel name readable es)
  show ?case
  proof (cases "readable \<and> name \<noteq> ''.git''")
    case True
    then have "f \<in> set (walk path rel (FDir name readable es)) \<longleftrightarrow>
        (\<exists>e \<in> set es. f \<in> set (walk (path @ ''/'' @ node_name e) (rel @ ''/'' @ node_name e) e))" by auto
    also have "\<dots> \<longleftrightarrow> (\<exists>e \<in> set es. \<exists>p c. file_at e p (Inr c) \<and> \<not> IsBinary (below (path @ ''/'' @ node_name e) p)
        \<and> f = file_content (below (path @ ''/'' @ node_name e) p) (below (rel @ ''/'' @ node_name e) p) c)"
      using 2 True by blast
    also have "\<dots> \<longleftrightarrow> (\<exists>p c. file_at (FDir name readable es) p (Inr c) \<and> \<not> IsBinary (below path p)
        \<and> f = file_content (below path p) (below rel p) c)"
      using True by (fastforce intro: at_below elim!: file_at_dirE)
    finally show ?thesis .
  next
    case False
    then show ?thesis by (auto elim: file_at_dirE)
  qed
qed

lemma collectFiles_total: "snd (collectFiles r node) = None"
  by (simp add: collectFiles_def split: fs_node.splits)

section \<open>Properties\<close>

text \<open>
  C26: collecting never fails and finds exactly the readable files outside every \<^verbatim>\<open>.git\<close> directory
  whose extension is not one of the binary ones, each with its path from the root, the language
  of its extension and its content.
\<close>

theorem collectFiles_exact:
  "snd (collectFiles dir (FDir name True es)) = None
   \<and> (if name = ''.git'' then fst (collectFiles dir (FDir name True es)) = []
      else set (fst (collectFiles dir (FDir name True es))) =
        {f. \<exists>e p c. e \<in> set es \<and> file_at e p (Inr c) \<and> \<not> IsBinary (below dir (node_name e # p))
              \<and> f = \<lparr> fc_Path = below (node_name e) p,
                     fc_Language = DetectLanguage (below dir (node_name e # p)), fc_Content = c \<rparr>})"
  using collectFiles_total[of dir "FDir name True es"]
  by (auto simp: collectFiles_def walk_iff file_content_def) blast

lemma evaluatePolicy_no_findings: "fst (evaluatePolicy env a j files s) = r \<Longrightarrow> (case r of Inl e \<Rightarrow> [] | Inr fs \<Rightarrow> fs) = []"
  by (auto simp: evaluatePolicy_def split: prod.splits option.splits sum.splits)

text \<open>What a run that is not answered from the cache finds.\<close>

definition local_findings :: "string \<Rightarrow> fs_node \<Rightarrow> Finding list" where
  "local_findings dir node =
     entropyFindings (fst (collectFiles dir node)) @ depFindings (fst (collectFiles dir node))"

lemma Run_miss:
  assumes "Cache.Get (ck_get ck) (cache_key job) (az_resultCache a) = None"
    and "mkdirTemp = Inr dir" and "git (clone_args job dir) = None"
  shows "ro_result (Run env mkdirTemp git tree ck job a s) = Inr (run_result ck job (local_findings dir (tree dir)))
    \<and> ro_analyzer (Run env mkdirTemp git tree ck job a s) = a\<lparr> az_resultCache :=
        Cache.Set (ck_set ck) (cache_key job) (run_result ck job (local_findings dir (tree dir))) (az_resultCache a) \<rparr>
    \<and> ro_posts (Run env mkdirTemp git tree ck job a s) = run_posts a job (run_result ck job (local_findings dir (tree dir)))
    \<and> ro_removed (Run env mkdirTemp git tree ck job a s) = [dir]"
proof -
  obtain files where files: "collectFiles dir (tree dir) = (files, None)"
    using collectFiles_total[of dir "tree dir"] by (metis prod.collapse)
  obtain r s' where ev: "evaluatePolicy env a (j_ID job) files s = (r, s')" by fastforce
  then have "(case r of Inl e \<Rightarrow> [] | Inr fs \<Rightarrow> fs) = []" by (metis evaluatePolicy_no_findings fst_conv)
  with assms files ev show ?thesis
    by (simp add: Run_def cloneRepo_def Let_def local_findings_def)
qed

text \<open>
  C33: the policy engine does not count.  Whatever the policy engine answers, and whether it
  answers at all, a run gives the same result, starts the same posts and leaves the same cache:
  the findings are those of the entropy and the dependency scanner alone.
\<close>

theorem Run_ignores_policy:
  "ro_result (Run env mkdirTemp git tree ck job a s) = ro_result (Run env' mkdirTemp git tree ck job a s')
   \<and> ro_posts (Run env mkdirTemp git tree ck job a s) = ro_posts (Run env' mkdirTemp git tree ck job a s')
   \<and> ro_analyzer (Run env mkdirTemp git tree ck job a s) = ro_analyzer (Run env' mkdirTemp git tree ck job a s')"
proof (cases "Cache.Get (ck_get ck) (cache_key job) (az_resultCache a)")
  case None
  show ?thesis
  proof (cases "\<exists>dir. mkdirTemp = Inr dir \<and> git (clone_args job dir) = None")
    case True
    then obtain dir where "mkdirTemp = Inr dir" "git (clone_args job dir) = None" by blast
    note this = Run_miss[where mkdirTemp = mkdirTemp and git = git, OF None this]
    from this[of env tree s] this[of env' tree s'] show ?thesis by simp
  next
    case False
    with None show ?thesis by (auto simp: Run_def cloneRepo_def split: sum.splits option.splits)
  qed
qed (simp add: Run_def)

text \<open>
  Temporary directories.  A run that creates a directory removes it, exactly once, whether the
  clone fails or the run completes; a run answered from the cache creates none.
\<close>

theorem Run_cleanup:
  "ro_removed (Run env mkdirTemp git tree ck job a s) =
     (case Cache.Get (ck_get ck) (cache_key job) (az_resultCache a) of
        Some _ \<Rightarrow> []
      | None \<Rightarrow> (case mkdirTemp of Inl _ \<Rightarrow> [] | Inr dir \<Rightarrow> [dir]))"
  using collectFiles_total
  by (auto simp: Run_def cloneRepo_def Let_def split: option.splits sum.splits prod.splits)

text \<open>
  The result cache is keyed by owner, name and commit only.  For two hours after a successful
  run, every job with the same key gets that run's findings under its own identifier, without
  cloning, posts or any use of its address and branch; for jobs submitted by hand, which carry
  no owner and name, the key is just the commit text, so such jobs for different repositories
  answer for each other.
\<close>

theorem Run_cache_shared:
  assumes "Cache.Get (ck_get ck) (cache_key job) (az_resultCache a) = None"
    and "mkdirTemp = Inr dir" and "git (clone_args job dir) = None"
    and "c_ttl (az_resultCache a) = 7200 * Second"
    and "cache_key job' = cache_key job" and "ck_get ck' \<le> ck_set ck + 7200 * Second"
  shows "let first = Run env mkdirTemp git tree ck job a s;
             second = Run env' mkdirTemp' git' tree' ck' job' (ro_analyzer first) s'
    in ro_result second =
         Inr ((run_result ck job (local_findings dir (tree dir)))\<lparr> ar_JobID := j_ID job' \<rparr>)
       \<and> ro_removed second = [] \<and> ro_posts second = []"
proof -
  let ?r = "run_result ck job (local_findings dir (tree dir))"
  have "ro_analyzer (Run env mkdirTemp git tree ck job a s) =
      a\<lparr> az_resultCache := Cache.Set (ck_set ck) (cache_key job) ?r (az_resultCache a) \<rparr>"
    using Run_miss[where git = git, OF assms(1-3), of env tree s] by simp
  moreover have "Cache.Get (ck_get ck') (cache_key job') (Cache.Set (ck_set ck) (cache_key job) ?r (az_resultCache a)) = Some ?r"
    using assms(4-6) by (simp add: ttl_cache.find_store)
  ultimately show ?thesis by (simp add: Run_def Let_def)
qed

definition ex_manual :: "string \<Rightarrow> string \<Rightarrow> Job" where
  "ex_manual i url = (ex_job i)\<lparr> j_RepoURL := url \<rparr>"

definition ex_clock :: "int \<Rightarrow> clock" where
  "ex_clock t = \<lparr> ck_get = t, ck_start = t, ck_completed = t, ck_since = t, ck_set = t \<rparr>"

definition ex_env :: "unit policy_env" where
  "ex_env = \<lparr> pe_rnd = (\<lambda>_. 0), pe_ctx = (\<lambda>_. None), pe_url_error = (\<lambda>_. None),
     pe_net = (\<lambda>_ s. (Inl (None, ContextCanceled), s)), pe_marshal = (\<lambda>_. []), pe_decode = (\<lambda>_. Inl ContextCanceled) \<rparr>"

theorem Run_cache_shared_witness:
  "let first = Run ex_env (Inr ''d1'') (\<lambda>_. None) (\<lambda>_. FDir ''d1'' True []) (ex_clock 0)
        (ex_manual ''1'' ''https://example.org/a'') (analyzer_New [] [] [] []) ();
       second = Run ex_env (Inr ''d2'') (\<lambda>_. None) (\<lambda>_. FDir ''d2'' True []) (ex_clock 5)
        (ex_manual ''2'' ''https://example.org/b'') (ro_analyzer first) ()
   in ro_result second =
        Inr ((run_result (ex_clock 0) (ex_manual ''1'' ''https://example.org/a'')
               (local_findings ''d1'' (FDir ''d1'' True [])))\<lparr> ar_JobID := j_ID (ex_manual ''2'' ''https://example.org/b'') \<rparr>)
      \<and> ro_removed second = [] \<and> ro_posts second = []"
  by (rule Run_cache_shared)
     (simp_all add: ex_manual_def ex_job_def cache_key_def analyzer_New_def Cache.New_def Cache.Get_def ex_clock_def Second_def)

end
