(* ===== verification/AnalysisService.thy ===== *)
theory AnalysisService
  imports Analyzer Metrics
begin

text \<open>
  The analysis service (\<^verbatim>\<open>main.go\<close>, \<^verbatim>\<open>workers.go\<close>): the HTTP handlers, the consumer goroutine that
  moves jobs from the queue to the pool, the workers, the goroutines that collect results, those that
  a run starts to post its result, and the shutdown, as one transition system.  Every step is one atomic action of one goroutine, so the
  runs are the interleavings of the program.
\<close>

section \<open>The worker pool\<close>

text \<open>
  \<open>p_jobs\<close> is the buffer of the pool's channel, \<open>p_idle\<close> the number of workers waiting in their
  select, \<open>p_busy\<close> the jobs of the workers inside \<^verbatim>\<open>Run\<close>.
\<close>

record Pool =
  p_workers :: int
  p_jobs :: "Job list"
  p_cap :: nat
  p_closed :: bool
  p_idle :: nat
  p_busy :: "Job list"

text \<open>The channel has room for four jobs per worker; a negative capacity panics.\<close>

definition NewPool :: "int \<Rightarrow> panic + Pool" where
  "NewPool workers =
     (if workers * 4 < 0 then Inl MakeChanSize
      else Inr \<lparr> p_workers = workers, p_jobs = [], p_cap = nat (workers * 4), p_closed = False,
                 p_idle = nat workers, p_busy = [] \<rparr>)"

text \<open>Sending on the pool's channel: \<open>None\<close> while it blocks.\<close>

definition Submit :: "Job \<Rightarrow> Pool \<Rightarrow> (panic + Pool) option" where
  "Submit job p =
     (if p_closed p then Some (Inl SendOnClosed)
      else if length (p_jobs p) < p_cap p then Some (Inr (p\<lparr> p_jobs := p_jobs p @ [job] \<rparr>))
      else None)"

text \<open>Closing the channel; the wait for the workers that follows changes nothing.\<close>

definition Stop :: "Pool \<Rightarrow> panic + Pool" where
  "Stop p = (if p_closed p then Inl CloseOfClosed else Inr (p\<lparr> p_closed := True \<rparr>))"

text \<open>
  What an idle worker's select can do: take a job, return because the channel is closed and empty,
  return because the context is cancelled.  With several cases ready the choice is open.
\<close>

definition work :: "go_error option \<Rightarrow> Pool \<Rightarrow> (Job option \<times> Pool) list" where
  "work ctx p =
     (case p_idle p of
        0 \<Rightarrow> []
      | Suc n \<Rightarrow>
          (case p_jobs p of
             job # rest \<Rightarrow> [(Some job, p\<lparr> p_idle := n, p_jobs := rest, p_busy := p_busy p @ [job] \<rparr>)]
           | [] \<Rightarrow> if p_closed p then [(None, p\<lparr> p_idle := n \<rparr>)] else []) @
          (if ctx \<noteq> None then [(None, p\<lparr> p_idle := n \<rparr>)] else []))"

section \<open>State\<close>

text \<open>
  \<open>sv_pending\<close> counts the handlers that have enqueued a job and not yet counted it, \<open>sv_hand\<close> is
  the job the consumer has dequeued and not yet submitted, \<open>sv_fin\<close> the results waiting in result
  channels (each has room for its one result), \<open>sv_posts\<close> the posting goroutines that have been started
  and have not ended.  \<open>sv_accepted\<close> and \<open>sv_done\<close> are the history of jobs accepted and recorded.
  \<open>sv_url_error\<close> is how the parser of addresses answers, and \<open>sv_analyzer\<close> the analyzer; its cache is left open
  here, an analysis can be answered from it at any time.
\<close>

record service =
  sv_queue :: InMemory
  sv_pending :: nat
  sv_hand :: "Job option"
  sv_consumer :: bool
  sv_pool :: Pool
  sv_fin :: "(Job \<times> AnalysisResult) list"
  sv_posts :: "post list"
  sv_results :: "string \<rightharpoonup> AnalysisResult"
  sv_jobsQueued :: uint64
  sv_jobsCompleted :: uint64
  sv_jobsFailed :: uint64
  sv_queueDepth :: int64
  sv_cancelled :: bool
  sv_panicked :: bool
  sv_accepted :: "Job list"
  sv_done :: "Job list"
  sv_analyzer :: Analyzer
  sv_url_error :: "string \<Rightarrow> go_error option"

definition start_service :: "(string \<Rightarrow> go_error option) \<Rightarrow> Analyzer \<Rightarrow> int \<Rightarrow> panic + service" where
  "start_service url_error a workers =
     (case NewPool workers of
        Inl e \<Rightarrow> Inl e
      | Inr pool \<Rightarrow> Inr
          \<lparr> sv_queue = NewInMemory 512, sv_pending = 0, sv_hand = None, sv_consumer = True, sv_pool = pool, sv_fin = [],
            sv_posts = [], sv_results = Map.empty, sv_jobsQueued = 0, sv_jobsCompleted = 0, sv_jobsFailed = 0, sv_queueDepth = 0,
            sv_cancelled = False, sv_panicked = False, sv_accepted = [], sv_done = [], sv_analyzer = a, sv_url_error = url_error \<rparr>)"

section \<open>Pieces of the handlers and goroutines\<close>

text \<open>The job as the handler completes it before it is enqueued.\<close>

definition prepare_job :: "int \<Rightarrow> Job \<Rightarrow> Job" where
  "prepare_job now job =
     (let j = job\<lparr> j_Status := JobStatusQueued \<rparr>
      in if j_CreatedAt j = 0 then j\<lparr> j_CreatedAt := now \<rparr> else j)"

definition post_reply :: "(Job \<Rightarrow> string) \<Rightarrow> Job \<Rightarrow> Response" where
  "post_reply encode job = write_body (encode job) (WriteHeader StatusAccepted (json_type new_response))"

text \<open>\<^verbatim>\<open>POST /api/v1/jobs\<close> up to the enqueueing: a reply at once, or the job to enqueue.\<close>

definition post_job :: "int \<Rightarrow> go_error + Job \<Rightarrow> Response + Job" where
  "post_job now body =
     (case body of
        Inl err \<Rightarrow> Inl (http_Error ''invalid body'' StatusBadRequest new_response)
      | Inr job \<Rightarrow> Inr (prepare_job now job))"

text \<open>The answer once the enqueueing has returned; only then the job is counted.\<close>

definition enqueue_reply :: "(Job \<Rightarrow> string) \<Rightarrow> Job \<Rightarrow> go_error option \<Rightarrow> Response" where
  "enqueue_reply encode job outcome =
     (case outcome of
        Some err \<Rightarrow> http_Error ''queue full'' StatusServiceUnavailable new_response
      | None \<Rightarrow> post_reply encode job)"

definition get_job :: "(AnalysisResult \<Rightarrow> string) \<Rightarrow> string \<Rightarrow> service \<Rightarrow> Response" where
  "get_job encode i s =
     (case sv_results s i of
        None \<Rightarrow> http_Error ''not found'' StatusNotFound new_response
      | Some r \<Rightarrow> write_body (encode r) (json_type new_response))"

text \<open>\<open>order\<close> lists the keys of the results in the order of the map iteration.\<close>

definition list_jobs :: "(AnalysisResult list \<Rightarrow> string) \<Rightarrow> string list \<Rightarrow> service \<Rightarrow> Response" where
  "list_jobs encode order s =
     write_body (encode (List.map_filter (sv_results s) order)) (json_type new_response)"

definition zero_result :: "string \<Rightarrow> AnalysisResult" where
  "zero_result i =
     \<lparr> ar_JobID = i, ar_RepoOwner = [], ar_RepoName = [], ar_CommitSHA = [], ar_Language = [], ar_Findings = [],
       ar_Summary = \<lparr> s_TotalFindings = 0, s_BySeverity = Map.empty, s_ByCategory = Map.empty, s_Score = 0, s_Passed = False \<rparr>,
       ar_CompletedAt = 0, ar_DurationMS = 0 \<rparr>"

text \<open>What a worker sends for the outcome of \<^verbatim>\<open>Run\<close>.\<close>

definition worker_result :: "Job \<Rightarrow> go_error + AnalysisResult \<Rightarrow> AnalysisResult" where
  "worker_result job outcome = (case outcome of Inl err \<Rightarrow> zero_result (j_ID job) | Inr r \<Rightarrow> r)"

text \<open>The goroutine that waits for a result.\<close>

definition collect_result :: "Job \<Rightarrow> AnalysisResult \<Rightarrow> service \<Rightarrow> service" where
  "collect_result job r s =
     (let s1 = (if s_TotalFindings (ar_Summary r) \<ge> 0
                then s\<lparr> sv_jobsCompleted := Counter_Inc (sv_jobsCompleted s) \<rparr>
                else s\<lparr> sv_jobsFailed := Counter_Inc (sv_jobsFailed s) \<rparr>)
      in s1\<lparr> sv_results := (sv_results s1)(j_ID job \<mapsto> r) \<rparr>)"

text \<open>
  What \<^verbatim>\<open>Run\<close> can give, whatever the cache holds: an error and no posts; or a result for the job, whose
  summary counts its findings, either from the cache and without posts, or a new one for the commit
  of the job and with its posts.
\<close>

definition run_outcome :: "Analyzer \<Rightarrow> Job \<Rightarrow> go_error + AnalysisResult \<Rightarrow> post list \<Rightarrow> bool" where
  "run_outcome a job outcome posts =
     (case outcome of
        Inl err \<Rightarrow> posts = []
      | Inr r \<Rightarrow> ar_JobID r = j_ID job \<and> s_TotalFindings (ar_Summary r) = int (length (ar_Findings r))
          \<and> (posts = [] \<or> posts = run_posts a job r \<and> ar_CommitSHA r = j_CommitSHA job))"

section \<open>Steps\<close>

text \<open>The context as the dequeue sees it.\<close>

definition svc_ctx :: "service \<Rightarrow> go_error option" where
  "svc_ctx s = (if sv_cancelled s then Some ContextCanceled else None)"

text \<open>
  A panic in any goroutine ends the process, so that no step follows it.  A post gets any answer of the
  network, and a run starts its posts and hands over its result in one step: a panic of a post
  in between leaves the same results recorded as one right after it.
\<close>

inductive svc_step :: "service \<Rightarrow> service \<Rightarrow> bool" where
  enqueue: "\<not> sv_panicked s \<Longrightarrow> post_job now body = Inr job \<Longrightarrow> (None, q) \<in> set (Enqueue None job (sv_queue s)) \<Longrightarrow>
    svc_step s (s\<lparr> sv_queue := q, sv_pending := Suc (sv_pending s), sv_accepted := sv_accepted s @ [job] \<rparr>)"
| count: "\<not> sv_panicked s \<Longrightarrow> sv_pending s = Suc n \<Longrightarrow>
    svc_step s (s\<lparr> sv_pending := n, sv_jobsQueued := Counter_Inc (sv_jobsQueued s),
                   sv_queueDepth := Gauge_Inc (sv_queueDepth s) \<rparr>)"
| dequeue: "\<not> sv_panicked s \<Longrightarrow> sv_consumer s \<Longrightarrow> sv_hand s = None \<Longrightarrow>
    (Inr job, q) \<in> set (Dequeue (svc_ctx s) (sv_queue s)) \<Longrightarrow>
    svc_step s (s\<lparr> sv_queue := q, sv_hand := Some job, sv_queueDepth := Gauge_Dec (sv_queueDepth s) \<rparr>)"
| consumer_returns: "\<not> sv_panicked s \<Longrightarrow> sv_consumer s \<Longrightarrow> sv_hand s = None \<Longrightarrow>
    (Inl err, q) \<in> set (Dequeue (svc_ctx s) (sv_queue s)) \<Longrightarrow>
    svc_step s (s\<lparr> sv_consumer := False \<rparr>)"
| submit: "\<not> sv_panicked s \<Longrightarrow> sv_hand s = Some job \<Longrightarrow> Submit job (sv_pool s) = Some (Inr pool) \<Longrightarrow>
    svc_step s (s\<lparr> sv_hand := None, sv_pool := pool \<rparr>)"
| submit_panics: "\<not> sv_panicked s \<Longrightarrow> sv_hand s = Some job \<Longrightarrow> Submit job (sv_pool s) = Some (Inl e) \<Longrightarrow>
    svc_step s (s\<lparr> sv_panicked := True \<rparr>)"
| worker_step: "\<not> sv_panicked s \<Longrightarrow> (taken, pool) \<in> set (work (svc_ctx s) (sv_pool s)) \<Longrightarrow>
    svc_step s (s\<lparr> sv_pool := pool \<rparr>)"
| finish: "\<not> sv_panicked s \<Longrightarrow> p_busy (sv_pool s) = js @ job # ks \<Longrightarrow> run_outcome (sv_analyzer s) job outcome posts \<Longrightarrow>
    svc_step s (s\<lparr> sv_pool := (sv_pool s)\<lparr> p_busy := js @ ks, p_idle := Suc (p_idle (sv_pool s)) \<rparr>,
                   sv_fin := sv_fin s @ [(job, worker_result job outcome)], sv_posts := sv_posts s @ posts \<rparr>)"
| post: "\<not> sv_panicked s \<Longrightarrow> sv_posts s = ps @ p # qs \<Longrightarrow> po_url_error env = sv_url_error s \<Longrightarrow>
    run_post env (sv_analyzer s) p = Inr reqs \<Longrightarrow> svc_step s (s\<lparr> sv_posts := ps @ qs \<rparr>)"
| post_panics: "\<not> sv_panicked s \<Longrightarrow> sv_posts s = ps @ p # qs \<Longrightarrow> po_url_error env = sv_url_error s \<Longrightarrow>
    run_post env (sv_analyzer s) p = Inl e \<Longrightarrow> svc_step s (s\<lparr> sv_posts := ps @ qs, sv_panicked := True \<rparr>)"
| collect: "\<not> sv_panicked s \<Longrightarrow> sv_fin s = fs @ (job, r) # gs \<Longrightarrow>
    svc_step s (collect_result job r (s\<lparr> sv_fin := fs @ gs, sv_done := sv_done s @ [job] \<rparr>))"
| cancel: "\<not> sv_panicked s \<Longrightarrow> \<not> sv_cancelled s \<Longrightarrow> svc_step s (s\<lparr> sv_cancelled := True \<rparr>)"
| stop_pool: "\<not> sv_panicked s \<Longrightarrow> sv_cancelled s \<Longrightarrow> Stop (sv_pool s) = Inr pool \<Longrightarrow> svc_step s (s\<lparr> sv_pool := pool \<rparr>)"

inductive_cases svc_stepE: "svc_step s s'"

definition reachable :: "int \<Rightarrow> service \<Rightarrow> bool" where
  "reachable workers s \<longleftrightarrow> (\<exists>url_error a s0. start_service url_error a workers = Inr s0 \<and> svc_step\<^sup>*\<^sup>* s0 s)"

lemma reachable_induct [consumes 1, case_names start step]:
  assumes "reachable w s" and "\<And>url_error a s0. start_service url_error a w = Inr s0 \<Longrightarrow> P s0"
    and "\<And>s s'. reachable w s \<Longrightarrow> P s \<Longrightarrow> svc_step s s' \<Longrightarrow> P s'"
  shows "P s"
proof -
  obtain url_error a s0 where s0: "start_service url_error a w = Inr s0" "svc_step\<^sup>*\<^sup>* s0 s" using assms(1) by (auto simp: reachable_def)
  from s0(2) show ?thesis
  proof (induction rule: rtranclp_induct)
    case (step y z)
    moreover have "reachable w y" using step.hyps(1) s0(1) unfolding reachable_def by blast
    ultimately show ?case using assms(3) by blast
  qed (rule assms(2)[OF s0(1)])
qed

lemma reachable_step: "reachable w s \<Longrightarrow> svc_step s s' \<Longrightarrow> reachable w s'"
  by (auto simp: reachable_def intro: rtranclp.rtrancl_into_rtrancl)

lemma start_serviceE:
  assumes "start_service url_error a w = Inr s"
  obtains "0 \<le> w" "sv_queue s = NewInMemory 512" "sv_pending s = 0" "sv_hand s = None" "sv_consumer s" "sv_fin s = []" "sv_posts s = []"
    "sv_results s = Map.empty" "sv_jobsQueued s = 0" "sv_jobsCompleted s = 0" "sv_jobsFailed s = 0" "sv_queueDepth s = 0"
    "\<not> sv_cancelled s" "\<not> sv_panicked s" "sv_accepted s = []" "sv_done s = []"
    "sv_pool s = \<lparr> p_workers = w, p_jobs = [], p_cap = nat (w * 4), p_closed = False, p_idle = nat w, p_busy = [] \<rparr>"
  using assms by (auto simp: start_service_def NewPool_def split: if_splits)

lemmas pool_defs = Submit_def Stop_def work_def

lemma collect_result_fields [simp]:
  "sv_queue (collect_result j r s) = sv_queue s" "sv_hand (collect_result j r s) = sv_hand s"
  "sv_pool (collect_result j r s) = sv_pool s" "sv_fin (collect_result j r s) = sv_fin s"
  "sv_accepted (collect_result j r s) = sv_accepted s" "sv_posts (collect_result j r s) = sv_posts s"
  "sv_analyzer (collect_result j r s) = sv_analyzer s" "sv_url_error (collect_result j r s) = sv_url_error s"
  "sv_done (collect_result j r s) = sv_done s" "sv_pending (collect_result j r s) = sv_pending s"
  "sv_queueDepth (collect_result j r s) = sv_queueDepth s"
  "sv_consumer (collect_result j r s) = sv_consumer s" "sv_cancelled (collect_result j r s) = sv_cancelled s"
  "sv_panicked (collect_result j r s) = sv_panicked s"
  "sv_jobsQueued (collect_result j r s) = sv_jobsQueued s"
  "sv_results (collect_result j r s) = (sv_results s)(j_ID j \<mapsto> r)"
  by (simp_all add: collect_result_def Let_def)

section \<open>Invariants\<close>

text \<open>Where the accepted jobs are.\<close>

definition located :: "service \<Rightarrow> Job multiset" where
  "located s = mset (ch (sv_queue s)) + mset_set (set_option (sv_hand s)) + mset (p_jobs (sv_pool s)) + mset (p_busy (sv_pool s))
     + mset (map fst (sv_fin s)) + mset (sv_done s)"

definition conserved :: "service \<Rightarrow> bool" where
  "conserved s \<longleftrightarrow> mset (sv_accepted s) = located s"

lemma conserved_step: "svc_step s s' \<Longrightarrow> conserved s \<Longrightarrow> conserved s'"
  by (induction rule: svc_step.induct)
     (auto simp: conserved_def located_def Enqueue_def Dequeue_def pool_defs split: if_splits list.splits option.splits nat.splits,
      (metis mset.simps(2))?)

lemma reachable_conserved: "reachable w s \<Longrightarrow> conserved s"
proof (induction rule: reachable_induct)
  case (start url_error a s0)
  then show ?case by (elim start_serviceE) (simp add: conserved_def located_def NewInMemory_def)
qed (rule conserved_step)

text \<open>
  The counters: the gauge shows the queue length less the handlers that have not counted yet,
  every recorded job counts as completed and none as failed, and the results are those of the
  recorded jobs, each with the identifier of its job.
\<close>

definition counted :: "service \<Rightarrow> bool" where
  "counted s \<longleftrightarrow>
     sv_queueDepth s = of_nat (length (ch (sv_queue s))) - of_nat (sv_pending s)
     \<and> sv_jobsQueued s = of_nat (length (sv_accepted s)) - of_nat (sv_pending s)
     \<and> sv_jobsCompleted s = of_nat (length (sv_done s)) \<and> sv_jobsFailed s = 0
     \<and> dom (sv_results s) = j_ID ` set (sv_done s)
     \<and> list_all (\<lambda>(j, r). 0 \<le> s_TotalFindings (ar_Summary r) \<and> ar_JobID r = j_ID j) (sv_fin s)
     \<and> (\<forall>i r. sv_results s i = Some r \<longrightarrow> ar_JobID r = i)"

lemma worker_result_total:
  assumes "run_outcome a j x ps"
  shows "0 \<le> s_TotalFindings (ar_Summary (worker_result j x))" "ar_JobID (worker_result j x) = j_ID j"
  using assms by (auto simp: run_outcome_def worker_result_def zero_result_def split: sum.splits)

lemma collect_result_counters:
  "0 \<le> s_TotalFindings (ar_Summary r) \<Longrightarrow> sv_jobsCompleted (collect_result j r s) = sv_jobsCompleted s + 1"
  "0 \<le> s_TotalFindings (ar_Summary r) \<Longrightarrow> sv_jobsFailed (collect_result j r s) = sv_jobsFailed s"
  by (simp_all add: collect_result_def Let_def Counter_Inc_def)

lemma counted_step: "svc_step s s' \<Longrightarrow> counted s \<Longrightarrow> counted s'"
proof (induction rule: svc_step.induct)
  case (dequeue s job q)
  then have "ch (sv_queue s) = job # ch q"
    by (auto simp: Dequeue_def svc_ctx_def split: if_splits list.splits)
  with dequeue show ?case by (simp add: counted_def Gauge_Dec_def)
next
  case (collect s fs job r gs)
  then show ?case by (auto simp: counted_def collect_result_counters)
qed (auto simp: counted_def Enqueue_def Gauge_Inc_def Counter_Inc_def worker_result_total split: if_splits)

lemma reachable_counted: "reachable w s \<Longrightarrow> counted s"
proof (induction rule: reachable_induct)
  case (start url_error a s0)
  then show ?case by (elim start_serviceE) (simp add: counted_def NewInMemory_def)
qed (rule counted_step)

text \<open>A recorded job stays recorded.\<close>

lemma results_grow: "svc_step s s' \<Longrightarrow> dom (sv_results s) \<subseteq> dom (sv_results s')"
  by (induction rule: svc_step.induct) (auto simp: collect_result_def Let_def)

lemma results_kept: "svc_step\<^sup>*\<^sup>* s s' \<Longrightarrow> dom (sv_results s) \<subseteq> dom (sv_results s')"
  by (induction rule: rtranclp_induct) (use results_grow in blast)+

text \<open>Workers and channels keep their sizes until the shutdown begins.\<close>

definition running :: "int \<Rightarrow> service \<Rightarrow> bool" where
  "running w s \<longleftrightarrow> p_cap (sv_pool s) = nat (w * 4) \<and> (p_closed (sv_pool s) \<longrightarrow> sv_cancelled s)
     \<and> (\<not> sv_cancelled s \<longrightarrow> sv_consumer s \<and> p_idle (sv_pool s) + length (p_busy (sv_pool s)) = nat w)"

lemma running_step: "svc_step s s' \<Longrightarrow> running w s \<Longrightarrow> running w s'"
  by (induction rule: svc_step.induct)
     (auto simp: running_def Dequeue_def svc_ctx_def pool_defs split: if_splits list.splits nat.splits)

lemma reachable_running: "reachable w s \<Longrightarrow> running w s"
proof (induction rule: reachable_induct)
  case (start url_error a s0)
  then show ?case by (elim start_serviceE) (simp add: running_def)
qed (rule running_step)

section \<open>Draining\<close>

text \<open>
  The steps the service takes by itself: every step but a new request and the shutdown.  The work
  left bounds their number: a queued job needs at most eight, three of them for its posts, a recorded one none.
\<close>

definition internal :: "service \<Rightarrow> service \<Rightarrow> bool" where
  "internal s s' \<longleftrightarrow> svc_step s s' \<and> sv_accepted s' = sv_accepted s \<and> sv_cancelled s' = sv_cancelled s"

definition work_left :: "service \<Rightarrow> nat" where
  "work_left s = sv_pending s + 8 * length (ch (sv_queue s)) + (case sv_hand s of None \<Rightarrow> 0 | Some _ \<Rightarrow> 7)
     + 6 * length (p_jobs (sv_pool s)) + 5 * length (p_busy (sv_pool s)) + length (sv_fin s) + length (sv_posts s)"

lemma run_outcome_posts: "run_outcome a job x ps \<Longrightarrow> length ps \<le> 3"
  by (auto simp: run_outcome_def run_posts_def split: sum.splits)

lemma internal_decreases:
  assumes "internal s s'" and "\<not> sv_cancelled s" and "running w s"
  shows "work_left s' < work_left s"
proof -
  have "svc_step s s'" using assms(1) by (simp add: internal_def)
  then show ?thesis
    using assms
    by (cases rule: svc_step.cases)
       (auto simp: internal_def running_def work_left_def Dequeue_def svc_ctx_def pool_defs
             dest!: run_outcome_posts sym[of "_ # _" "ch _"] sym[of "_ # _" "p_jobs _"]
             split: if_splits list.splits nat.splits option.splits)
qed

lemma internal_enabled:
  assumes "running w s" and "\<not> sv_cancelled s" and "0 < w" and "work_left s \<noteq> 0" and "\<not> sv_panicked s"
  shows "\<exists>s'. internal s s'"
proof -
  have r: "\<not> sv_panicked s" "\<not> p_closed (sv_pool s)" "sv_consumer s"
      "p_idle (sv_pool s) + length (p_busy (sv_pool s)) = nat w" "p_cap (sv_pool s) = nat (w * 4)"
    using assms(1,2,5) by (auto simp: running_def)
  consider (pending) n where "sv_pending s = Suc n"
    | (fin) j r fs where "sv_fin s = (j, r) # fs" | (busy) j js where "p_busy (sv_pool s) = j # js"
    | (pool) j js where "p_busy (sv_pool s) = []" "p_jobs (sv_pool s) = j # js"
    | (hand) j where "p_jobs (sv_pool s) = []" "sv_hand s = Some j"
    | (queue) j js where "sv_hand s = None" "ch (sv_queue s) = j # js" | (posts) p ps where "sv_posts s = p # ps"
    using assms(4)
    by (cases "sv_pending s"; cases "sv_fin s"; cases "sv_posts s"; cases "p_busy (sv_pool s)"; cases "p_jobs (sv_pool s)"; cases "sv_hand s"; cases "ch (sv_queue s)")
       (auto simp: work_left_def)
  then show ?thesis
  proof cases
    case pending
    with svc_step.count[of s n] r(1) show ?thesis by (force simp: internal_def)
  next
    case fin
    with svc_step.collect[of s "[]" j r fs] r(1) show ?thesis by (force simp: internal_def)
  next
    case busy
    with svc_step.finish[of s "[]" j js "Inl ContextCanceled" "[]"] r(1) show ?thesis
      by (force simp: internal_def run_outcome_def)
  next
    case pool
    with r(4) assms(3) obtain n where "p_idle (sv_pool s) = Suc n" by (cases "p_idle (sv_pool s)") auto
    with svc_step.worker_step[of s "Some j"
        "(sv_pool s)\<lparr> p_idle := n, p_jobs := js, p_busy := p_busy (sv_pool s) @ [j] \<rparr>"] r(1) pool
    show ?thesis by (force simp: internal_def work_def)
  next
    case hand
    with svc_step.submit[of s j "(sv_pool s)\<lparr> p_jobs := [j] \<rparr>"] r assms(3) show ?thesis
      by (force simp: internal_def Submit_def)
  next
    case queue
    with svc_step.dequeue[of s j "(sv_queue s)\<lparr> ch := js \<rparr>"] r show ?thesis
      by (force simp: internal_def Dequeue_def)
  next
    case posts
    define env where "env = (undefined :: post_env)\<lparr> po_url_error := sv_url_error s \<rparr>"
    have "svc_step s (s\<lparr> sv_posts := ps \<rparr>) \<or> svc_step s (s\<lparr> sv_posts := ps, sv_panicked := True \<rparr>)"
      using svc_step.post[of s "[]" p ps env] svc_step.post_panics[of s "[]" p ps env] posts r(1)
      by (cases "run_post env (sv_analyzer s) p") (simp_all add: env_def)
    then show ?thesis by (auto simp: internal_def)
  qed
qed

lemma internal_run:
  assumes "(internal ^^ n) s s'" and "reachable w s" and "\<not> sv_cancelled s"
  shows "reachable w s' \<and> \<not> sv_cancelled s' \<and> sv_accepted s' = sv_accepted s \<and> n + work_left s' \<le> work_left s"
  using assms(1)
proof (induction n arbitrary: s')
  case 0
  then show ?case using assms by simp
next
  case (Suc n)
  then obtain t where t: "(internal ^^ n) s t" "internal t s'" by auto
  note IH = Suc.IH[OF t(1)]
  have "work_left s' < work_left t"
    using internal_decreases[OF t(2)] IH reachable_running by blast
  then show ?case
    using IH t(2) reachable_step[of w t s'] by (auto simp: internal_def)
qed

lemma work_left_none:
  assumes "conserved s" and "work_left s = 0"
  shows "mset (sv_done s) = mset (sv_accepted s)"
  using assms by (auto simp: conserved_def located_def work_left_def split: option.splits)

text \<open>No post of the accepted jobs can panic.\<close>

definition safe_posts :: "service \<Rightarrow> bool" where
  "safe_posts s \<longleftrightarrow> list_all (post_safe (sv_url_error s) (sv_analyzer s)) (sv_accepted s)"

text \<open>The posts under way belong to accepted jobs.\<close>

definition posts_known :: "service \<Rightarrow> bool" where
  "posts_known s \<longleftrightarrow> (\<forall>p \<in> set (sv_posts s). \<exists>job r. job \<in> set (sv_accepted s)
     \<and> p \<in> set (run_posts (sv_analyzer s) job r) \<and> ar_CommitSHA r = j_CommitSHA job)"

lemma posts_known_step: "svc_step s s' \<Longrightarrow> conserved s \<Longrightarrow> posts_known s \<Longrightarrow> posts_known s'"
proof (induction rule: svc_step.induct)
  case (finish s js job ks outcome posts)
  then have "job \<in># mset (sv_accepted s)" by (simp add: conserved_def located_def)
  then have "job \<in> set (sv_accepted s)" by simp
  with finish show ?case by (fastforce simp: posts_known_def run_outcome_def split: sum.splits)
qed (auto simp: posts_known_def, metis+)

lemma reachable_posts_known: "reachable w s \<Longrightarrow> posts_known s"
proof (induction rule: reachable_induct)
  case (start url_error a s0)
  then show ?case by (elim start_serviceE) (simp add: posts_known_def)
next
  case (step s s')
  then show ?case using posts_known_step reachable_conserved by blast
qed

lemma internal_safe:
  assumes "internal s s'" and "\<not> sv_cancelled s" and "running w s" and "posts_known s" and "safe_posts s"
  shows "safe_posts s' \<and> (sv_panicked s' \<longleftrightarrow> sv_panicked s)"
proof -
  have "svc_step s s'" using assms(1) by (simp add: internal_def)
  then show ?thesis
  proof (cases rule: svc_step.cases)
    case (post_panics ps p qs env e)
    then obtain job r where "job \<in> set (sv_accepted s)" "p \<in> set (run_posts (sv_analyzer s) job r)" "ar_CommitSHA r = j_CommitSHA job"
      using assms(4) unfolding posts_known_def by fastforce
    then show ?thesis
      using run_post_safe[of env "sv_analyzer s" job p r] assms(5) post_panics by (auto simp: safe_posts_def list_all_iff)
  next
    case (submit_panics job e)
    then show ?thesis using assms(2,3) by (auto simp: running_def Submit_def split: if_splits)
  qed (use assms(1,5) in \<open>auto simp: internal_def safe_posts_def\<close>)
qed

lemma internal_run_safe:
  assumes "(internal ^^ n) s s'" and "reachable w s" and "\<not> sv_cancelled s" and "safe_posts s"
  shows "safe_posts s' \<and> (sv_panicked s' \<longleftrightarrow> sv_panicked s)"
  using assms(1)
proof (induction n arbitrary: s')
  case (Suc n)
  then obtain t where t: "(internal ^^ n) s t" "internal t s'" by auto
  note run = internal_run[OF t(1) assms(2,3)]
  show ?case
    using Suc.IH[OF t(1)] internal_safe[OF t(2), of w] run reachable_running[of w t] reachable_posts_known[of w t] by blast
qed (use assms(4) in simp)

lemma drained:
  assumes "reachable w s" and "\<not> sv_cancelled s" and "0 < w" and "(internal ^^ n) s s'" and "\<nexists>t. internal s' t"
    and "\<not> sv_panicked s'"
  shows "mset (sv_done s') = mset (sv_accepted s) \<and> dom (sv_results s') = j_ID ` set (sv_accepted s)"
proof -
  note run = internal_run[OF assms(4,1,2)]
  have "work_left s' = 0"
    using internal_enabled[OF reachable_running _ assms(3)] run assms(5,6) by blast
  then have m: "mset (sv_done s') = mset (sv_accepted s)"
    using work_left_none[OF reachable_conserved] run by auto
  moreover have "dom (sv_results s') = j_ID ` set (sv_done s')"
    using reachable_counted[of w s'] run by (simp add: counted_def)
  ultimately show ?thesis using mset_eq_setD[OF m] by simp
qed

text \<open>
  A state with \<open>P\<close> is reached on every run of the service by itself: it holds already, or the service can
  go on and whatever it does leads to such a state.
\<close>

inductive inevitable :: "(service \<Rightarrow> bool) \<Rightarrow> service \<Rightarrow> bool" for P where
  holds: "P s \<Longrightarrow> inevitable P s"
| goes_on: "internal s t \<Longrightarrow> (\<And>t. internal s t \<Longrightarrow> inevitable P t) \<Longrightarrow> inevitable P s"

lemma inevitable_results:
  assumes "reachable w s" and "\<not> sv_cancelled s" and "0 < w" and "safe_posts s" and "\<not> sv_panicked s"
  shows "inevitable (\<lambda>s'. dom (sv_results s') = j_ID ` set (sv_accepted s) \<and> mset (sv_done s') = mset (sv_accepted s)) s"
  using assms
proof (induction "work_left s" arbitrary: s rule: less_induct)
  case less
  show ?case
  proof (cases "\<exists>t. internal s t")
    case True
    have "inevitable (\<lambda>s'. dom (sv_results s') = j_ID ` set (sv_accepted s) \<and> mset (sv_done s') = mset (sv_accepted s)) t"
      if t: "internal s t" for t
    proof -
      have one: "(internal ^^ 1) s t" using t by auto
      note run = internal_run[OF one less.prems(1,2)] internal_run_safe[OF one less.prems(1,2,4)]
      then have "work_left t < work_left s" by simp
      from less.hyps[OF this] run less.prems show ?thesis by simp
    qed
    with True show ?thesis by (blast intro: inevitable.goes_on)
  next
    case False
    with drained[OF less.prems(1-3), of 0 s] less.prems(5) show ?thesis by (auto intro: inevitable.holds)
  qed
qed

lemma inevitable_mono: "inevitable P s \<Longrightarrow> (\<And>s. P s \<Longrightarrow> Q s) \<Longrightarrow> inevitable Q s"
  by (induction rule: inevitable.induct) (blast intro: inevitable.intros)+

section \<open>The analyzer's outcomes\<close>

text \<open>
  The \<open>finish\<close> step lets a worker end with any outcome and posts that \<open>run_outcome\<close> admits; those of \<^verbatim>\<open>Run\<close>
  are among them, as long as the cache holds results whose summaries count their findings, which a
  run keeps, and whatever else it holds.
\<close>

definition cache_counts :: "Analyzer \<Rightarrow> bool" where
  "cache_counts a \<longleftrightarrow> (\<forall>e \<in> ran (c_items (az_resultCache a)). s_TotalFindings (ar_Summary (e_value e)) = int (length (ar_Findings (e_value e))))"

lemma run_outcome_cache: "run_outcome (a\<lparr> az_resultCache := c \<rparr>) = run_outcome a"
  by (intro ext) (simp add: run_outcome_def run_posts_def split: sum.splits)

lemma Run_outcome:
  assumes "cache_counts a"
  shows "run_outcome a job (ro_result (Run env mkdirTemp git tree ck job a s)) (ro_posts (Run env mkdirTemp git tree ck job a s))
    \<and> cache_counts (ro_analyzer (Run env mkdirTemp git tree ck job a s))"
proof (cases "Cache.Get (ck_get ck) (cache_key job) (az_resultCache a)")
  case (Some cached)
  then have "s_TotalFindings (ar_Summary cached) = int (length (ar_Findings cached))"
    using assms by (fastforce simp: cache_counts_def Cache.Get_def ran_def split: option.splits if_splits)
  then show ?thesis using Some assms by (simp add: Run_def run_outcome_def)
next
  case None
  have "cache_counts (a\<lparr> az_resultCache := Cache.Set t k (run_result ck job fs) (az_resultCache a) \<rparr>)" for t k fs
    using assms
    by (auto simp: cache_counts_def Cache.Set_def run_result_def ran_def split: if_splits)
  then show ?thesis using None assms
    by (auto simp: Run_def run_outcome_def run_result_def Let_def
             split: prod.splits sum.splits option.splits)
qed

section \<open>Properties\<close>

text \<open>
  C15: no job is lost or duplicated.  In every reachable state, under every interleaving and also
  during shutdown, the jobs accepted so far are, as a multiset, the jobs in the queue, in the hand
  of the consumer, in the pool, with a worker, waiting to be recorded, and recorded.
\<close>

theorem jobs_conserved:
  assumes "reachable w s"
  shows "mset (sv_accepted s) =
    mset (ch (sv_queue s)) + mset_set (set_option (sv_hand s)) + mset (p_jobs (sv_pool s)) + mset (p_busy (sv_pool s))
    + mset (map fst (sv_fin s)) + mset (sv_done s)"
  using reachable_conserved[OF assms] by (simp add: conserved_def located_def)

definition ex_analyzer :: Analyzer where
  "ex_analyzer = analyzer_New ''token'' ''http://localhost:8081'' ''http://localhost:8083'' ''http://localhost:8084''"

definition ex_analysis :: service where
  "ex_analysis =
     \<lparr> sv_queue = \<lparr> ch = [prepare_job 7 (ex_job ''a'')], ch_cap = 512 \<rparr>, sv_pending = 1, sv_hand = None, sv_consumer = True,
       sv_pool = \<lparr> p_workers = 1, p_jobs = [], p_cap = 4, p_closed = False, p_idle = 1, p_busy = [] \<rparr>, sv_fin = [], sv_posts = [],
       sv_results = Map.empty, sv_jobsQueued = 0, sv_jobsCompleted = 0, sv_jobsFailed = 0, sv_queueDepth = 0,
       sv_cancelled = False, sv_panicked = False, sv_accepted = [prepare_job 7 (ex_job ''a'')], sv_done = [],
       sv_analyzer = ex_analyzer, sv_url_error = (\<lambda>u. None) \<rparr>"

lemma ex_reachable: "reachable 1 ex_analysis"
proof -
  obtain s0 where s0: "start_service (\<lambda>u. None) ex_analyzer 1 = Inr s0" by (simp add: start_service_def NewPool_def)
  have "svc_step s0 (s0\<lparr> sv_queue := \<lparr> ch = [prepare_job 7 (ex_job ''a'')], ch_cap = 512 \<rparr>,
      sv_pending := Suc (sv_pending s0), sv_accepted := sv_accepted s0 @ [prepare_job 7 (ex_job ''a'')] \<rparr>)"
    by (rule svc_step.enqueue[where now = 7 and body = "Inr (ex_job ''a'')"])
       (use s0 in \<open>auto simp: start_service_def NewPool_def NewInMemory_def Enqueue_def post_job_def\<close>)
  moreover have "s0\<lparr> sv_queue := \<lparr> ch = [prepare_job 7 (ex_job ''a'')], ch_cap = 512 \<rparr>,
      sv_pending := Suc (sv_pending s0), sv_accepted := sv_accepted s0 @ [prepare_job 7 (ex_job ''a'')] \<rparr> = ex_analysis"
    using s0 by (auto simp: start_service_def NewPool_def ex_analysis_def)
  ultimately show ?thesis using s0 by (auto simp: reachable_def)
qed

theorem jobs_conserved_witness:
  "mset (sv_accepted ex_analysis) =
    mset (ch (sv_queue ex_analysis)) + mset_set (set_option (sv_hand ex_analysis)) + mset (p_jobs (sv_pool ex_analysis))
    + mset (p_busy (sv_pool ex_analysis)) + mset (map fst (sv_fin ex_analysis)) + mset (sv_done ex_analysis)"
  by (rule jobs_conserved[OF ex_reachable])

text \<open>
  C7: every accepted job is completed, unless a post panics.  With at least one worker and while no
  shutdown has begun, from every reachable state, however its interleaving went, the service takes at
  most as many steps by itself as there is work left; and when it can take no further step, either the
  process has died of a panic or exactly the accepted jobs are recorded, each with a result.  It
  does not die when the addresses of the services parse and, with a GitHub client, every accepted pull request
  names a commit of at least eight bytes.  So every run without new requests ends, and then it
  ends with all jobs done: none is starved and the goroutines cannot deadlock.
\<close>

theorem jobs_drain:
  assumes "reachable w s" and "\<not> sv_cancelled s" and "0 < w" and "(internal ^^ n) s s'"
  shows "n \<le> work_left s
    \<and> ((\<exists>t. internal s' t) \<or> sv_panicked s' \<or>
        mset (sv_done s') = mset (sv_accepted s) \<and> dom (sv_results s') = j_ID ` set (sv_accepted s))
    \<and> (safe_posts s \<and> \<not> sv_panicked s \<longrightarrow> \<not> sv_panicked s')"
  using internal_run[OF assms(4,1,2)] drained[OF assms] internal_run_safe[OF assms(4,1,2)] by auto

definition ex_held :: service where
  "ex_held = ex_analysis\<lparr> sv_queue := \<lparr> ch = [], ch_cap = 512 \<rparr>, sv_hand := Some (prepare_job 7 (ex_job ''a'')), sv_queueDepth := - 1 \<rparr>"

lemma ex_dequeues: "svc_step ex_analysis ex_held"
  using svc_step.dequeue[of ex_analysis "prepare_job 7 (ex_job ''a'')" "\<lparr> ch = [], ch_cap = 512 \<rparr>"]
  by (simp add: ex_held_def ex_analysis_def Dequeue_def Gauge_Dec_def)

theorem jobs_drain_witness:
  "1 \<le> work_left ex_analysis
    \<and> ((\<exists>t. internal ex_held t) \<or> sv_panicked ex_held \<or>
        mset (sv_done ex_held) = mset (sv_accepted ex_analysis) \<and> dom (sv_results ex_held) = j_ID ` set (sv_accepted ex_analysis))
    \<and> safe_posts ex_analysis \<and> \<not> sv_panicked ex_held"
proof -
  have "internal ex_analysis ex_held" using ex_dequeues by (simp add: internal_def ex_held_def)
  then have "(internal ^^ 1) ex_analysis ex_held" by auto
  moreover have "\<not> sv_cancelled ex_analysis" "\<not> sv_panicked ex_analysis" by (simp_all add: ex_analysis_def)
  moreover have safe: "safe_posts ex_analysis"
    by (simp add: safe_posts_def ex_analysis_def post_safe_def prepare_job_def ex_job_def Let_def)
  ultimately show ?thesis using jobs_drain[OF ex_reachable, of 1 ex_held] by (metis zero_less_one)
qed

text \<open>
  What the metrics say.  In every reachable state the completed counter is the number of jobs
  recorded and the failed counter is zero, even for jobs whose analysis failed; the depth gauge
  is the length of the queue less the handlers still to count, as a signed number, so it can be
  negative.
\<close>

theorem service_metrics:
  assumes "reachable w s"
  shows "sv_jobsCompleted s = of_nat (length (sv_done s)) \<and> sv_jobsFailed s = 0
    \<and> sv_queueDepth s = word_of_int (int (length (ch (sv_queue s))) - int (sv_pending s))
    \<and> sv_jobsQueued s = of_nat (length (sv_accepted s)) - of_nat (sv_pending s)"
  using reachable_counted[OF assms] by (simp add: counted_def)

theorem service_metrics_witness:
  "sv_jobsCompleted ex_analysis = of_nat (length (sv_done ex_analysis)) \<and> sv_jobsFailed ex_analysis = 0
    \<and> sv_queueDepth ex_analysis = word_of_int (int (length (ch (sv_queue ex_analysis))) - int (sv_pending ex_analysis))
    \<and> sv_jobsQueued ex_analysis = of_nat (length (sv_accepted ex_analysis)) - of_nat (sv_pending ex_analysis)"
  by (rule service_metrics[OF ex_reachable])

lemma ex_dequeued: "reachable 1 ex_held"
  by (rule reachable_step[OF ex_reachable ex_dequeues])

text \<open>
  A short commit identifier kills the service.  A pull request whose commit has fewer than eight bytes is
  accepted and analysed; the goroutine that comments on it panics, and the process dies with
  accepted jobs that have no result, although no shutdown was asked for.
\<close>

definition ex_short :: Job where
  "ex_short = prepare_job 7 ((ex_job ''b'')\<lparr> j_Source := JobSourceGitHub, j_PRNumber := 7, j_CommitSHA := ''abc'' \<rparr>)"

definition ex_short_result :: AnalysisResult where
  "ex_short_result = run_result (ex_clock 9) ex_short []"

definition ex_post_env :: post_env where
  "ex_post_env =
     \<lparr> po_marshal_audit = (\<lambda>j r. ''{}''), po_marshal_notify = (\<lambda>n. ''{}''), po_marshal_check = (\<lambda>p. Inr ''{}''), po_marshal_comment = (\<lambda>b. b),
       po_rfc3339 = (\<lambda>t. []), po_show_error = (\<lambda>b. b), po_url_error = (\<lambda>u. None), po_net = (\<lambda>r. Inr \<lparr> rp_status = 201, rp_body = [] \<rparr>) \<rparr>"

lemma ex_short_panics: "run_post ex_post_env ex_analyzer (GoCheckRun ex_short ex_short_result) = Inl SliceBounds"
proof -
  have sha: "ar_CommitSHA ex_short_result = ''abc''" "0 < j_PRNumber ex_short"
    by (simp_all add: ex_short_result_def run_result_def ex_short_def prepare_job_def ex_job_def)
  then have "buildCommentBody ex_short_result = Inl SliceBounds"
    by (simp add: buildCommentBody_def Let_def str_slice_def)
  then show ?thesis using sha(2)
    by (simp add: run_post_def ex_analyzer_def analyzer_New_def postGitHubCheckRun_def GitHub.PostCheckRun_def PRComment_def ex_post_env_def
        NewRequest_def send_request_def)
qed

theorem short_commit_kills:
  "\<exists>s s'. reachable 1 s \<and> \<not> sv_cancelled s \<and> internal\<^sup>*\<^sup>* s s' \<and> sv_panicked s' \<and> \<not> sv_cancelled s'
     \<and> sv_accepted s' = [ex_short] \<and> sv_results s' = Map.empty"
proof -
  let ?pool = "sv_pool ex_analysis"
  let ?posts = "run_posts ex_analyzer ex_short ex_short_result"
  let ?s0 = "ex_analysis\<lparr> sv_queue := NewInMemory 512, sv_pending := 0, sv_accepted := [] \<rparr>"
  let ?s1 = "?s0\<lparr> sv_queue := \<lparr> ch = [ex_short], ch_cap = 512 \<rparr>, sv_pending := 1, sv_accepted := [ex_short] \<rparr>"
  let ?s2 = "?s1\<lparr> sv_queue := \<lparr> ch = [], ch_cap = 512 \<rparr>, sv_hand := Some ex_short, sv_queueDepth := Gauge_Dec (sv_queueDepth ?s1) \<rparr>"
  let ?s3 = "?s2\<lparr> sv_hand := None, sv_pool := ?pool\<lparr> p_jobs := [ex_short] \<rparr> \<rparr>"
  let ?s4 = "?s3\<lparr> sv_pool := ?pool\<lparr> p_idle := 0, p_busy := [ex_short] \<rparr> \<rparr>"
  let ?s5 = "?s4\<lparr> sv_pool := ?pool, sv_fin := [(ex_short, ex_short_result)], sv_posts := ?posts \<rparr>"
  let ?s6 = "?s5\<lparr> sv_posts := [GoAudit ex_short ex_short_result, GoNotification ex_short ex_short_result], sv_panicked := True \<rparr>"
  have posts: "?posts = [GoAudit ex_short ex_short_result, GoNotification ex_short ex_short_result] @ GoCheckRun ex_short ex_short_result # []"
    by (simp add: run_posts_def ex_analyzer_def analyzer_New_def ex_short_def prepare_job_def Let_def)
  have outcome: "run_outcome ex_analyzer ex_short (Inr ex_short_result) ?posts"
    by (simp add: run_outcome_def ex_short_result_def run_result_def NewSummary_def Let_def)
  have "start_service (\<lambda>u. None) ex_analyzer 1 = Inr ?s0"
    by (simp add: start_service_def NewPool_def ex_analysis_def)
  moreover have "svc_step ?s0 ?s1"
    using svc_step.enqueue[of ?s0 7 "Inr ((ex_job ''b'')\<lparr> j_Source := JobSourceGitHub, j_PRNumber := 7, j_CommitSHA := ''abc'' \<rparr>)" ex_short
        "\<lparr> ch = [ex_short], ch_cap = 512 \<rparr>"]
    by (simp add: ex_analysis_def post_job_def ex_short_def Enqueue_def NewInMemory_def)
  ultimately have "reachable 1 ?s1" unfolding reachable_def by blast
  moreover have "internal ?s1 ?s2" unfolding internal_def
    by (intro conjI svc_step.dequeue) (simp_all add: ex_analysis_def Dequeue_def svc_ctx_def)
  moreover have "internal ?s2 ?s3" unfolding internal_def
    using svc_step.submit[of ?s2 ex_short "?pool\<lparr> p_jobs := [ex_short] \<rparr>"] by (simp add: ex_analysis_def Submit_def)
  moreover have "internal ?s3 ?s4" unfolding internal_def
    by (intro conjI svc_step.worker_step[where taken = "Some ex_short"]) (simp_all add: ex_analysis_def work_def svc_ctx_def)
  moreover have "internal ?s4 ?s5" unfolding internal_def
    using svc_step.finish[of ?s4 "[]" ex_short "[]" "Inr ex_short_result" ?posts] outcome
    by (simp add: ex_analysis_def worker_result_def)
  moreover have "internal ?s5 ?s6" unfolding internal_def
    using svc_step.post_panics[of ?s5 "[GoAudit ex_short ex_short_result, GoNotification ex_short ex_short_result]"
        "GoCheckRun ex_short ex_short_result" "[]" ex_post_env SliceBounds] ex_short_panics posts
    by (simp add: ex_analysis_def ex_post_env_def)
  ultimately have "reachable 1 ?s1 \<and> internal\<^sup>*\<^sup>* ?s1 ?s6" by (meson converse_rtranclp_into_rtranclp rtranclp.rtrancl_refl)
  then show ?thesis by (intro exI[of _ ?s1] exI[of _ ?s6]) (simp add: ex_analysis_def)
qed

text \<open>
  C39: shutting down can crash the service.  A state is reachable in which the depth gauge is minus
  one, and from it, when the shutdown closes the pool's channel while the consumer still holds a
  job, the consumer sends on the closed channel and the process dies of the panic.
\<close>

theorem shutdown_can_panic:
  "\<exists>s s'. reachable 1 s \<and> sint (sv_queueDepth s) = - 1 \<and> svc_step\<^sup>*\<^sup>* s s' \<and> sv_panicked s'"
proof -
  let ?s = "ex_held"
  let ?c = "?s\<lparr> sv_cancelled := True \<rparr>"
  let ?d = "?c\<lparr> sv_pool := (sv_pool ?c)\<lparr> p_closed := True \<rparr> \<rparr>"
  have "svc_step ?s ?c" by (rule svc_step.cancel) (simp_all add: ex_held_def ex_analysis_def)
  moreover have "svc_step ?c ?d"
    by (rule svc_step.stop_pool) (simp_all add: ex_held_def ex_analysis_def Stop_def)
  moreover have "svc_step ?d (?d\<lparr> sv_panicked := True \<rparr>)"
    by (rule svc_step.submit_panics[where e = SendOnClosed]) (simp_all add: ex_held_def ex_analysis_def Submit_def)
  ultimately have "svc_step\<^sup>*\<^sup>* ?s (?d\<lparr> sv_panicked := True \<rparr>)"
    by (meson converse_rtranclp_into_rtranclp rtranclp.rtrancl_refl)
  moreover have "sint (sv_queueDepth ?s) = - 1" by (simp add: ex_held_def)
  moreover have "sv_panicked (?d\<lparr> sv_panicked := True \<rparr>)" by simp
  ultimately show ?thesis using ex_dequeued by blast
qed

end
