(* ===== verification/RateLimit.thy ===== *)
theory RateLimit
  imports GoHttp
begin

text \<open>
  The token-bucket rate limiter of the gateway (\<^verbatim>\<open>middleware/ratelimit.go\<close>).  The reading of the
  clock each operation makes is an argument, in seconds; the float arithmetic is exact.  The
  middleware around it is in the theory of the middleware.
\<close>

section \<open>The limiter\<close>

record bucket =
  tokens :: real
  lastSeen :: real

record RateLimiter =
  rl_buckets :: "string \<rightharpoonup> bucket"
  rl_rate :: real
  rl_capacity :: real

definition NewRateLimiter :: "real \<Rightarrow> real \<Rightarrow> RateLimiter" where
  "NewRateLimiter rps burst = \<lparr> rl_buckets = Map.empty, rl_rate = rps, rl_capacity = burst \<rparr>"

definition min_f64 :: "real \<Rightarrow> real \<Rightarrow> real" where
  "min_f64 a b = (if a < b then a else b)"

definition allow :: "real \<Rightarrow> string \<Rightarrow> RateLimiter \<Rightarrow> bool \<times> RateLimiter" where
  "allow now ip rl =
     (case rl_buckets rl ip of
        None \<Rightarrow>
          (True, rl\<lparr> rl_buckets := (rl_buckets rl)(ip \<mapsto> \<lparr> tokens = rl_capacity rl - 1, lastSeen = now \<rparr>) \<rparr>)
      | Some b \<Rightarrow>
          let elapsed = now - lastSeen b;
              t = min_f64 (rl_capacity rl) (tokens b + elapsed * rl_rate rl)
          in if t < 1
             then (False, rl\<lparr> rl_buckets := (rl_buckets rl)(ip \<mapsto> \<lparr> tokens = t, lastSeen = now \<rparr>) \<rparr>)
             else (True, rl\<lparr> rl_buckets := (rl_buckets rl)(ip \<mapsto> \<lparr> tokens = t - 1, lastSeen = now \<rparr>) \<rparr>))"

definition purge :: "real \<Rightarrow> RateLimiter \<Rightarrow> RateLimiter" where
  "purge now rl =
     rl\<lparr> rl_buckets := (\<lambda>ip. case rl_buckets rl ip of
                               None \<Rightarrow> None
                             | Some b \<Rightarrow> if lastSeen b < now - 600 then None else Some b) \<rparr>"

text \<open>The key of a request: a header wins over the address of the connection.\<close>

definition clientIP :: "(string \<Rightarrow> string) \<Rightarrow> string \<Rightarrow> string" where
  "clientIP header remoteAddr =
     (if header ''X-Forwarded-For'' \<noteq> [] then header ''X-Forwarded-For''
      else if header ''X-Real-IP'' \<noteq> [] then header ''X-Real-IP''
      else remoteAddr)"

section \<open>Runs\<close>

datatype rl_op = Req real string | Purge real

fun rl_time :: "rl_op \<Rightarrow> real" where
  "rl_time (Req t ip) = t"
| "rl_time (Purge t) = t"

fun rl_run :: "RateLimiter \<Rightarrow> rl_op list \<Rightarrow> (string \<times> bool) list \<times> RateLimiter" where
  "rl_run rl [] = ([], rl)"
| "rl_run rl (Req t ip # ops) =
     (let (ok, rl1) = allow t ip rl; (rs, rl2) = rl_run rl1 ops in ((ip, ok) # rs, rl2))"
| "rl_run rl (Purge t # ops) = rl_run (purge t rl) ops"

definition allowed :: "string \<Rightarrow> (string \<times> bool) list \<Rightarrow> nat" where
  "allowed ip rs = length (filter (\<lambda>r. r = (ip, True)) rs)"

section \<open>The tokens a client has\<close>

definition credit :: "RateLimiter \<Rightarrow> string \<Rightarrow> real \<Rightarrow> real" where
  "credit rl ip t =
     (case rl_buckets rl ip of
        None \<Rightarrow> rl_capacity rl
      | Some b \<Rightarrow> min (rl_capacity rl) (tokens b + (t - lastSeen b) * rl_rate rl))"

definition rl_wf :: "RateLimiter \<Rightarrow> bool" where
  "rl_wf rl \<longleftrightarrow> 0 \<le> rl_rate rl \<and> 1 \<le> rl_capacity rl \<and> rl_capacity rl \<le> 600 * rl_rate rl
     \<and> (\<forall>ip b. rl_buckets rl ip = Some b \<longrightarrow> 0 \<le> tokens b \<and> tokens b \<le> rl_capacity rl)"

lemma min_f64_min: "min_f64 a b = min a b"
  by (simp add: min_f64_def min_def)

lemma allow_fields [simp]:
  "rl_rate (snd (allow t ip rl)) = rl_rate rl" "rl_capacity (snd (allow t ip rl)) = rl_capacity rl"
  by (simp_all add: allow_def Let_def split: option.splits)

lemma purge_fields [simp]: "rl_rate (purge t rl) = rl_rate rl" "rl_capacity (purge t rl) = rl_capacity rl"
  by (simp_all add: purge_def)

lemma allow_iff:
  "1 \<le> rl_capacity rl \<Longrightarrow> fst (allow t ip rl) \<longleftrightarrow> 1 \<le> credit rl ip t"
  by (auto simp: allow_def credit_def Let_def min_f64_min split: option.splits)

text \<open>The buckets touched at or before a time.\<close>

definition seen_by :: "real \<Rightarrow> RateLimiter \<Rightarrow> bool" where
  "seen_by t rl \<longleftrightarrow> (\<forall>ip b. rl_buckets rl ip = Some b \<longrightarrow> lastSeen b \<le> t)"

lemma allow_wf:
  assumes "rl_wf rl" and "seen_by t rl"
  shows "rl_wf (snd (allow t ip rl)) \<and> seen_by t (snd (allow t ip rl))"
proof -
  have "0 \<le> tokens b + (t - lastSeen b) * rl_rate rl" if "rl_buckets rl ip = Some b" for b
    using assms that by (simp add: rl_wf_def seen_by_def)
  with assms show ?thesis
    by (auto simp: rl_wf_def seen_by_def allow_def Let_def min_f64_min split: option.splits if_splits)
qed

lemma purge_wf: "rl_wf rl \<Longrightarrow> seen_by t rl \<Longrightarrow> rl_wf (purge t' rl) \<and> seen_by t (purge t' rl)"
  by (auto simp: rl_wf_def seen_by_def purge_def split: option.splits if_splits)

lemma credit_same:
  assumes "rl_wf rl"
  shows "credit (snd (allow t ip rl)) ip t = credit rl ip t - (if fst (allow t ip rl) then 1 else 0)"
  using assms by (auto simp: credit_def allow_def Let_def min_f64_min rl_wf_def split: option.splits)

lemma credit_other: "ip \<noteq> ip' \<Longrightarrow> credit (snd (allow t ip' rl)) ip u = credit rl ip u"
  by (simp add: credit_def allow_def Let_def split: option.splits)

lemma credit_later:
  assumes "rl_wf rl" and "t \<le> u"
  shows "credit rl ip u \<le> credit rl ip t + (u - t) * rl_rate rl"
proof -
  have "0 \<le> (u - t) * rl_rate rl" using assms by (simp add: rl_wf_def)
  then show ?thesis by (auto simp: credit_def algebra_simps split: option.splits)
qed

lemma credit_purge:
  assumes "rl_wf rl" and "t \<le> u"
  shows "credit (purge t rl) ip u = credit rl ip u"
proof -
  have "rl_capacity rl \<le> tokens b + (u - lastSeen b) * rl_rate rl"
    if "rl_buckets rl ip = Some b" "lastSeen b < t - 600" for b
  proof -
    have "600 * rl_rate rl \<le> (u - lastSeen b) * rl_rate rl"
      using assms that by (intro mult_right_mono) (auto simp: rl_wf_def)
    moreover have "rl_capacity rl \<le> 600 * rl_rate rl" "0 \<le> tokens b" using assms(1) that by (auto simp: rl_wf_def)
    ultimately show ?thesis by linarith
  qed
  then show ?thesis by (auto simp: credit_def purge_def split: option.splits)
qed

lemma credit_nonneg: "rl_wf rl \<Longrightarrow> seen_by t rl \<Longrightarrow> 0 \<le> credit rl ip t"
  by (auto simp: credit_def rl_wf_def seen_by_def split: option.splits)

lemma seen_by_later: "seen_by t rl \<Longrightarrow> t \<le> u \<Longrightarrow> seen_by u rl"
  by (fastforce simp: seen_by_def)

lemma rl_run_Req:
  "fst (rl_run rl (Req t ip # ops)) = (ip, fst (allow t ip rl)) # fst (rl_run (snd (allow t ip rl)) ops)"
  by (simp split: prod.splits)

lemma allowed_Cons: "allowed ip ((ip', ok) # rs) = (if ip' = ip \<and> ok then 1 else 0) + allowed ip rs"
  by (simp add: allowed_def)

lemma rl_run_bound:
  assumes "rl_wf rl" and "seen_by t rl" and "sorted (t # map rl_time ops @ [e])"
  shows "real (allowed ip (fst (rl_run rl ops))) \<le> credit rl ip t + (e - t) * rl_rate rl"
  using assms
proof (induction ops arbitrary: rl t)
  case Nil
  then have "0 \<le> (e - t) * rl_rate rl" by (simp add: rl_wf_def)
  with credit_nonneg[OF Nil(1,2), of ip] show ?case by (simp add: allowed_def)
next
  case (Cons a ops)
  show ?case
  proof (cases a)
    case (Req u ip')
    let ?rl = "snd (allow u ip' rl)"
    have u: "t \<le> u" "sorted (u # map rl_time ops @ [e])" using Cons.prems(3) Req by auto
    note seen = seen_by_later[OF Cons.prems(2) u(1)]
    from allow_wf[OF Cons.prems(1) seen, of ip'] Cons.IH[of ?rl u] u(2)
    have ih: "real (allowed ip (fst (rl_run ?rl ops))) \<le> credit ?rl ip u + (e - u) * rl_rate rl" by simp
    have "credit ?rl ip u + (if ip' = ip \<and> fst (allow u ip' rl) then 1 else 0) = credit rl ip u"
      using credit_same[OF Cons.prems(1), of u ip] credit_other[of ip ip' u rl u] by (cases "ip' = ip") auto
    with ih credit_later[OF Cons.prems(1) u(1), of ip] show ?thesis
      unfolding Req rl_run_Req allowed_Cons
      by (cases "ip' = ip \<and> fst (allow u ip' rl)") (auto simp: algebra_simps)
  next
    case (Purge u)
    have u: "t \<le> u" "sorted (u # map rl_time ops @ [e])" using Cons.prems(3) Purge by auto
    from purge_wf[OF Cons.prems(1) seen_by_later[OF Cons.prems(2) u(1)], of u] Cons.IH[of "purge u rl" u] u(2)
    have "real (allowed ip (fst (rl_run (purge u rl) ops))) \<le> credit rl ip u + (e - u) * rl_rate rl"
      by (simp add: credit_purge[OF Cons.prems(1)])
    with credit_later[OF Cons.prems(1) u(1), of ip] show ?thesis by (simp add: Purge algebra_simps)
  qed
qed

section \<open>Properties\<close>

text \<open>
  The rate limit holds.  For a limiter whose burst is at least one token and refills within ten
  minutes, over any sequence of requests and purges at nondecreasing times between \<open>t\<close> and \<open>e\<close>, a
  key is allowed at most the burst plus the rate times the elapsed time, however the other keys
  behave and whenever purges run.
\<close>

theorem rate_limit:
  assumes "1 \<le> burst" and "burst \<le> 600 * rps" and "sorted (t # map rl_time ops @ [e])"
  shows "real (allowed ip (fst (rl_run (NewRateLimiter rps burst) ops))) \<le> burst + rps * (e - t)"
proof -
  have "rl_wf (NewRateLimiter rps burst)" "seen_by t (NewRateLimiter rps burst)"
    using assms(1,2) by (auto simp: rl_wf_def seen_by_def NewRateLimiter_def)
  from rl_run_bound[OF this assms(3), of ip] show ?thesis
    by (simp add: credit_def NewRateLimiter_def mult.commute)
qed

theorem rate_limit_witness:
  "real (allowed ''a'' (fst (rl_run (NewRateLimiter 50 100) [Req 0 ''a'', Purge 1, Req 2 ''b'', Req 3 ''a'']))) \<le> 100 + 50 * (4 - 0)"
  by (rule rate_limit) simp_all

lemma allow_fresh: "rl_buckets rl ip = None \<Longrightarrow> fst (allow t ip rl)"
  by (simp add: allow_def)

lemma allow_dom: "dom (rl_buckets (snd (allow t ip rl))) = insert ip (dom (rl_buckets rl))"
  by (auto simp: allow_def Let_def split: option.splits)

lemma fresh_all_allowed:
  assumes "distinct (map snd reqs)" and "snd ` set reqs \<inter> dom (rl_buckets rl) = {}"
  shows "fst (rl_run rl (map (\<lambda>(t, ip). Req t ip) reqs)) = map (\<lambda>(t, ip). (ip, True)) reqs"
  using assms
proof (induction reqs arbitrary: rl)
  case (Cons r reqs)
  obtain t ip where r: "r = (t, ip)" by fastforce
  from Cons.prems have "snd ` set reqs \<inter> dom (rl_buckets (snd (allow t ip rl))) = {}"
    by (auto simp: r allow_dom)
  with Cons.IH[of "snd (allow t ip rl)"] Cons.prems have
    "fst (rl_run (snd (allow t ip rl)) (map (\<lambda>(t, ip). Req t ip) reqs)) = map (\<lambda>(t, ip). (ip, True)) reqs" by simp
  moreover have "fst (allow t ip rl)" using Cons.prems by (intro allow_fresh) (auto simp: r)
  ultimately show ?case by (simp only: r list.map prod.case rl_run_Req)
qed simp

text \<open>
  The limit is per key, and the client chooses the key.  Requests of one connection that carry
  pairwise different \<^verbatim>\<open>X-Forwarded-For\<close> headers are all allowed, however many and however fast.
\<close>

theorem spoofed_keys_unlimited:
  assumes "distinct fakes" and "[] \<notin> set fakes"
  shows "map snd (fst (rl_run (NewRateLimiter rps burst)
      (map (\<lambda>x. Req t (clientIP (\<lambda>k. if k = ''X-Forwarded-For'' then x else []) addr)) fakes))) = replicate (length fakes) True"
proof -
  let ?reqs = "map (\<lambda>x. (t, x)) fakes"
  have eq: "map (\<lambda>x. Req t (clientIP (\<lambda>k. if k = ''X-Forwarded-For'' then x else []) addr)) fakes =
      map (\<lambda>(t, ip). Req t ip) ?reqs"
    using assms(2) by (auto simp: clientIP_def)
  have run: "fst (rl_run (NewRateLimiter rps burst) (map (\<lambda>(t, ip). Req t ip) ?reqs)) = map (\<lambda>(t, ip). (ip, True)) ?reqs"
    by (rule fresh_all_allowed) (use assms(1) in \<open>simp_all add: comp_def NewRateLimiter_def\<close>)
  show ?thesis unfolding eq run by (simp add: comp_def map_replicate_const)
qed

theorem spoofed_keys_unlimited_witness:
  "map snd (fst (rl_run (NewRateLimiter 1 1)
      (map (\<lambda>x. Req 0 (clientIP (\<lambda>k. if k = ''X-Forwarded-For'' then x else []) ''10.0.0.1:5000'')) [''1'', ''2'', ''3'']))) =
    replicate (length [''1'', ''2'', ''3'']) True"
  by (rule spoofed_keys_unlimited) simp_all

end
