(* ===== verification/Middleware.thy ===== *)
theory Middleware
  imports RateLimit Metrics
begin

text \<open>
  The middleware of the API gateway (\<^verbatim>\<open>services/api-gateway/middleware\<close>).  A handler gets a writer
  and a request and changes the state of the gateway; what it does to the writer is the list of
  calls it makes, so that a wrapper can observe them, and it may end in a panic.  The readings of the
  clock that a middleware makes are arguments.
\<close>

section \<open>Writers and handlers\<close>

datatype wcall =
    HeaderSet string string
  | CallWriteHeader int
  | CallWrite string
  | CallFlush

text \<open>
  What a writer offers besides the methods of \<^verbatim>\<open>http.ResponseWriter\<close>: a type assertion finds it only
  when the value passed to the handler has it.
\<close>

record writer =
  can_flush :: bool
  can_hijack :: bool

record request =
  sr_method :: string
  sr_path :: string
  sr_header :: "string \<Rightarrow> string"
  sr_remoteAddr :: string
  sr_body :: string
  sr_body_err :: "go_error option"

type_synonym 's handler = "writer \<Rightarrow> request \<Rightarrow> 's \<Rightarrow> wcall list \<times> panic option \<times> 's"

text \<open>The response that a sequence of calls builds.\<close>

fun do_call :: "wcall \<Rightarrow> Response \<Rightarrow> Response" where
  "do_call (HeaderSet k v) w = header_Set k v w"
| "do_call (CallWriteHeader c) w = WriteHeader c w"
| "do_call (CallWrite s) w = write_body s w"
| "do_call CallFlush w = WriteHeader 200 w"

definition respond :: "wcall list \<Rightarrow> Response" where
  "respond calls = fold do_call calls new_response"

definition error_calls :: "string \<Rightarrow> int \<Rightarrow> wcall list" where
  "error_calls msg code =
     [HeaderSet ''Content-Type'' ''text/plain; charset=utf-8'', HeaderSet ''X-Content-Type-Options'' ''nosniff'',
      CallWriteHeader code, CallWrite (msg @ [newline])]"

lemma respond_error: "fold do_call (error_calls msg code) w = http_Error msg code w"
  by (simp add: error_calls_def http_Error_def)

section \<open>State of the gateway\<close>

text \<open>The log, the limiter, the metrics, and what the application behind the middleware keeps.\<close>

record 'b gateway =
  gw_log :: "string list"
  gw_limiter :: RateLimiter
  gw_metrics :: "Registry \<times> metric_store"
  gw_app :: 'b

definition log_line :: "string \<Rightarrow> 'b gateway \<Rightarrow> 'b gateway" where
  "log_line l s = s\<lparr> gw_log := gw_log s @ [l] \<rparr>"

section \<open>chain.go\<close>

text \<open>The loop runs from the last middleware to the first.\<close>

primrec chain_loop :: "('h \<Rightarrow> 'h) list \<Rightarrow> 'h \<Rightarrow> nat \<Rightarrow> 'h" where
  "chain_loop ms final 0 = final"
| "chain_loop ms final (Suc i) = chain_loop ms ((ms ! i) final) i"

definition Chain :: "('h \<Rightarrow> 'h) list \<Rightarrow> 'h \<Rightarrow> 'h" where
  "Chain middlewares final = chain_loop middlewares final (length middlewares)"

definition StripPrefix :: "string \<Rightarrow> 's handler \<Rightarrow> 's handler" where
  "StripPrefix pre next w r s =
     (if \<not> HasPrefix (sr_path r) pre then (error_calls ''404 page not found'' StatusNotFound, None, s)
      else
        let p = drop (length pre) (sr_path r);
            p' = (if p = [] then ''/'' else p)
        in next w (r\<lparr> sr_path := p' \<rparr>) s)"

section \<open>cors.go\<close>

definition cors_headers :: "bool \<Rightarrow> string \<Rightarrow> wcall list" where
  "cors_headers ok origin =
     (if ok then [HeaderSet ''Access-Control-Allow-Origin'' origin] else []) @
     [HeaderSet ''Access-Control-Allow-Methods'' ''GET, POST, PUT, DELETE, OPTIONS'',
      HeaderSet ''Access-Control-Allow-Headers'' ''Content-Type, Authorization, X-Hub-Signature-256'',
      HeaderSet ''Access-Control-Max-Age'' ''3600'']"

definition CORS :: "string list \<Rightarrow> 's handler \<Rightarrow> 's handler" where
  "CORS allowedOrigins next w r s =
     (let allowAll = allowedOrigins = [] \<or> ''*'' \<in> set allowedOrigins;
          origin = sr_header r ''Origin'';
          headers = cors_headers (allowAll \<or> origin \<in> set allowedOrigins) origin
      in if sr_method r = ''OPTIONS'' then (headers @ [CallWriteHeader StatusNoContent], None, s)
         else (case next w r s of (calls, p, s') \<Rightarrow> (headers @ calls, p, s')))"

section \<open>logger.go\<close>

text \<open>
  The wrapper passes every call on, remembers the argument of the last \<^verbatim>\<open>WriteHeader\<close> and adds up the
  bytes written.  It embeds the interface, so it offers only the methods of the interface.
\<close>

record responseWriter =
  rw_status :: int
  rw_bytes :: int

fun rw_call :: "wcall \<Rightarrow> responseWriter \<Rightarrow> responseWriter" where
  "rw_call (CallWriteHeader code) rw = rw\<lparr> rw_status := code \<rparr>"
| "rw_call (CallWrite b) rw = rw\<lparr> rw_bytes := rw_bytes rw + int (length b) \<rparr>"
| "rw_call (HeaderSet k v) rw = rw"
| "rw_call CallFlush rw = rw"

definition observed :: "wcall list \<Rightarrow> responseWriter" where
  "observed calls = fold rw_call calls \<lparr> rw_status = StatusOK, rw_bytes = 0 \<rparr>"

definition wrapped :: writer where
  "wrapped = \<lparr> can_flush = False, can_hijack = False \<rparr>"

definition access_line :: "request \<Rightarrow> responseWriter \<Rightarrow> string \<Rightarrow> string" where
  "access_line r rw elapsed =
     sr_method r @ '' '' @ sr_path r @ '' '' @ fmt_d (rw_status rw) @ '' '' @ fmt_d (rw_bytes rw) @ ''B '' @ elapsed"

definition Logger :: "string \<Rightarrow> 'b gateway handler \<Rightarrow> 'b gateway handler" where
  "Logger elapsed next w r s =
     (case next wrapped r s of
        (calls, Some p, s') \<Rightarrow> (calls, Some p, s')
      | (calls, None, s') \<Rightarrow> (calls, None, log_line (access_line r (observed calls) elapsed) s'))"

text \<open>\<open>stack\<close> is the text of the panic and of the stack trace.\<close>

definition Recovery :: "(panic \<Rightarrow> string) \<Rightarrow> 'b gateway handler \<Rightarrow> 'b gateway handler" where
  "Recovery stack next w r s =
     (case next w r s of
        (calls, None, s') \<Rightarrow> (calls, None, s')
      | (calls, Some p, s') \<Rightarrow>
          (calls @ error_calls ''internal server error'' StatusInternalServerError, None,
           log_line (''PANIC: '' @ stack p) s'))"

section \<open>metrics.go\<close>

text \<open>The instruments, fetched from the registry once.\<close>

record instruments =
  i_requests :: addr
  i_errors :: addr
  i_latency :: addr
  i_inflight :: addr

definition metrics_instruments :: "Registry \<times> metric_store \<Rightarrow> instruments \<times> Registry \<times> metric_store" where
  "metrics_instruments st =
     (case Registry_Counter ''http_requests_total'' st of (a, st1) \<Rightarrow>
      case Registry_Counter ''http_errors_total'' st1 of (b, st2) \<Rightarrow>
      case Registry_Histogram ''http_request_duration_ms'' st2 of (c, st3) \<Rightarrow>
      case Registry_Gauge ''http_inflight_requests'' st3 of (d, st4) \<Rightarrow>
        (\<lparr> i_requests = a, i_errors = b, i_latency = c, i_inflight = d \<rparr>, st4))"

definition on_store :: "(metric_store \<Rightarrow> metric_store) \<Rightarrow> 'b gateway \<Rightarrow> 'b gateway" where
  "on_store f s = s\<lparr> gw_metrics := (fst (gw_metrics s), f (snd (gw_metrics s))) \<rparr>"

definition count_at :: "addr \<Rightarrow> metric_store \<Rightarrow> metric_store" where
  "count_at a h = h\<lparr> counter_at := (counter_at h)(a := Counter_Inc (counter_at h a)) \<rparr>"

definition observe_at :: "addr \<Rightarrow> real \<Rightarrow> metric_store \<Rightarrow> metric_store" where
  "observe_at a ms h = h\<lparr> histogram_at := (histogram_at h)(a := Observe ms (histogram_at h a)) \<rparr>"

definition gauge_on :: "(int64 \<Rightarrow> int64) \<Rightarrow> addr \<Rightarrow> metric_store \<Rightarrow> metric_store" where
  "gauge_on f a h = h\<lparr> gauge_at := (gauge_at h)(a := f (gauge_at h a)) \<rparr>"

definition Metrics_middleware :: "instruments \<Rightarrow> int \<Rightarrow> 'b gateway handler \<Rightarrow> 'b gateway handler" where
  "Metrics_middleware ins ms next w r s =
     (case next wrapped r (on_store (gauge_on Gauge_Inc (i_inflight ins)) s) of
        (calls, Some p, s') \<Rightarrow> (calls, Some p, on_store (gauge_on Gauge_Dec (i_inflight ins)) s')
      | (calls, None, s') \<Rightarrow>
          let s1 = on_store (count_at (i_requests ins)) s';
              s2 = on_store (observe_at (i_latency ins) (real_of_int ms)) s1;
              s3 = (if rw_status (observed calls) \<ge> 500 then on_store (count_at (i_errors ins)) s2 else s2)
          in (calls, None, on_store (gauge_on Gauge_Dec (i_inflight ins)) s3))"

section \<open>ratelimit.go\<close>

definition Limit :: "real \<Rightarrow> 'b gateway handler \<Rightarrow> 'b gateway handler" where
  "Limit now next w r s =
     (case allow now (clientIP (sr_header r) (sr_remoteAddr r)) (gw_limiter s) of
        (ok, rl) \<Rightarrow>
          let s' = s\<lparr> gw_limiter := rl \<rparr>
          in if \<not> ok then (error_calls ''rate limit exceeded'' StatusTooManyRequests, None, s')
             else next w r s')"

end
