(* ===== verification/EventHub.thy ===== *)
theory EventHub
  imports Models "HOL-Library.Sublist"
begin

text \<open>
  The WebSocket hub of the gateway (\<^verbatim>\<open>server/ws.go\<close>): the goroutine that owns the set of clients and
  the pumps of the clients, as a transition system.  A client is a number; its channel is a buffer
  of at most 64 events and a flag that it was closed.
\<close>

section \<open>Channels\<close>

record channel =
  cn_buf :: "JobEvent list"
  cn_closed :: bool

definition new_channel :: channel where
  "new_channel = \<lparr> cn_buf = [], cn_closed = False \<rparr>"

text \<open>A send in a select with a default: \<open>None\<close> stands for the default case.\<close>

definition try_send :: "nat \<Rightarrow> JobEvent \<Rightarrow> channel \<Rightarrow> panic + channel option" where
  "try_send cap e c =
     (if cn_closed c then Inl SendOnClosed
      else if length (cn_buf c) < cap then Inr (Some (c\<lparr> cn_buf := cn_buf c @ [e] \<rparr>))
      else Inr None)"

definition close_channel :: "channel \<Rightarrow> panic + channel" where
  "close_channel c = (if cn_closed c then Inl CloseOfClosed else Inr (c\<lparr> cn_closed := True \<rparr>))"

section \<open>The hub\<close>

record Hub =
  h_clients :: "nat set"
  h_broadcast :: "JobEvent list"
  h_send :: "nat \<Rightarrow> channel"

definition send_cap :: nat where "send_cap = 64"

definition NewHub :: Hub where
  "NewHub = \<lparr> h_clients = {}, h_broadcast = [], h_send = (\<lambda>c. new_channel) \<rparr>"

definition hub_register :: "nat \<Rightarrow> Hub \<Rightarrow> Hub" where
  "hub_register c h = h\<lparr> h_clients := Set.insert c (h_clients h) \<rparr>"

definition close_client :: "nat \<Rightarrow> Hub \<Rightarrow> panic + Hub" where
  "close_client c h =
     (case close_channel (h_send h c) of
        Inl p \<Rightarrow> Inl p
      | Inr ch' \<Rightarrow> Inr (h\<lparr> h_send := (h_send h)(c := ch'), h_clients := h_clients h - {c} \<rparr>))"

definition hub_unregister :: "nat \<Rightarrow> Hub \<Rightarrow> panic + Hub" where
  "hub_unregister c h = (if c \<in> h_clients h then close_client c h else Inr h)"

definition hub_deliver :: "JobEvent \<Rightarrow> nat \<Rightarrow> Hub \<Rightarrow> panic + Hub" where
  "hub_deliver e c h =
     (case try_send send_cap e (h_send h c) of
        Inl p \<Rightarrow> Inl p
      | Inr (Some ch') \<Rightarrow> Inr (h\<lparr> h_send := (h_send h)(c := ch') \<rparr>)
      | Inr None \<Rightarrow> close_client c h)"

text \<open>The loop over the clients, in the order of the map iteration.\<close>

fun hub_deliver_all :: "JobEvent \<Rightarrow> nat list \<Rightarrow> Hub \<Rightarrow> panic + Hub" where
  "hub_deliver_all e [] h = Inr h"
| "hub_deliver_all e (c # cs) h =
     (case hub_deliver e c h of Inl p \<Rightarrow> Inl p | Inr h' \<Rightarrow> hub_deliver_all e cs h')"

text \<open>\<^verbatim>\<open>Broadcast\<close>: the channel has room for 256 events; \<open>None\<close> while the caller blocks.\<close>

definition Broadcast :: "JobEvent \<Rightarrow> Hub \<Rightarrow> Hub option" where
  "Broadcast e h = (if length (h_broadcast h) < 256 then Some (h\<lparr> h_broadcast := h_broadcast h @ [e] \<rparr>) else None)"

section \<open>The write pump\<close>

definition pongWait :: int where "pongWait = 60 * 1000000000"
definition pingPeriod :: int where "pingPeriod = (pongWait * 9) div 10"

text \<open>
  What the select of the write pump receives, each with the outcome of the write it leads to, and
  the frames it writes.  The pump returns, and closes the connection, after the close frame or the
  first write that fails.
\<close>

datatype pump_in = PumpEvent JobEvent | PumpClosed | PumpTick
datatype frame = JsonFrame JobEvent | CloseFrame | PingFrame

fun writePump :: "(pump_in \<times> bool) list \<Rightarrow> frame list \<times> bool" where
  "writePump [] = ([], False)"
| "writePump ((PumpClosed, ok) # ins) = ([CloseFrame], True)"
| "writePump ((PumpEvent e, ok) # ins) =
     (if \<not> ok then ([JsonFrame e], True) else case writePump ins of (fs, d) \<Rightarrow> (JsonFrame e # fs, d))"
| "writePump ((PumpTick, ok) # ins) =
     (if \<not> ok then ([PingFrame], True) else case writePump ins of (fs, d) \<Rightarrow> (PingFrame # fs, d))"

text \<open>The pump pings before the peer's deadline, and writes the events it takes in their order.\<close>

lemma ping_before_deadline: "0 < pingPeriod \<and> pingPeriod < pongWait"
  by (simp add: pingPeriod_def pongWait_def)

lemma writePump_order:
  "prefix (List.map_filter (\<lambda>f. case f of JsonFrame e \<Rightarrow> Some e | _ \<Rightarrow> None) (fst (writePump ins)))
          (List.map_filter (\<lambda>i. case fst i of PumpEvent e \<Rightarrow> Some e | _ \<Rightarrow> None) ins)"
  by (induction ins rule: writePump.induct) (auto split: prod.splits)

section \<open>Steps\<close>

text \<open>
  The hub with its history: the clients that ever connected, the events delivered to the clients
  registered at the time, the events a client's write pump has taken.
\<close>

record hub_sys =
  hs_hub :: Hub
  hs_known :: "nat set"
  hs_sent :: "nat \<Rightarrow> JobEvent list"
  hs_got :: "nat \<Rightarrow> JobEvent list"
  hs_panicked :: bool

definition start_hub :: hub_sys where
  "start_hub = \<lparr> hs_hub = NewHub, hs_known = {}, hs_sent = (\<lambda>c. []), hs_got = (\<lambda>c. []), hs_panicked = False \<rparr>"

text \<open>
  \<^verbatim>\<open>ServeWS\<close> makes a client with a channel of its own and hands it to the hub; the read pump
  unregisters it when the connection breaks, however often that happens before or after the hub
  dropped it; the write pump takes events from the channel.
\<close>

inductive hub_step :: "hub_sys \<Rightarrow> hub_sys \<Rightarrow> bool" where
  serve_ws: "\<not> hs_panicked s \<Longrightarrow> c \<notin> hs_known s \<Longrightarrow>
    hub_step s (s\<lparr> hs_hub := hub_register c ((hs_hub s)\<lparr> h_send := (h_send (hs_hub s))(c := new_channel) \<rparr>),
                   hs_known := Set.insert c (hs_known s) \<rparr>)"
| unregister: "\<not> hs_panicked s \<Longrightarrow> c \<in> hs_known s \<Longrightarrow> hub_unregister c (hs_hub s) = Inr h \<Longrightarrow>
    hub_step s (s\<lparr> hs_hub := h \<rparr>)"
| unregister_panics: "\<not> hs_panicked s \<Longrightarrow> c \<in> hs_known s \<Longrightarrow> hub_unregister c (hs_hub s) = Inl p \<Longrightarrow>
    hub_step s (s\<lparr> hs_panicked := True \<rparr>)"
| publish: "\<not> hs_panicked s \<Longrightarrow> Broadcast e (hs_hub s) = Some h \<Longrightarrow> hub_step s (s\<lparr> hs_hub := h \<rparr>)"
| deliver: "\<not> hs_panicked s \<Longrightarrow> h_broadcast (hs_hub s) = e # es \<Longrightarrow> distinct order \<Longrightarrow>
    set order = h_clients (hs_hub s) \<Longrightarrow>
    hub_deliver_all e order ((hs_hub s)\<lparr> h_broadcast := es \<rparr>) = Inr h \<Longrightarrow>
    hub_step s (s\<lparr> hs_hub := h, hs_sent := (\<lambda>c. if c \<in> set order then hs_sent s c @ [e] else hs_sent s c) \<rparr>)"
| deliver_panics: "\<not> hs_panicked s \<Longrightarrow> h_broadcast (hs_hub s) = e # es \<Longrightarrow> distinct order \<Longrightarrow>
    set order = h_clients (hs_hub s) \<Longrightarrow>
    hub_deliver_all e order ((hs_hub s)\<lparr> h_broadcast := es \<rparr>) = Inl p \<Longrightarrow>
    hub_step s (s\<lparr> hs_panicked := True \<rparr>)"
| write_pump: "\<not> hs_panicked s \<Longrightarrow> c \<in> hs_known s \<Longrightarrow> cn_buf (h_send (hs_hub s) c) = e # es \<Longrightarrow>
    hub_step s (s\<lparr> hs_hub := (hs_hub s)\<lparr> h_send := (h_send (hs_hub s))(c := (h_send (hs_hub s) c)\<lparr> cn_buf := es \<rparr>) \<rparr>,
                   hs_got := (hs_got s)(c := hs_got s c @ [e]) \<rparr>)"

section \<open>One delivery round\<close>

definition at_capacity :: "Hub \<Rightarrow> nat \<Rightarrow> bool" where
  "at_capacity h c \<longleftrightarrow> send_cap \<le> length (cn_buf (h_send h c))"

text \<open>What a round leaves of the channel of a client.\<close>

definition served :: "JobEvent \<Rightarrow> Hub \<Rightarrow> nat \<Rightarrow> channel" where
  "served e h c =
     (if at_capacity h c then (h_send h c)\<lparr> cn_closed := True \<rparr> else (h_send h c)\<lparr> cn_buf := cn_buf (h_send h c) @ [e] \<rparr>)"

lemma served_broadcast [simp]:
  "at_capacity (h\<lparr> h_broadcast := es \<rparr>) c = at_capacity h c" "served e (h\<lparr> h_broadcast := es \<rparr>) c = served e h c"
  by (simp_all add: at_capacity_def served_def)

lemma hub_deliver_open:
  assumes "\<not> cn_closed (h_send h c)"
  shows "hub_deliver e c h = Inr (h\<lparr> h_send := (h_send h)(c := served e h c),
           h_clients := (if at_capacity h c then h_clients h - {c} else h_clients h) \<rparr>)"
  using assms by (simp add: hub_deliver_def try_send_def close_client_def close_channel_def served_def at_capacity_def)

lemma hub_deliver_all_open:
  assumes "distinct order" and "\<forall>c \<in> set order. \<not> cn_closed (h_send h c)"
  shows "hub_deliver_all e order h =
    Inr (h\<lparr> h_send := (\<lambda>c. if c \<in> set order then served e h c else h_send h c),
            h_clients := h_clients h - {c \<in> set order. at_capacity h c} \<rparr>)"
  using assms
proof (induction order arbitrary: h)
  case (Cons c cs)
  let ?h = "h\<lparr> h_send := (h_send h)(c := served e h c), h_clients := (if at_capacity h c then h_clients h - {c} else h_clients h) \<rparr>"
  have cap: "at_capacity ?h d = at_capacity h d" and served: "served e ?h d = served e h d" if "d \<in> set cs" for d
    using that Cons.prems(1) by (auto simp: at_capacity_def served_def)
  have "hub_deliver_all e (c # cs) h = hub_deliver_all e cs ?h"
    using Cons.prems(2) by (simp add: hub_deliver_open)
  also have "\<dots> = Inr (?h\<lparr> h_send := (\<lambda>d. if d \<in> set cs then served e ?h d else h_send ?h d),
            h_clients := h_clients ?h - {d \<in> set cs. at_capacity ?h d} \<rparr>)"
    using Cons.prems by (intro Cons.IH) auto
  also have "\<dots> = Inr (h\<lparr> h_send := (\<lambda>d. if d \<in> set (c # cs) then served e h d else h_send h d),
            h_clients := h_clients h - {d \<in> set (c # cs). at_capacity h d} \<rparr>)"
  proof -
    have "(\<lambda>d. if d \<in> set cs then served e ?h d else h_send ?h d) =
        (\<lambda>d. if d \<in> set (c # cs) then served e h d else h_send h d)"
      using served Cons.prems(1) by (auto simp: fun_eq_iff)
    moreover have "h_clients ?h - {d \<in> set cs. at_capacity ?h d} = h_clients h - {d \<in> set (c # cs). at_capacity h d}"
      using cap Cons.prems(1) by auto
    ultimately show ?thesis by simp
  qed
  finally show ?case .
qed simp

section \<open>Invariant\<close>

definition hub_inv :: "hub_sys \<Rightarrow> bool" where
  "hub_inv s \<longleftrightarrow> \<not> hs_panicked s
     \<and> h_clients (hs_hub s) \<subseteq> hs_known s
     \<and> (\<forall>c \<in> h_clients (hs_hub s). \<not> cn_closed (h_send (hs_hub s) c)
            \<and> hs_sent s c = hs_got s c @ cn_buf (h_send (hs_hub s) c))
     \<and> (\<forall>c. prefix (hs_got s c @ cn_buf (h_send (hs_hub s) c)) (hs_sent s c)
            \<and> length (cn_buf (h_send (hs_hub s) c)) \<le> send_cap)
     \<and> (\<forall>c. c \<notin> hs_known s \<longrightarrow> hs_sent s c = [] \<and> hs_got s c = [])"

lemma hub_inv_start: "hub_inv start_hub"
  by (simp add: hub_inv_def start_hub_def NewHub_def new_channel_def)

lemma hub_unregister_safe:
  assumes "hub_inv s" shows "\<exists>h. hub_unregister c (hs_hub s) = Inr h"
  using assms by (auto simp: hub_inv_def hub_unregister_def close_client_def close_channel_def)

lemma hub_inv_step:
  assumes "hub_step s s'" and "hub_inv s"
  shows "hub_inv s'"
  using assms
proof (induction rule: hub_step.induct)
  case (serve_ws s c)
  then show ?case by (auto simp: hub_inv_def hub_register_def new_channel_def)
next
  case (unregister s c h)
  then show ?case
    by (auto simp: hub_inv_def hub_unregister_def close_client_def close_channel_def split: if_splits)
next
  case (unregister_panics s c p)
  then show ?case using hub_unregister_safe[of s c] by simp
next
  case (publish s e h)
  then show ?case by (auto simp: hub_inv_def Broadcast_def split: if_splits)
next
  case (deliver s e es order h)
  have h: "h = (hs_hub s)\<lparr> h_broadcast := es, h_send := (\<lambda>c. if c \<in> set order then served e (hs_hub s) c else h_send (hs_hub s) c),
            h_clients := h_clients (hs_hub s) - {c \<in> set order. at_capacity (hs_hub s) c} \<rparr>"
    using deliver hub_deliver_all_open[of order "(hs_hub s)\<lparr> h_broadcast := es \<rparr>" e]
    by (auto simp: hub_inv_def cong: if_cong)
  show ?case
    using deliver unfolding hub_inv_def h
    by (auto simp: served_def at_capacity_def send_cap_def prefix_def)
next
  case (deliver_panics s e es order p)
  then show ?case using hub_deliver_all_open[of order "(hs_hub s)\<lparr> h_broadcast := es \<rparr>" e]
    by (auto simp: hub_inv_def)
next
  case (write_pump s c e es)
  then have "prefix (hs_got s c @ e # es) (hs_sent s c)" "length es \<le> send_cap"
      "c \<in> h_clients (hs_hub s) \<Longrightarrow> hs_sent s c = hs_got s c @ e # es"
    unfolding hub_inv_def by (metis, metis Suc_leD length_Cons, metis)
  then show ?case using write_pump by (simp add: hub_inv_def)
qed

lemma hub_reachable_inv: "hub_step\<^sup>*\<^sup>* start_hub s \<Longrightarrow> hub_inv s"
  by (induction rule: rtranclp_induct) (auto intro: hub_inv_start hub_inv_step)

section \<open>Properties\<close>

text \<open>
  C6: The hub never panics and delivers in order without gaps.  In every reachable state, whatever
  the interleaving of connections, disconnections, broadcasts and pumps, no channel was closed twice
  or sent on after closing; a client that is still registered has received or still has in its
  buffer exactly the events delivered since it registered, in order; one that was dropped or left
  has a prefix of them; and no buffer exceeds 64 events.
\<close>

theorem hub_delivery:
  assumes "hub_step\<^sup>*\<^sup>* start_hub s"
  shows "\<not> hs_panicked s
    \<and> prefix (hs_got s c @ cn_buf (h_send (hs_hub s) c)) (hs_sent s c)
    \<and> length (cn_buf (h_send (hs_hub s) c)) \<le> 64
    \<and> (c \<in> h_clients (hs_hub s) \<longrightarrow> hs_got s c @ cn_buf (h_send (hs_hub s) c) = hs_sent s c)"
  using hub_reachable_inv[OF assms] by (auto simp: hub_inv_def send_cap_def)

definition ex_event :: JobEvent where
  "ex_event = \<lparr> je_JobID = ''j'', je_Type = ''done'', je_Payload = [], je_At = 1 \<rparr>"

text \<open>One client, one event on its way to it.\<close>

definition ex_hub :: hub_sys where
  "ex_hub = \<lparr> hs_hub = \<lparr> h_clients = {0}, h_broadcast = [], h_send = (\<lambda>c. new_channel)(0 := \<lparr> cn_buf = [ex_event], cn_closed = False \<rparr>) \<rparr>,
              hs_known = {0}, hs_sent = (\<lambda>c. [])(0 := [ex_event]), hs_got = (\<lambda>c. []), hs_panicked = False \<rparr>"

lemma ex_hub_reachable: "hub_step\<^sup>*\<^sup>* start_hub ex_hub"
proof -
  let ?a = "start_hub\<lparr> hs_hub := NewHub\<lparr> h_clients := {0} \<rparr>, hs_known := {0} \<rparr>"
  let ?b = "?a\<lparr> hs_hub := NewHub\<lparr> h_clients := {0}, h_broadcast := [ex_event] \<rparr> \<rparr>"
  have "hub_step start_hub ?a"
    using hub_step.serve_ws[of start_hub 0]
    by (simp add: start_hub_def NewHub_def hub_register_def fun_upd_idem)
  moreover have "hub_step ?a ?b"
    by (rule hub_step.publish[where e = ex_event, THEN back_subst[of "hub_step _"]])
       (simp_all add: start_hub_def NewHub_def Broadcast_def)
  moreover have "hub_step ?b ex_hub"
    by (rule hub_step.deliver[where e = ex_event and es = "[]" and order = "[0]", THEN back_subst[of "hub_step _"]])
       (auto simp: start_hub_def NewHub_def ex_hub_def hub_deliver_def try_send_def new_channel_def send_cap_def)
  ultimately show ?thesis by (meson converse_rtranclp_into_rtranclp rtranclp.rtrancl_refl)
qed

theorem hub_delivery_witness:
  "\<not> hs_panicked ex_hub
    \<and> prefix (hs_got ex_hub 0 @ cn_buf (h_send (hs_hub ex_hub) 0)) (hs_sent ex_hub 0)
    \<and> length (cn_buf (h_send (hs_hub ex_hub) 0)) \<le> 64
    \<and> hs_got ex_hub 0 @ cn_buf (h_send (hs_hub ex_hub) 0) = hs_sent ex_hub 0"
  using hub_delivery[OF ex_hub_reachable, of 0] by (simp add: ex_hub_def)

end
