(* ===== verification/EventStream.thy ===== *)
theory EventStream
  imports EventHub Middleware
begin

text \<open>
  The server-sent-event broker of the gateway (\<^verbatim>\<open>server/sse.go\<close>).  The subscriber lists are Go slices:
  a slice is an array, a length and a capacity, and removing a subscriber shifts the elements of the
  array in place.  The arrays are therefore kept in an explicit store, so that a publisher that
  still iterates over a slice sees the shift.
\<close>

section \<open>Slices\<close>

record slice =
  sl_arr :: nat
  sl_len :: nat
  sl_cap :: nat

record SSEBroker =
  sb_subs :: "string \<rightharpoonup> slice"
  sb_arrays :: "nat \<Rightarrow> nat list"
  sb_next_arr :: nat
  sb_chans :: "nat \<Rightarrow> channel"
  sb_next_chan :: nat

definition NewSSEBroker :: SSEBroker where
  "NewSSEBroker = \<lparr> sb_subs = Map.empty, sb_arrays = (\<lambda>a. []), sb_next_arr = 0, sb_chans = (\<lambda>c. new_channel), sb_next_chan = 0 \<rparr>"

text \<open>The slice of a job; a missing one is the nil slice.\<close>

definition nil_slice :: slice where
  "nil_slice = \<lparr> sl_arr = 0, sl_len = 0, sl_cap = 0 \<rparr>"

definition subs_slice :: "SSEBroker \<Rightarrow> string \<Rightarrow> slice" where
  "subs_slice b j = (case sb_subs b j of None \<Rightarrow> nil_slice | Some sl \<Rightarrow> sl)"

definition elems :: "SSEBroker \<Rightarrow> slice \<Rightarrow> nat list" where
  "elems b sl = take (sl_len sl) (sb_arrays b (sl_arr sl))"

text \<open>
  \<^verbatim>\<open>append(s, x)\<close>: in place while there is room, else into a new array whose capacity \<open>grow\<close> chooses.
\<close>

definition append_slice :: "(nat \<Rightarrow> nat) \<Rightarrow> slice \<Rightarrow> nat \<Rightarrow> SSEBroker \<Rightarrow> slice \<times> SSEBroker" where
  "append_slice grow sl x b =
     (if sl_len sl < sl_cap sl
      then (sl\<lparr> sl_len := sl_len sl + 1 \<rparr>,
            b\<lparr> sb_arrays := (sb_arrays b)(sl_arr sl := (sb_arrays b (sl_arr sl))[sl_len sl := x]) \<rparr>)
      else
        let a = sb_next_arr b; n = sl_len sl + 1; cap = n + grow n
        in (\<lparr> sl_arr = a, sl_len = n, sl_cap = cap \<rparr>,
            b\<lparr> sb_arrays := (sb_arrays b)(a := elems b sl @ [x] @ replicate (grow n) 0), sb_next_arr := a + 1 \<rparr>))"

text \<open>\<^verbatim>\<open>append(s[:i], s[i+1:]...)\<close>: the rest moves down in the same array; the last slot keeps its value.\<close>

definition remove_at :: "nat \<Rightarrow> slice \<Rightarrow> SSEBroker \<Rightarrow> slice \<times> SSEBroker" where
  "remove_at i sl b =
     (let xs = sb_arrays b (sl_arr sl); n = sl_len sl
      in (sl\<lparr> sl_len := n - 1 \<rparr>,
          b\<lparr> sb_arrays := (sb_arrays b)(sl_arr sl := take i xs @ drop (i + 1) (take n xs) @ drop (n - 1) xs) \<rparr>))"

section \<open>Operations\<close>

definition sse_cap :: nat where "sse_cap = 64"

text \<open>A send that drops the event when the channel is full; no channel of the broker is ever closed.\<close>

definition send_or_drop :: "JobEvent \<Rightarrow> channel \<Rightarrow> channel" where
  "send_or_drop e c = (case try_send sse_cap e c of Inr (Some c') \<Rightarrow> c' | _ \<Rightarrow> c)"

definition deliver_to :: "JobEvent \<Rightarrow> nat \<Rightarrow> SSEBroker \<Rightarrow> SSEBroker" where
  "deliver_to e c b = b\<lparr> sb_chans := (sb_chans b)(c := send_or_drop e (sb_chans b c)) \<rparr>"

text \<open>
  A publisher under way: the slice header it read under the lock, the index of its loop, the event.
  Each turn of the loop reads the element from the array as it is then.
\<close>

record publisher =
  pb_slice :: slice
  pb_index :: nat
  pb_event :: JobEvent

definition publish_start :: "string \<Rightarrow> JobEvent \<Rightarrow> SSEBroker \<Rightarrow> publisher" where
  "publish_start jobID e b = \<lparr> pb_slice = subs_slice b jobID, pb_index = 0, pb_event = e \<rparr>"

definition publish_next :: "publisher \<Rightarrow> SSEBroker \<Rightarrow> (publisher \<times> SSEBroker) option" where
  "publish_next p b =
     (if pb_index p < sl_len (pb_slice p)
      then Some (p\<lparr> pb_index := pb_index p + 1 \<rparr>,
                 deliver_to (pb_event p) (sb_arrays b (sl_arr (pb_slice p)) ! pb_index p) b)
      else None)"

function publish_loop :: "publisher \<Rightarrow> SSEBroker \<Rightarrow> SSEBroker" where
  "publish_loop p b = (case publish_next p b of None \<Rightarrow> b | Some (p', b') \<Rightarrow> publish_loop p' b')"
  by pat_completeness auto
termination
  by (relation "measure (\<lambda>(p, b). sl_len (pb_slice p) - pb_index p)")
     (auto simp: publish_next_def split: if_splits)

declare publish_loop.simps [simp del]

definition Publish :: "string \<Rightarrow> JobEvent \<Rightarrow> SSEBroker \<Rightarrow> SSEBroker" where
  "Publish jobID e b = publish_loop (publish_start jobID e b) b"

text \<open>\<^verbatim>\<open>PublishAll\<close> keeps the lock; \<open>order\<close> lists the jobs in the order of the map iteration.\<close>

definition PublishAll :: "JobEvent \<Rightarrow> string list \<Rightarrow> SSEBroker \<Rightarrow> SSEBroker" where
  "PublishAll e order b = fold (\<lambda>j b. fold (deliver_to e) (elems b (subs_slice b j)) b) order b"

definition subscribe :: "(nat \<Rightarrow> nat) \<Rightarrow> string \<Rightarrow> SSEBroker \<Rightarrow> nat \<times> SSEBroker" where
  "subscribe grow jobID b =
     (let c = sb_next_chan b;
          b1 = b\<lparr> sb_chans := (sb_chans b)(c := new_channel), sb_next_chan := c + 1 \<rparr>
      in case append_slice grow (subs_slice b1 jobID) c b1 of
           (sl, b2) \<Rightarrow> (c, b2\<lparr> sb_subs := (sb_subs b2)(jobID \<mapsto> sl) \<rparr>))"

fun index_from :: "nat \<Rightarrow> nat \<Rightarrow> nat list \<Rightarrow> nat option" where
  "index_from i c [] = None"
| "index_from i c (x # xs) = (if x = c then Some i else index_from (i + 1) c xs)"

definition unsubscribe :: "string \<Rightarrow> nat \<Rightarrow> SSEBroker \<Rightarrow> SSEBroker" where
  "unsubscribe jobID c b =
     (let sl = subs_slice b jobID;
          b1 = (case index_from 0 c (elems b sl) of
                  None \<Rightarrow> b
                | Some i \<Rightarrow> (case remove_at i sl b of (sl', b') \<Rightarrow> b'\<lparr> sb_subs := (sb_subs b')(jobID \<mapsto> sl') \<rparr>))
      in if sl_len (subs_slice b1 jobID) = 0 then b1\<lparr> sb_subs := (sb_subs b1)(jobID := None) \<rparr> else b1)"

section \<open>Streaming\<close>

text \<open>\<open>werr\<close> is the outcome of the write.\<close>

definition writeSSEEvent :: "(JobEvent \<Rightarrow> go_error + string) \<Rightarrow> go_error option \<Rightarrow> JobEvent \<Rightarrow> wcall list \<times> go_error option" where
  "writeSSEEvent marshal werr event =
     (case marshal event of
        Inl err \<Rightarrow> ([], Some err)
      | Inr data \<Rightarrow>
          ([CallWrite (''event: '' @ je_Type event @ [newline] @ ''data: '' @ data @ [newline, newline])], werr))"

text \<open>What the select of the loop receives.\<close>

datatype sse_in = Received JobEvent "go_error option" | ChanClosed | Heartbeat | ContextDone

text \<open>The calls made on the writer, and whether the handler has returned.\<close>

fun sse_loop :: "(JobEvent \<Rightarrow> go_error + string) \<Rightarrow> sse_in list \<Rightarrow> wcall list \<times> bool" where
  "sse_loop marshal [] = ([], False)"
| "sse_loop marshal (ChanClosed # ins) = ([], True)"
| "sse_loop marshal (ContextDone # ins) = ([], True)"
| "sse_loop marshal (Heartbeat # ins) =
     (case sse_loop marshal ins of (cs, d) \<Rightarrow> (CallWrite ('': heartbeat'' @ [newline, newline]) # CallFlush # cs, d))"
| "sse_loop marshal (Received event werr # ins) =
     (case writeSSEEvent marshal werr event of
        (cs, Some err) \<Rightarrow> (cs, True)
      | (cs, None) \<Rightarrow>
          if je_Type event = ''done'' \<or> je_Type event = ''failed'' then (cs @ [CallFlush], True)
          else (case sse_loop marshal ins of (ds, d) \<Rightarrow> (cs @ [CallFlush] @ ds, d)))"

definition sse_prologue :: "string \<Rightarrow> wcall list" where
  "sse_prologue jobID =
     [HeaderSet ''Content-Type'' ''text/event-stream'', HeaderSet ''Cache-Control'' ''no-cache'',
      HeaderSet ''Connection'' ''keep-alive'', HeaderSet ''X-Accel-Buffering'' ''no'',
      CallWrite ('': connected job='' @ jobID @ [newline, newline]), CallFlush]"

text \<open>
  The handler, given what its select receives: the calls, whether it has returned, and the broker.
  It subscribes after the prologue and unsubscribes when it returns.
\<close>

definition ServeSSE ::
  "(JobEvent \<Rightarrow> go_error + string) \<Rightarrow> (nat \<Rightarrow> nat) \<Rightarrow> sse_in list \<Rightarrow> writer \<Rightarrow> string \<Rightarrow> SSEBroker \<Rightarrow>
   wcall list \<times> bool \<times> SSEBroker" where
  "ServeSSE marshal grow ins w jobID b =
     (if jobID = [] then (error_calls ''job id required'' StatusBadRequest, True, b)
      else if \<not> can_flush w then (error_calls ''streaming unsupported'' StatusInternalServerError, True, b)
      else
        (case subscribe grow jobID b of (c, b1) \<Rightarrow>
         case sse_loop marshal ins of (calls, returned) \<Rightarrow>
           (sse_prologue jobID @ calls, returned, if returned then unsubscribe jobID c b1 else b1)))"

section \<open>The lists behind the slices\<close>

definition subs_of :: "SSEBroker \<Rightarrow> string \<Rightarrow> nat list" where
  "subs_of b j = elems b (subs_slice b j)"

text \<open>Every slice lies within its array, no two jobs share an array, and the channels exist.\<close>

definition slice_ok :: "SSEBroker \<Rightarrow> slice \<Rightarrow> bool" where
  "slice_ok b sl \<longleftrightarrow> 0 < sl_len sl \<and> sl_len sl \<le> sl_cap sl \<and> length (sb_arrays b (sl_arr sl)) = sl_cap sl
     \<and> sl_arr sl < sb_next_arr b"

definition broker_wf :: "SSEBroker \<Rightarrow> bool" where
  "broker_wf b \<longleftrightarrow> (\<forall>j sl. sb_subs b j = Some sl \<longrightarrow> slice_ok b sl)
     \<and> (\<forall>i j sl sl'. sb_subs b i = Some sl \<and> sb_subs b j = Some sl' \<and> sl_arr sl = sl_arr sl' \<longrightarrow> i = j)
     \<and> (\<forall>j. distinct (subs_of b j) \<and> set (subs_of b j) \<subseteq> {..<sb_next_chan b})"

lemma subs_of_None: "sb_subs b j = None \<Longrightarrow> subs_of b j = []"
  by (simp add: subs_of_def subs_slice_def elems_def nil_slice_def)

lemma subs_of_Some: "sb_subs b j = Some sl \<Longrightarrow> subs_of b j = take (sl_len sl) (sb_arrays b (sl_arr sl))"
  by (simp add: subs_of_def subs_slice_def elems_def)

text \<open>A list depends only on its slice and the array of the slice.\<close>

lemma subs_of_cong:
  assumes "sb_subs b' i = sb_subs b i" and "\<And>sl. sb_subs b i = Some sl \<Longrightarrow> sb_arrays b' (sl_arr sl) = sb_arrays b (sl_arr sl)"
  shows "subs_of b' i = subs_of b i"
  using assms by (cases "sb_subs b i") (simp_all add: subs_of_None subs_of_Some)

text \<open>What \<open>append_slice\<close> promises.\<close>

lemma append_slice_ok:
  assumes "append_slice grow sl x b = (sl', b')" and "sl_len sl = 0 \<and> sl_cap sl = 0 \<or> slice_ok b sl"
  shows "slice_ok b' sl' \<and> elems b' sl' = elems b sl @ [x] \<and> sb_next_arr b \<le> sb_next_arr b'
    \<and> (sl_arr sl' = sl_arr sl \<and> slice_ok b sl \<or> sl_arr sl' = sb_next_arr b)
    \<and> (\<forall>a. a \<noteq> sl_arr sl' \<longrightarrow> sb_arrays b' a = sb_arrays b a)
    \<and> sb_subs b' = sb_subs b \<and> sb_chans b' = sb_chans b \<and> sb_next_chan b' = sb_next_chan b"
  using assms
  by (auto simp: append_slice_def slice_ok_def elems_def Let_def take_Suc_conv_app_nth split: if_splits)

lemma broker_wf_slice: "broker_wf b \<Longrightarrow> sb_subs b j = Some sl \<Longrightarrow> slice_ok b sl"
  by (auto simp: broker_wf_def)

lemma broker_wf_apart:
  "broker_wf b \<Longrightarrow> sb_subs b i = Some sl \<Longrightarrow> sb_subs b j = Some sl' \<Longrightarrow> i \<noteq> j \<Longrightarrow> sl_arr sl \<noteq> sl_arr sl'"
  unfolding broker_wf_def by blast

lemma broker_wf_chans: "broker_wf b \<Longrightarrow> distinct (subs_of b j) \<and> set (subs_of b j) \<subseteq> {..<sb_next_chan b}"
  by (simp add: broker_wf_def)

text \<open>Changing one job's slice, away from the arrays of the others, changes that job's list only.\<close>

lemma broker_wf_update:
  assumes wf: "broker_wf b"
    and subs: "\<And>i. i \<noteq> j \<Longrightarrow> sb_subs b' i = sb_subs b i"
    and next_le: "sb_next_arr b \<le> sb_next_arr b'" "sb_next_chan b \<le> sb_next_chan b'"
    and arr: "\<And>i sl. i \<noteq> j \<Longrightarrow> sb_subs b i = Some sl \<Longrightarrow> sb_arrays b' (sl_arr sl) = sb_arrays b (sl_arr sl)"
    and mine: "\<And>sl. sb_subs b' j = Some sl \<Longrightarrow> slice_ok b' sl"
    and apart: "\<And>i sl sl'. i \<noteq> j \<Longrightarrow> sb_subs b' j = Some sl \<Longrightarrow> sb_subs b i = Some sl' \<Longrightarrow> sl_arr sl' \<noteq> sl_arr sl"
    and chans: "distinct (subs_of b' j)" "set (subs_of b' j) \<subseteq> {..<sb_next_chan b'}"
  shows "broker_wf b' \<and> subs_of b' = (subs_of b)(j := subs_of b' j)"
proof -
  have others: "subs_of b' i = subs_of b i" if "i \<noteq> j" for i
    using that by (intro subs_of_cong) (auto simp: subs arr)
  then have eq: "subs_of b' = (subs_of b)(j := subs_of b' j)" by (auto simp: fun_eq_iff)
  have "slice_ok b' sl" if "sb_subs b' i = Some sl" for i sl
    using that mine subs[of i] arr[of i sl] wf next_le by (cases "i = j") (fastforce simp: broker_wf_def slice_ok_def)+
  moreover have "i = k" if "sb_subs b' i = Some s1" "sb_subs b' k = Some s2" "sl_arr s1 = sl_arr s2" for i k s1 s2
    using that subs[of i] subs[of k] apart[of i s2 s1] apart[of k s1 s2] broker_wf_apart[OF wf, of i s1 k s2]
    by (cases "i = j"; cases "k = j") auto
  moreover have "distinct (subs_of b' i) \<and> set (subs_of b' i) \<subseteq> {..<sb_next_chan b'}" for i
    using chans others[of i] wf next_le(2) by (cases "i = j") (fastforce simp: broker_wf_def)+
  ultimately show ?thesis using eq by (auto simp: broker_wf_def)
qed

lemma subscribe_facts:
  assumes "broker_wf b" and "subscribe grow j b = (c, b')"
  shows "c = sb_next_chan b \<and> sb_next_chan b' = sb_next_chan b + 1 \<and> broker_wf b'
    \<and> subs_of b' = (subs_of b)(j := subs_of b j @ [c])"
proof -
  let ?b1 = "b\<lparr> sb_chans := (sb_chans b)(sb_next_chan b := new_channel), sb_next_chan := sb_next_chan b + 1 \<rparr>"
  obtain sl b2 where ap: "append_slice grow (subs_slice b j) (sb_next_chan b) ?b1 = (sl, b2)" by fastforce
  have c: "c = sb_next_chan b" and b': "b' = b2\<lparr> sb_subs := (sb_subs b2)(j \<mapsto> sl) \<rparr>"
    using assms(2) ap by (simp_all add: subscribe_def Let_def subs_slice_def)
  have pre: "sl_len (subs_slice b j) = 0 \<and> sl_cap (subs_slice b j) = 0 \<or> slice_ok ?b1 (subs_slice b j)"
    using assms(1) by (auto simp: broker_wf_def subs_slice_def nil_slice_def slice_ok_def split: option.splits)
  note ok = append_slice_ok[OF ap pre]
  have apart: "sl_arr sl' \<noteq> sl_arr sl" if "i \<noteq> j" "sb_subs b i = Some sl'" for i sl'
  proof -
    have "sl_arr sl' \<noteq> sb_next_arr b" using broker_wf_slice[OF assms(1) that(2)] by (simp add: slice_ok_def)
    moreover have "sl_arr sl' \<noteq> sl_arr (subs_slice b j)" if "slice_ok ?b1 (subs_slice b j)"
      using that broker_wf_apart[OF assms(1) \<open>sb_subs b i = Some sl'\<close>, of j] \<open>i \<noteq> j\<close>
      by (cases "sb_subs b j") (auto simp: subs_slice_def nil_slice_def slice_ok_def)
    ultimately show ?thesis using ok by auto
  qed
  have j: "subs_of b' j = subs_of b j @ [c]"
    using ok by (simp add: b' c subs_of_def subs_slice_def elems_def)
  have nx: "sb_next_chan b' = sb_next_chan b + 1" using ok by (simp add: b')
  have "broker_wf b' \<and> subs_of b' = (subs_of b)(j := subs_of b' j)"
  proof (rule broker_wf_update[OF assms(1)])
    show "distinct (subs_of b' j)" "set (subs_of b' j) \<subseteq> {..<sb_next_chan b'}"
      using broker_wf_chans[OF assms(1), of j] unfolding j c nx by auto
  qed (use ok apart in \<open>auto simp: b' slice_ok_def\<close>)
  then show ?thesis using c j ok by (simp add: b')
qed

text \<open>Removing one element.\<close>

lemma index_from_Some:
  "index_from i c xs = Some k \<Longrightarrow> i \<le> k \<and> k - i < length xs \<and> remove1 c xs = take (k - i) xs @ drop (k - i + 1) xs"
proof (induction xs arbitrary: i)
  case (Cons x xs)
  show ?case
  proof (cases "x = c")
    case False
    with Cons have "i + 1 \<le> k \<and> k - (i + 1) < length xs
        \<and> remove1 c xs = take (k - (i + 1)) xs @ drop (k - (i + 1) + 1) xs" by simp
    moreover from this have "k - i = Suc (k - (i + 1))" by arith
    ultimately show ?thesis using False by simp
  qed (use Cons.prems in auto)
qed simp

lemma index_from_None: "index_from i c xs = None \<longleftrightarrow> c \<notin> set xs"
  by (induction xs arbitrary: i) auto

lemma unsubscribe_facts:
  assumes "broker_wf b"
  shows "broker_wf (unsubscribe j c b) \<and> subs_of (unsubscribe j c b) = (subs_of b)(j := remove1 c (subs_of b j))
    \<and> sb_next_chan (unsubscribe j c b) = sb_next_chan b"
proof (cases "index_from 0 c (subs_of b j)")
  case None
  then have "remove1 c (subs_of b j) = subs_of b j" by (simp add: index_from_None remove1_idem)
  moreover have "unsubscribe j c b = b\<lparr> sb_subs := sb_subs b \<rparr>"
  proof (cases "sb_subs b j")
    case (Some sl)
    then have "sl_len (subs_slice b j) \<noteq> 0"
      using broker_wf_slice[OF assms Some] by (simp add: subs_slice_def slice_ok_def)
    then show ?thesis using None by (simp add: unsubscribe_def subs_of_def Let_def)
  qed (use None in \<open>auto simp: unsubscribe_def subs_of_def Let_def fun_upd_idem\<close>)
  ultimately show ?thesis using assms by simp
next
  case (Some i)
  note idx = index_from_Some[OF Some, simplified]
  obtain sl where sl: "sb_subs b j = Some sl"
    using Some by (cases "sb_subs b j") (auto simp: subs_of_None)
  note ok = broker_wf_slice[OF assms sl, unfolded slice_ok_def]
  define xs where "xs = sb_arrays b (sl_arr sl)"
  have el: "subs_of b j = take (sl_len sl) xs" using sl by (simp add: subs_of_Some xs_def)
  define ys where "ys = take i xs @ drop (i + 1) (take (sl_len sl) xs) @ drop (sl_len sl - 1) xs"
  have i: "i < sl_len sl" using idx ok el by simp
  have xs: "length xs = sl_cap sl" "sl_len sl \<le> sl_cap sl" using ok by (simp_all add: xs_def)
  have rm: "remove1 c (subs_of b j) = take i xs @ drop (i + 1) (take (sl_len sl) xs)"
    using idx i unfolding el by (simp add: min_def)
  have ys: "length ys = sl_cap sl" "take (sl_len sl - 1) ys = remove1 c (subs_of b j)"
    using i xs unfolding rm ys_def by auto
  define b1 where "b1 = b\<lparr> sb_arrays := (sb_arrays b)(sl_arr sl := ys), sb_subs := (sb_subs b)(j \<mapsto> sl\<lparr> sl_len := sl_len sl - 1 \<rparr>) \<rparr>"
  have un: "unsubscribe j c b =
      (if sl_len sl - 1 = 0 then b1\<lparr> sb_subs := (sb_subs b)(j := None) \<rparr> else b1)"
    using Some sl
    by (simp add: unsubscribe_def subs_of_def subs_slice_def remove_at_def Let_def b1_def ys_def xs_def)
  have j: "subs_of (unsubscribe j c b) j = remove1 c (subs_of b j)"
    unfolding ys(2)[symmetric] by (simp add: un b1_def subs_of_def subs_slice_def elems_def nil_slice_def)
  have nx: "sb_next_chan (unsubscribe j c b) = sb_next_chan b" by (simp add: un b1_def)
  have "broker_wf (unsubscribe j c b)
      \<and> subs_of (unsubscribe j c b) = (subs_of b)(j := subs_of (unsubscribe j c b) j)"
  proof (rule broker_wf_update[OF assms])
    show "distinct (subs_of (unsubscribe j c b) j)" "set (subs_of (unsubscribe j c b) j) \<subseteq> {..<sb_next_chan (unsubscribe j c b)}"
      using broker_wf_chans[OF assms, of j] set_remove1_subset unfolding j nx by fastforce+
  qed (use ok ys(1) broker_wf_apart[OF assms _ sl] in \<open>auto simp: un b1_def slice_ok_def split: if_splits\<close>)
  then show ?thesis using j nx by simp
qed

section \<open>Publishing\<close>

lemma deliver_to_fields [simp]:
  "sb_arrays (deliver_to e c b) = sb_arrays b" "sb_subs (deliver_to e c b) = sb_subs b"
  by (simp_all add: deliver_to_def)

lemma publish_loop_fold:
  "sl_len (pb_slice p) \<le> length (sb_arrays b (sl_arr (pb_slice p))) \<Longrightarrow>
   publish_loop p b = fold (deliver_to (pb_event p)) (drop (pb_index p) (elems b (pb_slice p))) b"
proof (induction p b rule: publish_loop.induct)
  case (1 p b)
  show ?case
  proof (cases "pb_index p < sl_len (pb_slice p)")
    case True
    then have "drop (pb_index p) (elems b (pb_slice p)) =
        sb_arrays b (sl_arr (pb_slice p)) ! pb_index p # drop (Suc (pb_index p)) (elems b (pb_slice p))"
      using 1(2) by (simp add: elems_def Cons_nth_drop_Suc[symmetric])
    then show ?thesis using 1 True
      by (subst publish_loop.simps) (simp add: publish_next_def elems_def)
  next
    case False
    then show ?thesis
      by (subst publish_loop.simps) (simp add: publish_next_def elems_def)
  qed
qed

lemma fold_deliver_to:
  "distinct cs \<Longrightarrow> sb_chans (fold (deliver_to e) cs b) =
     (\<lambda>c. if c \<in> set cs then send_or_drop e (sb_chans b c) else sb_chans b c)"
  by (induction cs arbitrary: b) (auto simp: deliver_to_def fun_eq_iff)

lemma Publish_fold:
  assumes "broker_wf b"
  shows "Publish j e b = fold (deliver_to e) (subs_of b j) b"
proof -
  have "sl_len (subs_slice b j) \<le> length (sb_arrays b (sl_arr (subs_slice b j)))"
    using broker_wf_slice[OF assms, of j] by (cases "sb_subs b j") (auto simp: subs_slice_def nil_slice_def slice_ok_def)
  then show ?thesis by (simp add: Publish_def publish_loop_fold publish_start_def subs_of_def)
qed

lemma Publish_chans:
  assumes "broker_wf b"
  shows "sb_chans (Publish j e b) =
    (\<lambda>c. if c \<in> set (subs_of b j) then send_or_drop e (sb_chans b c) else sb_chans b c)"
  using broker_wf_chans[OF assms, of j] by (simp add: Publish_fold[OF assms] fold_deliver_to)

lemma fold_deliver_to_only_chans: "\<exists>f. fold (deliver_to e) cs b = b\<lparr> sb_chans := f \<rparr>"
proof (induction cs arbitrary: b)
  case Nil
  have "fold (deliver_to e) [] b = b\<lparr> sb_chans := sb_chans b \<rparr>" by simp
  then show ?case by blast
next
  case (Cons c cs)
  from Cons[of "deliver_to e c b"] show ?case by (auto simp: deliver_to_def)
qed

lemma only_chans [simp]: "broker_wf (b\<lparr> sb_chans := f \<rparr>) = broker_wf b" "subs_of (b\<lparr> sb_chans := f \<rparr>) = subs_of b"
  by (simp_all add: broker_wf_def slice_ok_def subs_of_def subs_slice_def elems_def fun_eq_iff)

lemma Publish_wf: "broker_wf b \<Longrightarrow> broker_wf (Publish j e b) \<and> subs_of (Publish j e b) = subs_of b"
  using fold_deliver_to_only_chans[of e "subs_of b j" b] by (auto simp: Publish_fold)

text \<open>Subscribers that read nothing while events are published, from empty channels on.\<close>

lemma Publish_many:
  assumes "broker_wf b" and "sb_chans b = (\<lambda>c. new_channel)"
  shows "broker_wf (fold (Publish j) es b) \<and> subs_of (fold (Publish j) es b) = subs_of b
    \<and> sb_chans (fold (Publish j) es b) =
        (\<lambda>c. if c \<in> set (subs_of b j) then new_channel\<lparr> cn_buf := take sse_cap es \<rparr> else new_channel)"
proof (induction es rule: rev_induct)
  case Nil
  then show ?case using assms by (simp add: new_channel_def fun_eq_iff)
next
  case (snoc e es)
  have full: "take n (es @ [e]) = take n es @ (if length (take n es) < n then [e] else [])" for n :: nat by auto
  show ?case
    using snoc Publish_wf[of "fold (Publish j) es b" j e] Publish_chans[of "fold (Publish j) es b" j e]
    unfolding full by (auto simp: send_or_drop_def try_send_def new_channel_def fun_eq_iff)
qed

section \<open>The interface of the subscriptions\<close>

text \<open>
  What a client of the broker relies on: subscribing appends a fresh channel to the list of the job,
  unsubscribing removes it.  From these laws every sequence of operations gives the lists that the
  same operations give on plain lists.
\<close>

datatype sub_op = Subscribe string | Unsubscribe string nat

fun spec_op :: "sub_op \<Rightarrow> (string \<Rightarrow> nat list) \<times> nat \<Rightarrow> (string \<Rightarrow> nat list) \<times> nat" where
  "spec_op (Subscribe j) (m, n) = (m(j := m j @ [n]), n + 1)"
| "spec_op (Unsubscribe j c) (m, n) = (m(j := remove1 c (m j)), n)"

locale subscriptions =
  fixes wf :: "'b \<Rightarrow> bool" and subs :: "'b \<Rightarrow> string \<Rightarrow> nat list" and fresh :: "'b \<Rightarrow> nat"
    and sub :: "string \<Rightarrow> 'b \<Rightarrow> nat \<times> 'b" and unsub :: "string \<Rightarrow> nat \<Rightarrow> 'b \<Rightarrow> 'b"
  assumes sub_law: "wf b \<Longrightarrow> sub j b = (c, b') \<Longrightarrow>
      c = fresh b \<and> fresh b' = fresh b + 1 \<and> wf b' \<and> subs b' = (subs b)(j := subs b j @ [c])"
    and unsub_law: "wf b \<Longrightarrow>
      wf (unsub j c b) \<and> subs (unsub j c b) = (subs b)(j := remove1 c (subs b j)) \<and> fresh (unsub j c b) = fresh b"
begin

fun apply_sub :: "sub_op \<Rightarrow> 'b \<Rightarrow> 'b" where
  "apply_sub (Subscribe j) b = snd (sub j b)"
| "apply_sub (Unsubscribe j c) b = unsub j c b"

lemma apply_sub_refines:
  assumes "wf b"
  shows "wf (apply_sub opn b) \<and> (subs (apply_sub opn b), fresh (apply_sub opn b)) = spec_op opn (subs b, fresh b)"
proof (cases opn)
  case (Subscribe j)
  then show ?thesis using sub_law[OF assms, of j "fst (sub j b)" "snd (sub j b)"] by simp
qed (use unsub_law[OF assms] in simp)

lemma run_refines:
  "wf b \<Longrightarrow> wf (fold apply_sub ops b)
    \<and> (subs (fold apply_sub ops b), fresh (fold apply_sub ops b)) = fold spec_op ops (subs b, fresh b)"
proof (induction ops arbitrary: b)
  case (Cons opn ops)
  then show ?case using apply_sub_refines[of b opn] by simp
qed simp

end

interpretation sse: subscriptions broker_wf subs_of sb_next_chan "subscribe grow" unsubscribe for grow
  by unfold_locales (use subscribe_facts unsubscribe_facts in blast)+

definition broker_op :: "(nat \<Rightarrow> nat) \<Rightarrow> sub_op \<Rightarrow> SSEBroker \<Rightarrow> SSEBroker" where
  "broker_op grow opn b = (case opn of Subscribe j \<Rightarrow> snd (subscribe grow j b) | Unsubscribe j c \<Rightarrow> unsubscribe j c b)"

lemma broker_op_apply: "broker_op grow = sse.apply_sub grow"
  by (intro ext) (simp add: broker_op_def split: sub_op.splits)

lemma NewSSEBroker_wf: "broker_wf NewSSEBroker" "subs_of NewSSEBroker = (\<lambda>j. [])" "sb_next_chan NewSSEBroker = 0"
  by (auto simp: broker_wf_def NewSSEBroker_def subs_of_None fun_eq_iff)

lemma broker_op_chans: "sb_chans b = (\<lambda>c. new_channel) \<Longrightarrow> sb_chans (broker_op grow opn b) = (\<lambda>c. new_channel)"
  by (auto simp: broker_op_def subscribe_def append_slice_def unsubscribe_def remove_at_def Let_def fun_eq_iff
      split: sub_op.splits option.splits prod.splits)

lemma broker_ops_chans: "sb_chans b = (\<lambda>c. new_channel) \<Longrightarrow> sb_chans (fold (broker_op grow) ops b) = (\<lambda>c. new_channel)"
  by (induction ops arbitrary: b) (simp_all add: broker_op_chans)

section \<open>Properties\<close>

text \<open>
  C16: The slices implement lists.  After any sequence of subscriptions and unsubscriptions, whatever
  capacities the runtime chooses when it grows a slice, the subscribers of every job are those the
  same operations leave on plain lists; and an event published then, with no operation in between,
  goes to each subscriber of its job exactly once, unless its channel is full, and to nobody else: of
  events published one after the other a subscriber that reads none of them holds the first 64 in their order.
\<close>

theorem sse_lists:
  "let b = fold (broker_op grow) ops NewSSEBroker
   in (subs_of b, sb_next_chan b) = fold spec_op ops (\<lambda>j. [], 0)
      \<and> sb_chans (Publish j e b) =
          (\<lambda>c. if c \<in> set (subs_of b j) then send_or_drop e (sb_chans b c) else sb_chans b c)
      \<and> cn_buf (sb_chans (fold (Publish j) es b) c) = (if c \<in> set (subs_of b j) then take 64 es else [])"
proof -
  let ?b = "fold (broker_op grow) ops NewSSEBroker"
  have wf: "broker_wf ?b \<and> (subs_of ?b, sb_next_chan ?b) = fold spec_op ops (\<lambda>j. [], 0)"
    using sse.run_refines[OF NewSSEBroker_wf(1), of grow ops] by (simp add: broker_op_apply NewSSEBroker_wf)
  moreover have "sb_chans ?b = (\<lambda>c. new_channel)"
    by (rule broker_ops_chans) (simp add: NewSSEBroker_def)
  ultimately show ?thesis
    using Publish_chans[of ?b j e] Publish_many[of ?b j es] by (simp add: Let_def sse_cap_def new_channel_def)
qed

text \<open>Three subscribers of a job, and a publisher that is interrupted after its first delivery.\<close>

definition three_subscribers :: SSEBroker where
  "three_subscribers = fold (broker_op (\<lambda>n. 1)) [Subscribe ''job'', Subscribe ''job'', Subscribe ''job''] NewSSEBroker"

lemmas broker_defs =
  three_subscribers_def broker_op_def subscribe_def append_slice_def subs_slice_def nil_slice_def NewSSEBroker_def elems_def
  publish_start_def publish_next_def deliver_to_def send_or_drop_def try_send_def new_channel_def sse_cap_def unsubscribe_def
  remove_at_def subs_of_def

text \<open>
  Unsubscribing during a publication loses and duplicates events.  Publishing releases the lock
  before it iterates, and unsubscribing shifts the array it iterates over: when the first of three
  subscribers leaves after its own delivery, the second never gets the event and the third gets
  it twice.
\<close>

theorem publish_races_unsubscribe:
  "\<exists>p b b'. publish_next (publish_start ''job'' ex_event three_subscribers) three_subscribers = Some (p, b)
     \<and> b' = publish_loop p (unsubscribe ''job'' 0 b)
     \<and> map (\<lambda>c. cn_buf (sb_chans b' c)) [0, 1, 2] = [[ex_event], [], [ex_event, ex_event]]
     \<and> subs_of (unsubscribe ''job'' 0 b) ''job'' = [1, 2]"
  by (simp add: broker_defs publish_loop_fold Let_def)

text \<open>
  A stream that has returned, for whatever reason, leaves no subscription behind; a terminal event
  ends it.
\<close>

theorem ServeSSE_no_leak:
  assumes "broker_wf b" and "ServeSSE marshal grow ins w jobID b = (calls, True, b')"
  shows "broker_wf b' \<and> subs_of b' = subs_of b"
proof (cases "jobID = [] \<or> \<not> can_flush w")
  case False
  obtain c b1 where s: "subscribe grow jobID b = (c, b1)" by fastforce
  note f = subscribe_facts[OF assms(1) s]
  have "b' = unsubscribe jobID c b1"
    using assms(2) False s by (auto simp: ServeSSE_def split: prod.splits)
  moreover have "c \<notin> set (subs_of b jobID)" using f broker_wf_chans[OF assms(1), of jobID] by auto
  ultimately show ?thesis
    using unsubscribe_facts[of b1 jobID c] f by (simp add: remove1_append fun_upd_idem)
qed (use assms in \<open>auto simp: ServeSSE_def split: if_splits\<close>)

lemma sse_loop_terminal:
  assumes "je_Type e = ''done'' \<or> je_Type e = ''failed''"
  shows "snd (sse_loop marshal (map (\<lambda>x. Heartbeat) hs @ Received e None # ins))"
  using assms by (induction hs) (auto simp: writeSSEEvent_def split: prod.splits sum.splits)

end
