(* ===== verification/GoMux.thy ===== *)
theory GoMux
  imports GoHttp GoFmt "HOL-Library.List_Lexorder" "HOL-Library.Char_ord"
begin

text \<open>
  Routing as \<^verbatim>\<open>http.ServeMux\<close> does it for the patterns of the services, which have a method, literal
  segments and single-segment wildcards, and the reading of URL queries (\<^verbatim>\<open>net/url\<close>).  The paths are
  escaped and clean ones: the mux redirects any other.
\<close>

section \<open>Escapes\<close>

definition hex_value :: "char \<Rightarrow> int option" where
  "hex_value c =
     (let n = of_char c :: int
      in if 48 \<le> n \<and> n \<le> 57 then Some (n - 48)
         else if 97 \<le> n \<and> n \<le> 102 then Some (n - 87)
         else if 65 \<le> n \<and> n \<le> 70 then Some (n - 55)
         else None)"

text \<open>A percent sign must be followed by two hexadecimal digits; in a query, a plus sign is a space.\<close>

fun unescape :: "bool \<Rightarrow> string \<Rightarrow> string option" where
  "unescape query [] = Some []"
| "unescape query (c # s) =
     (if c = CHR ''%'' then
        (case s of
           a # b # rest \<Rightarrow>
             (case (hex_value a, hex_value b) of
                (Some x, Some y) \<Rightarrow> map_option ((#) (char_of (x * 16 + y))) (unescape query rest)
              | _ \<Rightarrow> None)
         | _ \<Rightarrow> None)
      else map_option ((#) (if query \<and> c = CHR ''+'' then CHR '' '' else c)) (unescape query s))"

definition pathUnescape :: "string \<Rightarrow> string" where
  "pathUnescape s = (case unescape False s of Some t \<Rightarrow> t | None \<Rightarrow> s)"

definition QueryUnescape :: "string \<Rightarrow> string option" where
  "QueryUnescape s = unescape True s"

section \<open>Queries\<close>

text \<open>\<^verbatim>\<open>strings.Cut\<close> at the first equals sign, without whether there was one.\<close>

definition cut_equals :: "string \<Rightarrow> string \<times> string" where
  "cut_equals s = (takeWhile (\<lambda>c. c \<noteq> CHR ''='') s, drop 1 (dropWhile (\<lambda>c. c \<noteq> CHR ''='') s))"

definition query_pair :: "string \<Rightarrow> (string \<times> string) option" where
  "query_pair item =
     (if CHR '';'' \<in> set item \<or> item = [] then None
      else case cut_equals item of (k, v) \<Rightarrow>
             (case (QueryUnescape k, QueryUnescape v) of (Some k', Some v') \<Rightarrow> Some (k', v') | _ \<Rightarrow> None))"

text \<open>The pairs in their order; \<^verbatim>\<open>Get\<close> gives the first value of a key, or the empty string.\<close>

definition ParseQuery :: "string \<Rightarrow> (string \<times> string) list" where
  "ParseQuery raw = List.map_filter query_pair (split_on (CHR ''&'') raw)"

definition Values_Get :: "(string \<times> string) list \<Rightarrow> string \<Rightarrow> string" where
  "Values_Get q k = (case map_of q k of Some v \<Rightarrow> v | None \<Rightarrow> [])"

section \<open>Patterns\<close>

datatype seg = Lit string | Wild

type_synonym 'e pattern = "string \<times> seg list \<times> (string list \<Rightarrow> 'e)"

text \<open>The values of the wildcards, when the segments match.  A wildcard takes a segment that is not empty.\<close>

fun match_segs :: "seg list \<Rightarrow> string list \<Rightarrow> string list option" where
  "match_segs [] [] = Some []"
| "match_segs (Lit l # ps) (s # ss) = (if s = l then match_segs ps ss else None)"
| "match_segs (Wild # ps) (s # ss) = (if s = [] then None else map_option ((#) s) (match_segs ps ss))"
| "match_segs _ _ = None"

definition segments :: "string \<Rightarrow> string list" where
  "segments path = map pathUnescape (tl (split_on (CHR ''/'') path))"

text \<open>A pattern with method GET also takes HEAD.\<close>

definition method_ok :: "string \<Rightarrow> string \<Rightarrow> bool" where
  "method_ok m verb \<longleftrightarrow> verb = m \<or> (m = ''GET'' \<and> verb = ''HEAD'')"

definition matches :: "string \<Rightarrow> string list \<Rightarrow> 'e pattern \<Rightarrow> 'e option" where
  "matches verb ss p =
     (case p of (m, segs, h) \<Rightarrow> if method_ok m verb then map_option h (match_segs segs ss) else None)"

text \<open>
  A path that is known under other methods only is answered with the list of those, in alphabetical
  order.
\<close>

datatype 'e routed = Routed 'e | NotFound | NotAllowed string

definition allowed_methods :: "string list \<Rightarrow> 'e pattern list \<Rightarrow> string list" where
  "allowed_methods ss pats =
     sort (remdups (concat (map (\<lambda>(m, segs, h).
       if match_segs segs ss = None then [] else if m = ''GET'' then [''GET'', ''HEAD''] else [m]) pats)))"

definition mux_match :: "'e pattern list \<Rightarrow> string \<Rightarrow> string \<Rightarrow> 'e routed" where
  "mux_match pats verb path =
     (let ss = segments path
      in case List.map_filter (matches verb ss) pats of
           e # _ \<Rightarrow> Routed e
         | [] \<Rightarrow> (case allowed_methods ss pats of [] \<Rightarrow> NotFound | ms \<Rightarrow> NotAllowed (join_with '', '' ms)))"

section \<open>Tables without clashes\<close>

text \<open>
  The mux takes the most specific of the patterns that match and refuses patterns that clash.  In a
  table in which no two patterns can match the same request there is nothing to choose.
\<close>

fun overlap :: "seg list \<Rightarrow> seg list \<Rightarrow> bool" where
  "overlap [] [] = True"
| "overlap (Lit a # ps) (Lit b # qs) = (a = b \<and> overlap ps qs)"
| "overlap (Wild # ps) (q # qs) = overlap ps qs"
| "overlap (p # ps) (Wild # qs) = overlap ps qs"
| "overlap _ _ = False"

definition clash :: "'e pattern \<Rightarrow> 'e pattern \<Rightarrow> bool" where
  "clash p q =
     (case (p, q) of ((m, ps, g), (n, qs, h)) \<Rightarrow>
        (m = n \<or> (m = ''GET'' \<and> n = ''HEAD'') \<or> (m = ''HEAD'' \<and> n = ''GET'')) \<and> overlap ps qs)"

fun clash_free :: "'e pattern list \<Rightarrow> bool" where
  "clash_free [] = True"
| "clash_free (p # ps) = (list_all (\<lambda>q. \<not> clash p q) ps \<and> clash_free ps)"

lemma match_segs_Nil: "match_segs ps [] \<noteq> None \<longleftrightarrow> ps = []"
  by (cases ps rule: list.exhaust; cases "hd ps") auto

lemma match_segs_Cons:
  "match_segs ps (s # ss) \<noteq> None \<longleftrightarrow>
     (\<exists>p qs. ps = p # qs \<and> (case p of Lit l \<Rightarrow> s = l | Wild \<Rightarrow> s \<noteq> []) \<and> match_segs qs ss \<noteq> None)"
  by (cases ps rule: list.exhaust; cases "hd ps") (auto split: if_splits)

lemma match_segs_values:
  "match_segs ps ss = Some vs \<Longrightarrow> [] \<notin> set vs \<and> length vs = length (filter (\<lambda>p. p = Wild) ps)"
  by (induction ps ss arbitrary: vs rule: match_segs.induct) (auto split: if_splits)

lemma match_overlap: "match_segs ps ss \<noteq> None \<Longrightarrow> match_segs qs ss \<noteq> None \<Longrightarrow> overlap ps qs"
proof (induction ss arbitrary: ps qs)
  case (Cons s ss)
  from Cons.prems obtain p q ps' qs' where "ps = p # ps'" "qs = q # qs'" "match_segs ps' ss \<noteq> None" "match_segs qs' ss \<noteq> None"
      "case p of Lit l \<Rightarrow> s = l | Wild \<Rightarrow> s \<noteq> []" "case q of Lit l \<Rightarrow> s = l | Wild \<Rightarrow> s \<noteq> []"
    unfolding match_segs_Cons by blast
  with Cons.IH[of ps' qs'] show ?case by (cases p; cases q) auto
qed (simp only: match_segs_Nil overlap.simps)

lemma matches_clash: "matches verb ss p = Some e \<Longrightarrow> matches verb ss q = Some e' \<Longrightarrow> clash p q"
  by (auto simp: matches_def clash_def method_ok_def intro!: match_overlap[of _ ss] split: prod.splits if_splits)

lemma clash_free_unique:
  "clash_free ps \<Longrightarrow> p \<in> set ps \<Longrightarrow> q \<in> set ps \<Longrightarrow> matches verb ss p = Some e \<Longrightarrow> matches verb ss q = Some e' \<Longrightarrow> p = q"
  by (induction ps) (auto simp: list_all_iff dest: matches_clash)

text \<open>What a service relies on: its table is without clashes, so the order of registration is irrelevant.\<close>

locale route_table =
  fixes pats :: "'e pattern list"
  assumes no_clash: "clash_free pats"
begin

lemma routed_iff:
  "mux_match pats verb path = Routed e \<longleftrightarrow> (\<exists>p \<in> set pats. matches verb (segments path) p = Some e)"
proof -
  let ?es = "List.map_filter (matches verb (segments path)) pats"
  have set: "x \<in> set ?es \<longleftrightarrow> (\<exists>p \<in> set pats. matches verb (segments path) p = Some x)" for x
    by (force simp: map_filter_def)
  have "x = y" if "x \<in> set ?es" "y \<in> set ?es" for x y
    using that clash_free_unique[OF no_clash] unfolding set by (metis option.inject)
  then have "(\<exists>xs. ?es = e # xs) \<longleftrightarrow> e \<in> set ?es" by (cases ?es) auto
  moreover have "mux_match pats verb path = Routed e \<longleftrightarrow> (\<exists>xs. ?es = e # xs)"
    by (auto simp: mux_match_def Let_def split: list.splits)
  ultimately show ?thesis using set by simp
qed

lemma not_found_iff:
  "mux_match pats verb path = NotFound \<longleftrightarrow> (\<forall>(m, segs, h) \<in> set pats. match_segs segs (segments path) = None)"
proof -
  let ?ms = "\<lambda>p. case p of (m, segs, h) \<Rightarrow>
      if match_segs segs (segments path) = None then [] else if m = ''GET'' then [''GET'', ''HEAD''] else [m]"
  have all: "set (allowed_methods (segments path) pats) = (\<Union>p \<in> set pats. set (?ms p))"
    by (simp add: allowed_methods_def)
  have each: "set (?ms p) = {} \<longleftrightarrow> (case p of (m, segs, h) \<Rightarrow> match_segs segs (segments path) = None)" for p by (cases p) simp
  have "allowed_methods (segments path) pats = [] \<longleftrightarrow> set (allowed_methods (segments path) pats) = {}" by simp
  then have none: "allowed_methods (segments path) pats = [] \<longleftrightarrow>
      (\<forall>(m, segs, h) \<in> set pats. match_segs segs (segments path) = None)"
    unfolding all SUP_bot_conv each .
  define P where "P \<longleftrightarrow> (\<forall>(m, segs, h) \<in> set pats. match_segs segs (segments path) = None)"
  have "List.map_filter (matches verb (segments path)) pats = []" if P
    using that by (auto simp: P_def map_filter_def matches_def filter_empty_conv split: prod.splits)
  moreover have "allowed_methods (segments path) pats = [] \<longleftrightarrow> P" unfolding P_def by (rule none)
  ultimately have "mux_match pats verb path = NotFound \<longleftrightarrow> P"
    by (auto simp: mux_match_def Let_def split: list.splits)
  then show ?thesis unfolding P_def .
qed

end

section \<open>Queries read back\<close>

text \<open>Text that a query carries unescaped.\<close>

definition query_safe :: "string \<Rightarrow> bool" where
  "query_safe s \<longleftrightarrow> set s \<inter> set ''%+&;=#'' = {}"

lemma unescape_plain: "CHR ''%'' \<notin> set s \<Longrightarrow> CHR ''+'' \<notin> set s \<Longrightarrow> unescape q s = Some s"
  by (induction s) auto

lemma query_pair_safe:
  assumes "query_safe k" and "query_safe v" and "k \<noteq> []"
  shows "query_pair (k @ ''='' @ v) = Some (k, v)"
proof -
  have k: "takeWhile (\<lambda>c. c \<noteq> CHR ''='') k = k" "dropWhile (\<lambda>c. c \<noteq> CHR ''='') k = []"
    using assms(1) by (auto simp: query_safe_def takeWhile_eq_all_conv dropWhile_eq_Nil_conv)
  have "cut_equals (k @ ''='' @ v) = (k, v)"
    using assms(1) by (auto simp: cut_equals_def query_safe_def takeWhile_append dropWhile_append k)
  moreover have "QueryUnescape k = Some k" "QueryUnescape v = Some v"
    using assms(1,2) by (simp_all add: QueryUnescape_def unescape_plain query_safe_def)
  ultimately show ?thesis using assms by (simp add: query_pair_def query_safe_def)
qed

lemma ParseQuery_one:
  "query_safe k \<Longrightarrow> query_safe v \<Longrightarrow> k \<noteq> [] \<Longrightarrow> ParseQuery (k @ ''='' @ v) = [(k, v)]"
  using query_pair_safe[of k v]
  by (simp add: ParseQuery_def split_on_plain query_safe_def map_filter_simps)

lemma ParseQuery_more:
  assumes "query_safe k" and "query_safe v" and "k \<noteq> []"
  shows "ParseQuery (k @ ''='' @ v @ ''&'' @ rest) = (k, v) # ParseQuery rest"
proof -
  have "CHR ''&'' \<notin> set (k @ ''='' @ v)" using assms by (simp add: query_safe_def)
  from split_on_append[OF this, of rest] query_pair_safe[OF assms] show ?thesis
    by (simp add: ParseQuery_def map_filter_simps)
qed

lemma query_safe_fmt_d: "query_safe (fmt_d n)"
proof -
  have "set (fmt_d n) \<subseteq> set ''-0123456789''"
    using decimal_digits[of n] decimal_digits[of "- n"] by (auto simp: fmt_d_def)
  then show ?thesis by (auto simp: query_safe_def)
qed

text \<open>Evaluating a table on a concrete request.\<close>

lemmas mux_eval [eval_simps] = mux_match_def matches_def segments_def pathUnescape_def method_ok_def allowed_methods_def map_filter_simps

end
