(* ===== verification/Gateway.thy ===== *)
theory Gateway
  imports EventStream Signing GoMux
begin

text \<open>
  The API gateway (\<^verbatim>\<open>services/api-gateway\<close>): its configuration, the handlers for webhooks and jobs, and
  the server that routes requests to them behind the middleware.  The network, the JSON codec, the
  random bytes and the clock are arguments.
\<close>

section \<open>config.go\<close>

record Config =
  cf_ListenAddr :: string
  cf_PolicyEngineURL :: string
  cf_AnalysisServiceURL :: string
  cf_AuditServiceURL :: string
  cf_NotificationServiceURL :: string
  cf_GitHubWebhookSecret :: string
  cf_WSReadBufferSize :: int
  cf_WSWriteBufferSize :: int
  cf_RateLimitRPS :: real
  cf_RateLimitBurst :: real

text \<open>The environment: a variable that is not set reads as the empty string.\<close>

definition getEnv :: "(string \<Rightarrow> string) \<Rightarrow> string \<Rightarrow> string \<Rightarrow> string" where
  "getEnv env key dflt = (if env key \<noteq> [] then env key else dflt)"

definition getEnvInt :: "(string \<Rightarrow> string) \<Rightarrow> string \<Rightarrow> int \<Rightarrow> int" where
  "getEnvInt env key dflt =
     (if env key \<noteq> [] then (case Atoi (env key) of (n, ok) \<Rightarrow> if ok then n else dflt) else dflt)"

text \<open>\<open>parseFloat\<close> is \<^verbatim>\<open>strconv.ParseFloat\<close>; \<open>None\<close> is its error.\<close>

definition getEnvFloat :: "(string \<Rightarrow> real option) \<Rightarrow> (string \<Rightarrow> string) \<Rightarrow> string \<Rightarrow> real \<Rightarrow> real" where
  "getEnvFloat parseFloat env key dflt =
     (if env key \<noteq> [] then (case parseFloat (env key) of Some f \<Rightarrow> f | None \<Rightarrow> dflt) else dflt)"

definition Load :: "(string \<Rightarrow> real option) \<Rightarrow> (string \<Rightarrow> string) \<Rightarrow> Config" where
  "Load parseFloat env =
     \<lparr> cf_ListenAddr = getEnv env ''LISTEN_ADDR'' '':8080'',
       cf_PolicyEngineURL = getEnv env ''POLICY_ENGINE_URL'' ''http://localhost:8081'',
       cf_AnalysisServiceURL = getEnv env ''ANALYSIS_SERVICE_URL'' ''http://localhost:8082'',
       cf_AuditServiceURL = getEnv env ''AUDIT_SERVICE_URL'' ''http://localhost:8083'',
       cf_NotificationServiceURL = getEnv env ''NOTIFICATION_SERVICE_URL'' ''http://localhost:8084'',
       cf_GitHubWebhookSecret = getEnv env ''GITHUB_WEBHOOK_SECRET'' [],
       cf_WSReadBufferSize = getEnvInt env ''WS_READ_BUF'' 1024,
       cf_WSWriteBufferSize = getEnvInt env ''WS_WRITE_BUF'' 1024,
       cf_RateLimitRPS = getEnvFloat parseFloat env ''RATE_LIMIT_RPS'' 50,
       cf_RateLimitBurst = getEnvFloat parseFloat env ''RATE_LIMIT_BURST'' 100 \<rparr>"

section \<open>The application behind the middleware\<close>

text \<open>The requests sent to the analysis service, the event broker, and the hub with its clients.\<close>

record app =
  ap_sent :: "HttpRequest list"
  ap_sse :: SSEBroker
  ap_hub :: Hub

record githubPREvent =
  ev_Action :: string
  ev_Number :: int
  ev_SHA :: string
  ev_Ref :: string
  ev_CloneURL :: string
  ev_FullName :: string

record submit_req =
  sq_RepoURL :: string
  sq_CommitSHA :: string
  sq_Branch :: string

text \<open>
  What a handler uses of the outside while it serves one request.  \<open>en_decode_submit\<close> is the streaming
  decoder on the body and its read error, \<open>en_decode_pr\<close> is \<^verbatim>\<open>json.Unmarshal\<close>, \<open>en_sse_in\<close> what the loop of
  a stream receives, \<open>en_order\<close> the metrics in the order of the map iterations, and \<open>en_upgrade\<close> the
  upgrade to a WebSocket by the library: an answer it has written, or a connection.
\<close>

record genv =
  en_net :: network
  en_url_error :: "string \<Rightarrow> go_error option"
  en_marshal_job :: "Job \<Rightarrow> string"
  en_encode_job :: "Job \<Rightarrow> string"
  en_encode_map :: "(string \<times> string) list \<Rightarrow> string"
  en_decode_submit :: "string \<Rightarrow> go_error option \<Rightarrow> go_error + submit_req"
  en_decode_pr :: "string \<Rightarrow> go_error + githubPREvent"
  en_random :: string
  en_now :: int
  en_marshal_event :: "JobEvent \<Rightarrow> go_error + string"
  en_grow :: "nat \<Rightarrow> nat"
  en_sse_in :: "sse_in list"
  en_runtime :: runtime_readings
  en_order :: "((string \<times> addr) list \<times> (string \<times> addr) list \<times> (string \<times> addr) list)"
  en_upgrade :: "writer \<Rightarrow> request \<Rightarrow> wcall list + nat"

definition newID :: "string \<Rightarrow> string" where
  "newID random_bytes = EncodeToString random_bytes"

section \<open>webhook.go and jobs.go\<close>

text \<open>The loop over the runes of the name: the first slash splits it.\<close>

fun split_slash :: "string \<Rightarrow> string \<Rightarrow> string \<times> string" where
  "split_slash before [] = (before, [])"
| "split_slash before (c # rest) = (if c = CHR ''/'' then (before, rest) else split_slash (before @ [c]) rest)"

definition splitOwnerRepo :: "string \<Rightarrow> string \<times> string" where
  "splitOwnerRepo full = split_slash [] full"

definition enqueueJob :: "Config \<Rightarrow> genv \<Rightarrow> Job \<Rightarrow> app \<Rightarrow> go_error option \<times> app" where
  "enqueueJob cfg env job a =
     (case NewRequest (en_url_error env) ''POST'' (cf_AnalysisServiceURL cfg @ ''/api/v1/jobs'') (en_marshal_job env job) of
        Inl err \<Rightarrow> (Some err, a)
      | Inr req \<Rightarrow>
          let req' = with_header ''Content-Type'' ''application/json'' req;
              a' = a\<lparr> ap_sent := ap_sent a @ [req'] \<rparr>
          in case en_net env req' of
               Inl err \<Rightarrow> (Some err, a')
             | Inr resp \<Rightarrow>
                 (if rp_status resp \<ge> 300
                  then (Some (ErrorString (''analysis service returned '' @ fmt_d (rp_status resp))), a')
                  else (None, a')))"

definition accepted_calls :: "string \<Rightarrow> wcall list" where
  "accepted_calls body =
     [HeaderSet ''Content-Type'' ''application/json'', CallWriteHeader StatusAccepted, CallWrite body]"

definition pr_job :: "genv \<Rightarrow> githubPREvent \<Rightarrow> Job" where
  "pr_job env ev =
     (let parts = splitOwnerRepo (ev_FullName ev)
      in \<lparr> j_ID = newID (en_random env), j_Source = JobSourceGitHub, j_RepoURL = ev_CloneURL ev,
           j_RepoOwner = fst parts, j_RepoName = snd parts, j_CommitSHA = ev_SHA ev, j_Branch = ev_Ref ev,
           j_PRNumber = ev_Number ev, j_Status = JobStatusQueued, j_CreatedAt = en_now env,
           j_StartedAt = None, j_CompletedAt = None, j_Meta = Map.empty \<rparr>)"

definition triggers :: "string \<Rightarrow> bool" where
  "triggers action \<longleftrightarrow> action \<in> {''opened'', ''synchronize'', ''reopened''}"

definition handleGitHubPR :: "Config \<Rightarrow> genv \<Rightarrow> string \<Rightarrow> app \<Rightarrow> wcall list \<times> app" where
  "handleGitHubPR cfg env body a =
     (case en_decode_pr env body of
        Inl err \<Rightarrow> (error_calls ''decode payload'' StatusBadRequest, a)
      | Inr ev \<Rightarrow>
          if \<not> triggers (ev_Action ev) then ([CallWriteHeader StatusNoContent], a)
          else
            let job = pr_job env ev
            in case enqueueJob cfg env job a of
                 (Some err, a') \<Rightarrow> (error_calls ''internal error'' StatusInternalServerError, a')
               | (None, a') \<Rightarrow> (accepted_calls (en_encode_map env [(''job_id'', j_ID job)]), a'))"

text \<open>
  \<^verbatim>\<open>io.ReadAll(io.LimitReader(r.Body, 10<<20))\<close>: a read error counts only when it comes before the limit.
\<close>

definition body_limit :: nat where "body_limit = 10485760"

definition read_limited :: "request \<Rightarrow> go_error + string" where
  "read_limited r =
     (if body_limit \<le> length (sr_body r) then Inr (take body_limit (sr_body r))
      else case sr_body_err r of None \<Rightarrow> Inr (sr_body r) | Some err \<Rightarrow> Inl err)"

definition GitHubWebhookHandler :: "Config \<Rightarrow> genv \<Rightarrow> request \<Rightarrow> app \<Rightarrow> wcall list \<times> app" where
  "GitHubWebhookHandler cfg env r a =
     (case read_limited r of
        Inl err \<Rightarrow> (error_calls ''read body'' StatusBadRequest, a)
      | Inr body \<Rightarrow>
          if cf_GitHubWebhookSecret cfg \<noteq> []
             \<and> \<not> VerifyGitHub (cf_GitHubWebhookSecret cfg) body (sr_header r ''X-Hub-Signature-256'')
          then (error_calls ''invalid signature'' StatusUnauthorized, a)
          else
            let event = sr_header r ''X-GitHub-Event''
            in if event = ''pull_request'' then handleGitHubPR cfg env body a
               else if event = ''ping'' then ([CallWriteHeader StatusOK], a)
               else ([CallWriteHeader StatusNoContent], a))"

text \<open>The body of the answer is decoded and dropped; nothing of it is written.\<close>

definition ListJobsHandler :: "Config \<Rightarrow> genv \<Rightarrow> app \<Rightarrow> wcall list \<times> app" where
  "ListJobsHandler cfg env a =
     (let req = \<lparr> rq_method = ''GET'', rq_url = cf_AnalysisServiceURL cfg @ ''/api/v1/jobs'', rq_header = [], rq_body = [] \<rparr>
      in case (case en_url_error env (rq_url req) of Some err \<Rightarrow> Inl err | None \<Rightarrow> en_net env req) of
           Inl err \<Rightarrow> (error_calls ''analysis service unavailable'' StatusBadGateway, a)
         | Inr resp \<Rightarrow>
             ([HeaderSet ''Content-Type'' ''application/json'', CallWriteHeader (rp_status resp)], a))"

definition manual_job :: "genv \<Rightarrow> submit_req \<Rightarrow> Job" where
  "manual_job env req =
     \<lparr> j_ID = newID (en_random env), j_Source = JobSourceManual, j_RepoURL = sq_RepoURL req,
       j_RepoOwner = [], j_RepoName = [], j_CommitSHA = sq_CommitSHA req, j_Branch = sq_Branch req,
       j_PRNumber = 0, j_Status = JobStatusQueued, j_CreatedAt = en_now env,
       j_StartedAt = None, j_CompletedAt = None, j_Meta = Map.empty \<rparr>"

definition SubmitJobHandler :: "Config \<Rightarrow> genv \<Rightarrow> request \<Rightarrow> app \<Rightarrow> wcall list \<times> app" where
  "SubmitJobHandler cfg env r a =
     (case en_decode_submit env (sr_body r) (sr_body_err r) of
        Inl err \<Rightarrow> (error_calls ''invalid body'' StatusBadRequest, a)
      | Inr req \<Rightarrow>
          if sq_RepoURL req = [] \<or> sq_CommitSHA req = []
          then (error_calls ''repo_url and commit_sha required'' StatusBadRequest, a)
          else
            let job = manual_job env req
            in case enqueueJob cfg env job a of
                 (Some err, a') \<Rightarrow> (error_calls ''failed to enqueue'' StatusInternalServerError, a')
               | (None, a') \<Rightarrow> (accepted_calls (en_encode_job env job), a'))"

definition HealthHandler :: "genv \<Rightarrow> wcall list" where
  "HealthHandler env =
     [HeaderSet ''Content-Type'' ''application/json'', CallWrite (en_encode_map env [(''status'', ''ok'')])]"

section \<open>server.go\<close>

text \<open>\<^verbatim>\<open>ServeWS\<close> up to the start of the pumps: the new client is registered with a channel of its own.\<close>

definition ServeWS :: "genv \<Rightarrow> writer \<Rightarrow> request \<Rightarrow> app \<Rightarrow> wcall list \<times> app" where
  "ServeWS env w r a =
     (case en_upgrade env w r of
        Inl calls \<Rightarrow> (calls, a)
      | Inr c \<Rightarrow> ([], a\<lparr> ap_hub := hub_register c ((ap_hub a)\<lparr> h_send := (h_send (ap_hub a))(c := new_channel) \<rparr>) \<rparr>))"

definition metrics_calls :: "genv \<Rightarrow> Registry \<times> metric_store \<Rightarrow> wcall list" where
  "metrics_calls env st =
     (case (en_order env, st) of ((cs, gs, hs), (r, h)) \<Rightarrow>
        let pre = r_name r @ ''_''
        in HeaderSet ''Content-Type'' ''text/plain; version=0.0.4'' #
           map CallWrite
             (process_lines pre (en_runtime env)
              @ concat (map (\<lambda>(name, a). counter_lines pre name (counter_at h a)) cs)
              @ concat (map (\<lambda>(name, a). gauge_lines pre name (gauge_at h a)) gs)
              @ concat (map (\<lambda>(name, a). histogram_lines pre name (histogram_at h a)) hs)))"

text \<open>The routes, in the order in which they are registered.\<close>

datatype endpoint =
    Healthz | MetricsPage | SubmitJob | ListJobs | Stream string | GitHubHook | WebSocket
  | NoPath | NoMethod string

definition gateway_patterns :: "endpoint pattern list" where
  "gateway_patterns =
     [(''GET'', [Lit ''healthz''], \<lambda>_. Healthz),
      (''GET'', [Lit ''metrics''], \<lambda>_. MetricsPage),
      (''POST'', [Lit ''api'', Lit ''v1'', Lit ''jobs''], \<lambda>_. SubmitJob),
      (''GET'', [Lit ''api'', Lit ''v1'', Lit ''jobs''], \<lambda>_. ListJobs),
      (''GET'', [Lit ''api'', Lit ''v1'', Lit ''jobs'', Wild, Lit ''stream''], \<lambda>vs. Stream (hd vs)),
      (''POST'', [Lit ''webhooks'', Lit ''github''], \<lambda>_. GitHubHook),
      (''GET'', [Lit ''ws''], \<lambda>_. WebSocket)]"

interpretation gateway_table: route_table gateway_patterns
  by unfold_locales (simp add: gateway_patterns_def clash_def)

definition route :: "string \<Rightarrow> string \<Rightarrow> endpoint" where
  "route verb path =
     (case mux_match gateway_patterns verb path of Routed e \<Rightarrow> e | NotFound \<Rightarrow> NoPath | NotAllowed ms \<Rightarrow> NoMethod ms)"

definition StatusMethodNotAllowed :: int where "StatusMethodNotAllowed = 405"

text \<open>A stream that is still open has not returned, so its calls so far are all there is.\<close>

definition serve :: "Config \<Rightarrow> genv \<Rightarrow> writer \<Rightarrow> request \<Rightarrow> Registry \<times> metric_store \<Rightarrow> app \<Rightarrow> wcall list \<times> app" where
  "serve cfg env w r st a =
     (case route (sr_method r) (sr_path r) of
        Healthz \<Rightarrow> (HealthHandler env, a)
      | MetricsPage \<Rightarrow> (metrics_calls env st, a)
      | SubmitJob \<Rightarrow> SubmitJobHandler cfg env r a
      | ListJobs \<Rightarrow> ListJobsHandler cfg env a
      | Stream i \<Rightarrow>
          (case ServeSSE (en_marshal_event env) (en_grow env) (en_sse_in env) w i (ap_sse a) of
             (calls, returned, b) \<Rightarrow> (calls, a\<lparr> ap_sse := b \<rparr>))
      | GitHubHook \<Rightarrow> GitHubWebhookHandler cfg env r a
      | WebSocket \<Rightarrow> ServeWS env w r a
      | NoPath \<Rightarrow> (error_calls ''404 page not found'' StatusNotFound, a)
      | NoMethod allow_list \<Rightarrow>
          (HeaderSet ''Allow'' allow_list # error_calls ''Method Not Allowed'' StatusMethodNotAllowed, a))"

definition server_mux :: "Config \<Rightarrow> genv \<Rightarrow> app gateway handler" where
  "server_mux cfg env w r s =
     (case serve cfg env w r (gw_metrics s) (gw_app s) of (calls, a) \<Rightarrow> (calls, None, s\<lparr> gw_app := a \<rparr>))"

text \<open>The readings the middleware makes while it serves a request.\<close>

record timing =
  tm_now :: real
  tm_ms :: int
  tm_elapsed :: string
  tm_stack :: "panic \<Rightarrow> string"

definition server_handler :: "instruments \<Rightarrow> timing \<Rightarrow> 'b gateway handler \<Rightarrow> 'b gateway handler" where
  "server_handler ins tm mux =
     Chain [Recovery (tm_stack tm), Logger (tm_elapsed tm), CORS [''*''], Limit (tm_now tm),
            Metrics_middleware ins (tm_ms tm)] mux"

definition server_New :: "int \<Rightarrow> metric_store \<Rightarrow> Config \<Rightarrow> instruments \<times> app gateway" where
  "server_New now h cfg =
     (case metrics_instruments (NewRegistry now ''api_gateway'', h) of
        (ins, st) \<Rightarrow>
          (ins, \<lparr> gw_log = [], gw_limiter = NewRateLimiter (cf_RateLimitRPS cfg) (cf_RateLimitBurst cfg), gw_metrics = st,
                  gw_app = \<lparr> ap_sent = [], ap_sse = NewSSEBroker, ap_hub = NewHub \<rparr> \<rparr>))"

section \<open>Names of repositories\<close>

lemma split_slash_spec:
  "split_slash b s = (b @ takeWhile (\<lambda>c. c \<noteq> CHR ''/'') s, drop 1 (dropWhile (\<lambda>c. c \<noteq> CHR ''/'') s))"
  by (induction b s rule: split_slash.induct) auto

text \<open>An owner without a slash and any repository name come back from the full name.\<close>

theorem splitOwnerRepo_roundtrip:
  "CHR ''/'' \<notin> set owner \<Longrightarrow> splitOwnerRepo (owner @ ''/'' @ repo) = (owner, repo)"
  by (simp add: splitOwnerRepo_def split_slash_spec takeWhile_append dropWhile_append)

lemma splitOwnerRepo_no_slash: "CHR ''/'' \<notin> set full \<Longrightarrow> splitOwnerRepo full = (full, [])"
proof -
  assume "CHR ''/'' \<notin> set full"
  then have "takeWhile (\<lambda>c. c \<noteq> CHR ''/'') full = full" "dropWhile (\<lambda>c. c \<noteq> CHR ''/'') full = []"
    by (auto simp: takeWhile_eq_all_conv dropWhile_eq_Nil_conv)
  then show ?thesis unfolding splitOwnerRepo_def split_slash_spec by (simp only: append_Nil drop_Nil)
qed

section \<open>Sending jobs\<close>

definition job_request :: "Config \<Rightarrow> genv \<Rightarrow> Job \<Rightarrow> HttpRequest" where
  "job_request cfg env job =
     \<lparr> rq_method = ''POST'', rq_url = cf_AnalysisServiceURL cfg @ ''/api/v1/jobs'',
       rq_header = [(''Content-Type'', ''application/json'')], rq_body = en_marshal_job env job \<rparr>"

text \<open>The analysis service takes the job: the address parses and the answer has a status below 300.\<close>

definition takes_job :: "Config \<Rightarrow> genv \<Rightarrow> Job \<Rightarrow> bool" where
  "takes_job cfg env job \<longleftrightarrow> en_url_error env (cf_AnalysisServiceURL cfg @ ''/api/v1/jobs'') = None
     \<and> (case en_net env (job_request cfg env job) of Inl err \<Rightarrow> False | Inr resp \<Rightarrow> rp_status resp < 300)"

lemma enqueueJob_spec:
  "(fst (enqueueJob cfg env job a) = None \<longleftrightarrow> takes_job cfg env job)
   \<and> snd (enqueueJob cfg env job a) =
       (if en_url_error env (cf_AnalysisServiceURL cfg @ ''/api/v1/jobs'') = None
        then a\<lparr> ap_sent := ap_sent a @ [job_request cfg env job] \<rparr> else a)"
  by (simp add: enqueueJob_def takes_job_def NewRequest_def with_header_def job_request_def Let_def
      split: option.splits sum.splits)

lemma respond_simps [simp]:
  "status_of (respond (error_calls m c)) = c"
  "status_of (respond [CallWriteHeader c]) = c"
  "status_of (respond (accepted_calls b)) = StatusAccepted"
  by (simp_all add: respond_def respond_error accepted_calls_def)

section \<open>The webhook\<close>

text \<open>A webhook that is to start an analysis: authentic, about a pull request, and of the right kind.\<close>

definition authentic :: "Config \<Rightarrow> request \<Rightarrow> string \<Rightarrow> bool" where
  "authentic cfg r body \<longleftrightarrow> cf_GitHubWebhookSecret cfg = []
     \<or> sr_header r ''X-Hub-Signature-256'' = SignGitHub (cf_GitHubWebhookSecret cfg) body"

definition wants_analysis :: "Config \<Rightarrow> genv \<Rightarrow> request \<Rightarrow> githubPREvent \<Rightarrow> bool" where
  "wants_analysis cfg env r ev \<longleftrightarrow> (\<exists>body. read_limited r = Inr body \<and> authentic cfg r body
     \<and> sr_header r ''X-GitHub-Event'' = ''pull_request'' \<and> en_decode_pr env body = Inr ev
     \<and> ev_Action ev \<in> {''opened'', ''synchronize'', ''reopened''})"

lemma VerifyGitHub_iff: "VerifyGitHub secret body header \<longleftrightarrow> header = SignGitHub secret body"
  by (auto simp: VerifyGitHub_def hmac_Equal_iff)

lemma webhook_wanted:
  assumes "wants_analysis cfg env r ev"
  shows "GitHubWebhookHandler cfg env r a =
    (case enqueueJob cfg env (pr_job env ev) a of
       (Some err, a') \<Rightarrow> (error_calls ''internal error'' StatusInternalServerError, a')
     | (None, a') \<Rightarrow> (accepted_calls (en_encode_map env [(''job_id'', j_ID (pr_job env ev))]), a'))"
  using assms
  by (auto simp: wants_analysis_def GitHubWebhookHandler_def authentic_def VerifyGitHub_iff handleGitHubPR_def triggers_def
      Let_def)

lemma webhook_unwanted:
  assumes "\<nexists>ev. wants_analysis cfg env r ev"
  shows "snd (GitHubWebhookHandler cfg env r a) = a
    \<and> status_of (respond (fst (GitHubWebhookHandler cfg env r a))) \<in> {200, 204, 400, 401}"
  using assms
  by (auto simp: wants_analysis_def GitHubWebhookHandler_def authentic_def VerifyGitHub_iff handleGitHubPR_def triggers_def
      Let_def status_codes split: sum.splits)

text \<open>
  C8: Who may start an analysis by webhook.  A request that reaches the handler sends a job exactly
  when its body can be read, carries the right signature whenever a secret is configured, is a
  pull-request event that decodes and has one of the three actions, and the address of the
  analysis service parses; it then sends exactly the job of that event, once.  It is answered 202
  exactly when the analysis service took the job.
\<close>

theorem webhook_starts_analysis:
  "(ap_sent (snd (GitHubWebhookHandler cfg env r a)) \<noteq> ap_sent a \<longleftrightarrow>
      (\<exists>ev. wants_analysis cfg env r ev) \<and> en_url_error env (cf_AnalysisServiceURL cfg @ ''/api/v1/jobs'') = None)
   \<and> (ap_sent (snd (GitHubWebhookHandler cfg env r a)) = ap_sent a
      \<or> (\<exists>ev. wants_analysis cfg env r ev
             \<and> ap_sent (snd (GitHubWebhookHandler cfg env r a)) = ap_sent a @ [job_request cfg env (pr_job env ev)]))
   \<and> (status_of (respond (fst (GitHubWebhookHandler cfg env r a))) = 202 \<longleftrightarrow>
      (\<exists>ev. wants_analysis cfg env r ev \<and> takes_job cfg env (pr_job env ev)))"
proof (cases "\<exists>ev. wants_analysis cfg env r ev")
  case True
  then obtain ev where ev: "wants_analysis cfg env r ev" by blast
  have uniq: "ev' = ev" if "wants_analysis cfg env r ev'" for ev'
    using that ev by (auto simp: wants_analysis_def)
  have iff: "(\<exists>e. wants_analysis cfg env r e \<and> P e) \<longleftrightarrow> P ev" for P using ev uniq by blast
  show ?thesis
    using enqueueJob_spec[of cfg env "pr_job env ev" a] True unfolding webhook_wanted[OF ev] iff
    by (auto simp: status_codes split: prod.splits option.splits if_splits)
next
  case False
  then show ?thesis using webhook_unwanted[of cfg env r a] by auto
qed

section \<open>The middleware around the handlers\<close>

lemma Chain_five: "Chain [f, g, h, k, l] x = f (g (h (k (l x))))"
  by (simp add: Chain_def)

text \<open>In general the first middleware is the outermost one.\<close>

lemma chain_loop_append: "n \<le> length ms \<Longrightarrow> chain_loop ms final n = foldr (\<lambda>m h. m h) (take n ms) final"
  by (induction n arbitrary: final) (auto simp: take_Suc_conv_app_nth)

theorem Chain_foldr: "Chain ms final = foldr (\<lambda>m h. m h) ms final"
  by (simp add: Chain_def chain_loop_append)

text \<open>The key of a request, and the decision of the limiter.\<close>

definition key :: "request \<Rightarrow> string" where
  "key r = clientIP (sr_header r) (sr_remoteAddr r)"

definition passes :: "timing \<Rightarrow> request \<Rightarrow> 'b gateway \<Rightarrow> bool" where
  "passes tm r s \<longleftrightarrow> sr_method r \<noteq> ''OPTIONS'' \<and> fst (allow (tm_now tm) (key r) (gw_limiter s))"

text \<open>The state in which the handler runs.\<close>

definition entered :: "instruments \<Rightarrow> timing \<Rightarrow> request \<Rightarrow> 'b gateway \<Rightarrow> 'b gateway" where
  "entered ins tm r s =
     on_store (gauge_on Gauge_Inc (i_inflight ins)) (s\<lparr> gw_limiter := snd (allow (tm_now tm) (key r) (gw_limiter s)) \<rparr>)"

lemma on_store_fields [simp]:
  "gw_app (on_store f s) = gw_app s" "gw_limiter (on_store f s) = gw_limiter s" "gw_log (on_store f s) = gw_log s"
  "snd (gw_metrics (on_store f s)) = f (snd (gw_metrics s))"
  by (simp_all add: on_store_def)

lemma log_line_fields [simp]:
  "gw_app (log_line l s) = gw_app s" "gw_limiter (log_line l s) = gw_limiter s" "gw_metrics (log_line l s) = gw_metrics s"
  "gw_log (log_line l s) = gw_log s @ [l]"
  by (simp_all add: log_line_def)

lemmas middleware_defs =
  server_handler_def Chain_five Recovery_def Logger_def CORS_def Limit_def Metrics_middleware_def

lemma respond_cors:
  "respond (cors_headers ok origin @ calls) = fold do_call calls (respond (cors_headers ok origin))"
  "rs_code (respond (cors_headers ok origin)) = None"
  by (simp_all add: respond_def cors_headers_def)

definition recovery_calls :: "panic option \<Rightarrow> wcall list" where
  "recovery_calls p = (if p = None then [] else error_calls ''internal server error'' 500)"

lemma server_handler_passes:
  assumes "passes tm r s" and "mux wrapped r (entered ins tm r s) = (c0, p0, s0)"
  shows "\<exists>s'. server_handler ins tm mux w r s =
      (cors_headers True (sr_header r ''Origin'') @ c0 @ recovery_calls p0, None, s') \<and> gw_app s' = gw_app s0"
  using assms
  by (auto simp: middleware_defs passes_def entered_def key_def Let_def recovery_calls_def status_codes
      split: prod.splits option.splits if_splits)

lemma server_handler_stops:
  assumes "\<not> passes tm r s"
  shows "\<exists>calls s'. server_handler ins tm mux w r s = (cors_headers True (sr_header r ''Origin'') @ calls, None, s')
      \<and> gw_app s' = gw_app s \<and> gw_metrics s' = gw_metrics s
      \<and> calls = (if sr_method r = ''OPTIONS'' then [CallWriteHeader 204] else error_calls ''rate limit exceeded'' 429)"
  using assms
  by (auto simp: middleware_defs passes_def key_def Let_def status_codes split: prod.splits option.splits if_splits)

text \<open>
  C20: The middleware guards the handlers.  Whatever the handler behind it does, also when it panics,
  a request to the server is answered without a panic.  The handler runs exactly for the requests
  that are no preflight requests and that the limiter lets through, with a writer that can neither
  flush nor hijack; any other request leaves the application as it is and is answered 204 or
  429.  A handler that panics before it wrote anything is answered 500.
\<close>

theorem server_guards:
  "let (calls, p, s') = server_handler ins tm mux w r s;
       (c0, p0, s0) = mux wrapped r (entered ins tm r s)
   in p = None
      \<and> gw_app s' = (if passes tm r s then gw_app s0 else gw_app s)
      \<and> status_of (respond calls) =
          (if passes tm r s
           then status_of (respond (cors_headers True (sr_header r ''Origin'') @ c0 @ recovery_calls p0))
           else if sr_method r = ''OPTIONS'' then 204 else 429)"
proof (cases "passes tm r s")
  case True
  obtain c0 p0 s0 where "mux wrapped r (entered ins tm r s) = (c0, p0, s0)" by (metis prod_cases3)
  with server_handler_passes[where mux = mux, OF True this, of w] True show ?thesis by (auto simp: Let_def)
next
  case False
  with server_handler_stops[OF False, of ins mux w] show ?thesis
    by (auto simp: Let_def respond_cors respond_error split: prod.splits)
qed

text \<open>The instruments of a new server are different ones.\<close>

lemma server_New_instruments:
  "i_requests (fst (server_New now h cfg)) = next_addr h" "i_errors (fst (server_New now h cfg)) = next_addr h + 1"
  "i_latency (fst (server_New now h cfg)) = next_addr h + 2" "i_inflight (fst (server_New now h cfg)) = next_addr h + 3"
  by (simp_all add: server_New_def metrics_instruments_def NewRegistry_def Registry_Counter_def Registry_Histogram_def
      Registry_Gauge_def Let_def)

lemma store_ops [simp]:
  "gauge_at (count_at a h) = gauge_at h" "gauge_at (observe_at a ms h) = gauge_at h"
  "counter_at (observe_at a ms h) = counter_at h" "counter_at (gauge_on f a h) = counter_at h"
  "gauge_at (gauge_on f a h) = (gauge_at h)(a := f (gauge_at h a))"
  "counter_at (count_at a h) = (counter_at h)(a := Counter_Inc (counter_at h a))"
  by (simp_all add: count_at_def observe_at_def gauge_on_def)

lemma server_mux_fields:
  "server_mux cfg env w r s = (calls, p, s') \<Longrightarrow>
   p = None \<and> gw_metrics s' = gw_metrics s \<and> gw_limiter s' = gw_limiter s \<and> gw_log s' = gw_log s"
  by (auto simp: server_mux_def split: prod.splits)

text \<open>
  What the metrics of the gateway count.  Serving a request leaves the gauge of requests in
  flight as it was, and counts one request exactly when the handler ran: preflight requests and
  requests refused by the limiter are not counted.  Errors are counted by the status the handler
  passed to the writer last.
\<close>

theorem request_metrics:
  "let ins = fst (server_New now h cfg0);
       (calls, p, s') = server_handler ins tm (server_mux cfg env) w r s;
       (c0, p0, s0) = server_mux cfg env wrapped r (entered ins tm r s);
       m = snd (gw_metrics s); m' = snd (gw_metrics s')
   in gauge_at m' (i_inflight ins) = gauge_at m (i_inflight ins)
      \<and> counter_at m' (i_requests ins) = counter_at m (i_requests ins) + (if passes tm r s then 1 else 0)
      \<and> counter_at m' (i_errors ins) =
          counter_at m (i_errors ins) + (if passes tm r s \<and> 500 \<le> rw_status (observed c0) then 1 else 0)"
  by (auto simp: middleware_defs passes_def entered_def key_def Let_def server_New_instruments Gauge_Inc_def Gauge_Dec_def
      Counter_Inc_def split: prod.splits option.splits if_splits dest!: server_mux_fields)

lemma handlers_keep_sse:
  "ap_sse (snd (enqueueJob cfg env job a)) = ap_sse a"
  "ap_sse (snd (SubmitJobHandler cfg env r a)) = ap_sse a"
  "ap_sse (snd (ListJobsHandler cfg env a)) = ap_sse a"
  "ap_sse (snd (GitHubWebhookHandler cfg env r a)) = ap_sse a"
  "ap_sse (snd (ServeWS env w r a)) = ap_sse a"
proof -
  show q: "ap_sse (snd (enqueueJob cfg env job a)) = ap_sse a" for job
    using enqueueJob_spec[of cfg env job a] by simp
  show "ap_sse (snd (SubmitJobHandler cfg env r a)) = ap_sse a"
    using q by (auto simp: SubmitJobHandler_def Let_def split: sum.splits prod.splits option.splits) (metis snd_conv)+
  show "ap_sse (snd (GitHubWebhookHandler cfg env r a)) = ap_sse a"
    using q by (auto simp: GitHubWebhookHandler_def handleGitHubPR_def Let_def split: sum.splits prod.splits option.splits)
      (metis snd_conv)+
qed (auto simp: ListJobsHandler_def ServeWS_def Let_def split: sum.splits option.splits)

lemma route_Stream: "route verb path = Stream i \<Longrightarrow> verb \<noteq> ''OPTIONS'' \<and> i \<noteq> []"
proof -
  assume "route verb path = Stream i"
  then have "mux_match gateway_patterns verb path = Routed (Stream i)" by (simp add: route_def split: routed.splits)
  then have "\<exists>p \<in> set gateway_patterns. matches verb (segments path) p = Some (Stream i)" by (simp only: gateway_table.routed_iff)
  then obtain vs where "method_ok ''GET'' verb" "i = hd vs"
      "match_segs [Lit ''api'', Lit ''v1'', Lit ''jobs'', Wild, Lit ''stream''] (segments path) = Some vs"
    by (auto simp: gateway_patterns_def matches_def split: if_splits)
  moreover from this(3) have "[] \<notin> set vs \<and> length vs = 1" using match_segs_values by fastforce
  ultimately show ?thesis by (cases vs) (auto simp: method_ok_def)
qed

lemma serve_wrapped:
  "ap_sse (snd (serve cfg env wrapped r st a)) = ap_sse a"
  "route (sr_method r) (sr_path r) = Stream i \<Longrightarrow>
     fst (serve cfg env wrapped r st a) = error_calls ''streaming unsupported'' StatusInternalServerError"
  by (auto simp: serve_def wrapped_def ServeSSE_def handlers_keep_sse dest: route_Stream split: endpoint.splits)

lemma fold_error_calls: "rs_code w = None \<Longrightarrow> status_of (fold do_call (error_calls m c) w) = c"
  by (simp add: respond_error)

text \<open>
  C37: Nobody can stream.  Because the wrapper of the logger hides the flusher of the connection,
  serving any request leaves the subscriptions of the broker as they were, and a request for a
  stream is answered 429 or 500.
\<close>

theorem streams_never_open:
  "let (calls, p, s') = server_handler ins tm (server_mux cfg env) w r s
   in ap_sse (gw_app s') = ap_sse (gw_app s)
      \<and> (case route (sr_method r) (sr_path r) of
           Stream i \<Rightarrow> status_of (respond calls) \<in> {429, 500}
         | _ \<Rightarrow> True)"
proof -
  obtain c0 a0 where sv: "serve cfg env wrapped r (gw_metrics (entered ins tm r s)) (gw_app (entered ins tm r s)) = (c0, a0)"
    by fastforce
  have sse: "ap_sse a0 = ap_sse (gw_app s)"
    and calls: "route (sr_method r) (sr_path r) = Stream i \<Longrightarrow>
        c0 = error_calls ''streaming unsupported'' StatusInternalServerError" for i
    using serve_wrapped[where cfg = cfg and env = env and r = r and st = "gw_metrics (entered ins tm r s)"
      and a = "gw_app (entered ins tm r s)", unfolded sv] by (auto simp: entered_def)
  have mux: "server_mux cfg env wrapped r (entered ins tm r s) = (c0, None, (entered ins tm r s)\<lparr> gw_app := a0 \<rparr>)"
    using sv by (simp add: server_mux_def)
  show ?thesis
  proof (cases "passes tm r s")
    case True
    with server_handler_passes[where mux = "server_mux cfg env", OF True mux, of w] sse calls show ?thesis
      by (auto simp: recovery_calls_def respond_cors fold_error_calls status_codes split: endpoint.splits)
  next
    case False
    with server_handler_stops[OF False, of ins "server_mux cfg env" w] route_Stream[of "sr_method r" "sr_path r"] show ?thesis
      by (auto simp: respond_cors fold_error_calls split: endpoint.splits)
  qed
qed

end
