(* ===== verification/Services.thy ===== *)
theory Services
  imports Gateway AuditStore PolicyEngine AnalysisService
begin

text \<open>
  How the services are put together by their \<^verbatim>\<open>main\<close> functions: what they read from the environment,
  which parts they build from it, and the health checks.  Listening for connections is left out.
\<close>

section \<open>Gateway\<close>

definition gateway_main ::
  "(string \<Rightarrow> real option) \<Rightarrow> (string \<Rightarrow> string) \<Rightarrow> int \<Rightarrow> metric_store \<Rightarrow> instruments \<times> app gateway" where
  "gateway_main parseFloat env now h = server_New now h (Load parseFloat env)"

section \<open>Audit service\<close>

record 'db Postgres =
  pg_db :: 'db
  pg_secret :: string

definition schema :: string where
  "schema =
     concat (map (\<lambda>l. newline # l)
       [''CREATE TABLE IF NOT EXISTS audit_entries ('',
        CHR 0x09 # ''id          TEXT PRIMARY KEY,'',
        CHR 0x09 # ''job_id      TEXT NOT NULL,'',
        CHR 0x09 # ''event_type  TEXT NOT NULL,'',
        CHR 0x09 # ''actor       TEXT NOT NULL,'',
        CHR 0x09 # ''payload     TEXT NOT NULL,'',
        CHR 0x09 # ''signature   TEXT NOT NULL,'',
        CHR 0x09 # ''created_at  TIMESTAMPTZ NOT NULL DEFAULT NOW()'',
        '');'',
        ''CREATE INDEX IF NOT EXISTS idx_audit_job_id     ON audit_entries(job_id);'',
        ''CREATE INDEX IF NOT EXISTS idx_audit_event_type ON audit_entries(event_type);'',
        ''CREATE INDEX IF NOT EXISTS idx_audit_created_at ON audit_entries(created_at);'', []])"

definition NewPostgres ::
  "(string \<Rightarrow> go_error + 'db) \<Rightarrow> ('db \<Rightarrow> go_error option) \<Rightarrow> (string \<Rightarrow> sql_arg list \<Rightarrow> 'db \<Rightarrow> go_error option \<times> 'db) \<Rightarrow>
   string \<Rightarrow> string \<Rightarrow> go_error + 'db Postgres" where
  "NewPostgres sql_open ping exec dsn secret_key =
     (case sql_open dsn of
        Inl err \<Rightarrow> Inl (Wrapped ''open db'' err)
      | Inr db \<Rightarrow>
          (case ping db of
             Some err \<Rightarrow> Inl (Wrapped ''ping db'' err)
           | None \<Rightarrow>
               (case exec schema [] db of
                  (Some err, db') \<Rightarrow> Inl (Wrapped ''migrate'' err)
                | (None, db') \<Rightarrow> Inr \<lparr> pg_db = db', pg_secret = secret_key \<rparr>)))"

text \<open>The store the service runs on; an error of the database ends the process.\<close>

definition audit_store_for ::
  "(string \<Rightarrow> string) \<Rightarrow> (string \<Rightarrow> string \<Rightarrow> go_error + 'db Postgres) \<Rightarrow> go_error + ('db Postgres + Memory)" where
  "audit_store_for env newPostgres =
     (let dsn = getEnv env ''DATABASE_URL'' [];
          secret_key = getEnv env ''SIGNING_SECRET'' ''changeme-32-byte-secret-key!!''
      in if dsn \<noteq> [] then (case newPostgres dsn secret_key of Inl err \<Rightarrow> Inl err | Inr pg \<Rightarrow> Inr (Inl pg))
         else Inr (Inr (NewMemory secret_key)))"

section \<open>Policy engine\<close>

definition policy_main ::
  "(string \<Rightarrow> string) \<Rightarrow> (string \<Rightarrow> go_error + regex) \<Rightarrow> (string \<Rightarrow> go_error + Rule list) \<Rightarrow> int \<Rightarrow> metric_store \<Rightarrow>
   go_error + Engine \<times> metric_store" where
  "policy_main env compile loadRules now h =
     engine_New compile loadRules now (getEnv env ''LISTEN_ADDR'' '':8081'') (getEnv env ''RULES_DIR'' ''./configs/rules'') h"

definition engine_health :: "((string \<times> string) list \<Rightarrow> string) \<Rightarrow> string \<Rightarrow> Response" where
  "engine_health encode hostname =
     write_body (encode [(''status'', ''ok''), (''host'', hostname)]) (json_type new_response)"

section \<open>Notification service\<close>

definition notification_dispatcher :: "(string \<Rightarrow> string) \<Rightarrow> Dispatcher" where
  "notification_dispatcher env =
     NewDispatcher (NewSlack (getEnv env ''SLACK_WEBHOOK_URL'' []))
       (NewEmail (getEnv env ''SMTP_HOST'' []) (getEnv env ''SMTP_PORT'' ''587'') (getEnv env ''SMTP_USER'' [])
          (getEnv env ''SMTP_PASS'' []) (getEnv env ''SMTP_FROM'' ''litd@example.com''))"

definition notification_health :: "(bool \<Rightarrow> bool \<Rightarrow> string) \<Rightarrow> Dispatcher \<Rightarrow> Response" where
  "notification_health encode d =
     write_body (encode (Slack_Enabled (dp_slack d)) (Email_Enabled (dp_email d))) new_response"

section \<open>Analysis service\<close>

definition analysis_analyzer :: "(string \<Rightarrow> string) \<Rightarrow> Analyzer" where
  "analysis_analyzer env =
     analyzer_New (env ''GITHUB_TOKEN'') (getEnv env ''POLICY_ENGINE_URL'' ''http://localhost:8081'')
       (getEnv env ''AUDIT_SERVICE_URL'' ''http://localhost:8083'')
       (getEnv env ''NOTIFICATION_SERVICE_URL'' ''http://localhost:8084'')"

definition analysis_main :: "(string \<Rightarrow> go_error option) \<Rightarrow> (string \<Rightarrow> string) \<Rightarrow> panic + service" where
  "analysis_main url_error env = start_service url_error (analysis_analyzer env) (getEnvInt env ''WORKER_COUNT'' 4)"

text \<open>
  The end of \<^verbatim>\<open>main\<close> after a signal: the context is cancelled and the pool stopped, whatever the other
  goroutines are doing.
\<close>

definition analysis_shutdown :: "service \<Rightarrow> panic + service" where
  "analysis_shutdown s =
     (case Stop (sv_pool s) of
        Inl e \<Rightarrow> Inl e
      | Inr pool \<Rightarrow> Inr (s\<lparr> sv_cancelled := True, sv_pool := pool \<rparr>))"

lemma analysis_shutdown_steps:
  assumes "reachable w s" and "\<not> sv_cancelled s" and "\<not> sv_panicked s"
  shows "\<exists>s'. analysis_shutdown s = Inr s' \<and> svc_step\<^sup>*\<^sup>* s s'"
proof -
  have run: "\<not> p_closed (sv_pool s)" "\<not> sv_panicked s" using reachable_running[OF assms(1)] assms(2,3) by (auto simp: running_def)
  let ?s = "s\<lparr> sv_cancelled := True \<rparr>"
  have "svc_step s ?s" using svc_step.cancel run(2) assms(2) by blast
  moreover have "svc_step ?s (?s\<lparr> sv_pool := (sv_pool s)\<lparr> p_closed := True \<rparr> \<rparr>)"
    using run by (intro svc_step.stop_pool) (simp_all add: Stop_def)
  ultimately have "svc_step\<^sup>*\<^sup>* s (?s\<lparr> sv_pool := (sv_pool s)\<lparr> p_closed := True \<rparr> \<rparr>)" by (meson r_into_rtranclp rtranclp_trans)
  then show ?thesis using run(1) by (simp add: analysis_shutdown_def Stop_def)
qed

definition analysis_health :: "(int \<Rightarrow> int \<Rightarrow> string) \<Rightarrow> service \<Rightarrow> Response" where
  "analysis_health encode s = write_body (encode (p_workers (sv_pool s)) (queue_Len (sv_queue s))) new_response"

section \<open>Properties\<close>

text \<open>An environment that sets nothing: memory store under the published default key, nothing enabled, four workers.\<close>

theorem default_environment:
  "audit_store_for (\<lambda>k. []) newPostgres = Inr (Inr (NewMemory ''changeme-32-byte-secret-key!!''))
   \<and> \<not> Slack_Enabled (dp_slack (notification_dispatcher (\<lambda>k. []))) \<and> \<not> Email_Enabled (dp_email (notification_dispatcher (\<lambda>k. [])))
   \<and> az_ghClient (analysis_analyzer (\<lambda>k. [])) = None
   \<and> (\<exists>s. analysis_main url_error (\<lambda>k. []) = Inr s \<and> p_idle (sv_pool s) = 4 \<and> p_cap (sv_pool s) = 16)"
  by (simp add: audit_store_for_def getEnv_def notification_dispatcher_def NewDispatcher_def NewSlack_def NewEmail_def
      Slack_Enabled_def Email_Enabled_def analysis_analyzer_def analyzer_New_def analysis_main_def getEnvInt_def
      start_service_def NewPool_def)

text \<open>A database that does not answer stops the audit service; it never falls back to memory.\<close>

theorem audit_no_fallback:
  "env ''DATABASE_URL'' \<noteq> [] \<Longrightarrow>
   audit_store_for env (NewPostgres sql_open ping exec) \<noteq> Inr (Inr m)"
  by (simp add: audit_store_for_def getEnv_def Let_def split: sum.splits)

text \<open>
  A worker count of zero starts a service that accepts jobs and never completes one; a negative one
  panics at the start.
\<close>

lemma no_workers_step:
  "svc_step s s' \<Longrightarrow> p_idle (sv_pool s) = 0 \<and> p_busy (sv_pool s) = [] \<and> sv_fin s = [] \<and> sv_done s = [] \<Longrightarrow>
   p_idle (sv_pool s') = 0 \<and> p_busy (sv_pool s') = [] \<and> sv_fin s' = [] \<and> sv_done s' = []"
  by (induction rule: svc_step.induct) (auto simp: pool_defs split: if_splits)

theorem worker_count:
  "(reachable 0 s \<longrightarrow> sv_done s = []) \<and> (w < 0 \<longrightarrow> start_service url_error a w = Inl MakeChanSize)"
proof -
  have "p_idle (sv_pool s) = 0 \<and> p_busy (sv_pool s) = [] \<and> sv_fin s = [] \<and> sv_done s = []" if "reachable 0 s"
    using that
  proof (induction rule: reachable_induct)
    case (start s0)
    then show ?case by (elim start_serviceE) simp
  qed (rule no_workers_step)
  then show ?thesis by (simp add: start_service_def NewPool_def)
qed

end
