(* ===== verification/LitdCheck.thy ===== *)
theory LitdCheck
  imports Analyzer
begin

text \<open>
  The commands \<^verbatim>\<open>litd check\<close> and \<^verbatim>\<open>litd test-rules\<close> (\<^verbatim>\<open>cmd/litd/check.go\<close>, \<^verbatim>\<open>testrules.go\<close>), from their
  parsed flags to their output and exit code.  The file system, git, the YAML decoder, the pattern
  compiler and the JSON encoder are arguments.
\<close>

section \<open>Configuration\<close>

record litdConfig =
  lc_RulesDir :: string
  lc_Format :: string
  lc_FailOn :: string
  lc_EntropyThreshold :: real
  lc_NoEntropy :: bool
  lc_NoDeps :: bool
  lc_Exclude :: "string list"

definition zero_config :: litdConfig where
  "zero_config = \<lparr> lc_RulesDir = [], lc_Format = [], lc_FailOn = [], lc_EntropyThreshold = 0, lc_NoEntropy = False,
                   lc_NoDeps = False, lc_Exclude = [] \<rparr>"

text \<open>\<open>unmarshal\<close> gives what the decoder filled in; its error is dropped.\<close>

definition loadProjectConfig :: "(string \<Rightarrow> go_error + string) \<Rightarrow> (string \<Rightarrow> litdConfig) \<Rightarrow> string \<Rightarrow> litdConfig" where
  "loadProjectConfig readFile unmarshal dir =
     (case readFile (Join [dir, ''.litd.yaml'']) of Inl err \<Rightarrow> zero_config | Inr data \<Rightarrow> unmarshal data)"

text \<open>The flags as given on the command line, and the settings they and the configuration amount to.\<close>

record flags =
  fl_rules :: string
  fl_format :: string
  fl_threshold :: real
  fl_maxFinds :: int
  fl_noEntropy :: bool
  fl_noDeps :: bool
  fl_failOn :: string
  fl_exclude :: string
  fl_changed :: bool

record settings =
  st_rulesDir :: string
  st_format :: string
  st_threshold :: real
  st_noEntropy :: bool
  st_noDeps :: bool
  st_failOn :: string
  st_exclude :: "string list"

definition merge_config :: "string \<Rightarrow> flags \<Rightarrow> litdConfig \<Rightarrow> settings" where
  "merge_config default_rules fl cfg =
     \<lparr> st_rulesDir = (if fl_rules fl = [] then if lc_RulesDir cfg \<noteq> [] then lc_RulesDir cfg else default_rules else fl_rules fl),
       st_format = (if fl_format fl = [] then if lc_Format cfg \<noteq> [] then lc_Format cfg else ''text'' else fl_format fl),
       st_threshold =
         (if fl_threshold fl = 0 then if lc_EntropyThreshold cfg \<noteq> 0 then lc_EntropyThreshold cfg else DefaultThreshold
          else fl_threshold fl),
       st_noEntropy = (if lc_NoEntropy cfg then True else fl_noEntropy fl),
       st_noDeps = (if lc_NoDeps cfg then True else fl_noDeps fl),
       st_failOn = (if fl_failOn fl = [] then if lc_FailOn cfg \<noteq> [] then lc_FailOn cfg else ''high'' else fl_failOn fl),
       st_exclude = lc_Exclude cfg @ (if fl_exclude fl \<noteq> [] then map TrimSpace (split_on (CHR '','') (fl_exclude fl)) else []) \<rparr>"

text \<open>\<open>is_dir\<close> tells whether a path exists and is a directory.\<close>

definition defaultRulesDir :: "(string \<Rightarrow> bool) \<Rightarrow> string \<Rightarrow> string" where
  "defaultRulesDir is_dir cwd =
     (case find is_dir [Join [cwd, ''configs'', ''rules''], Join [cwd, ''..'', ''configs'', ''rules''],
                        Join [cwd, ''..'', ''..'', ''configs'', ''rules'']] of
        Some candidate \<Rightarrow> candidate
      | None \<Rightarrow> ''configs/rules'')"

section \<open>Files\<close>

definition extToLang :: "(string \<times> string) list" where
  "extToLang =
    [(''.go'', ''go''), (''.ts'', ''typescript''), (''.tsx'', ''typescript''), (''.js'', ''javascript''),
     (''.jsx'', ''javascript''), (''.mjs'', ''javascript''), (''.py'', ''python''), (''.rs'', ''rust''), (''.java'', ''java''),
     (''.kt'', ''kotlin''), (''.cs'', ''csharp''), (''.cpp'', ''cpp''), (''.c'', ''c''), (''.rb'', ''ruby''), (''.php'', ''php''),
     (''.swift'', ''swift''), (''.sh'', ''bash''), (''.bash'', ''bash''), (''.yaml'', ''yaml''), (''.yml'', ''yaml''),
     (''.json'', ''json''), (''.tf'', ''terraform''), (''.hcl'', ''hcl''), (''.sql'', ''sql'')]"

definition detectLang :: "string \<Rightarrow> string" where
  "detectLang ext = (case map_of extToLang ext of Some l \<Rightarrow> l | None \<Rightarrow> ''unknown'')"

definition skipDirs :: "string list" where
  "skipDirs = [''.git'', ''node_modules'', ''vendor'', ''.cache'', ''dist'', ''bin'']"

definition max_size :: int where "max_size = 1048576"

text \<open>
  \<open>fsize\<close> is the size \<^verbatim>\<open>Lstat\<close> gives for a path: the length of a regular file, and that of the link itself
  for a symbolic link, which is then read through.
\<close>

fun walk_check :: "(string \<Rightarrow> int) \<Rightarrow> string \<Rightarrow> string \<Rightarrow> fs_node \<Rightarrow> FileContent list" where
  "walk_check fsize path rel (FFile name data) =
     (let ext = ToLower (Ext path)
      in if ext \<in> set binary_exts then []
         else if fsize path > max_size then []
         else case data of
                Inl err \<Rightarrow> []
              | Inr content \<Rightarrow> [\<lparr> fc_Path = rel, fc_Language = detectLang ext, fc_Content = content \<rparr>])"
| "walk_check fsize path rel (FDir name readable es) =
     (if name \<in> set skipDirs \<or> \<not> readable then []
      else concat (map (\<lambda>e. walk_check fsize (path @ ''/'' @ node_name e) (rel @ ''/'' @ node_name e) e) es))"

text \<open>The tree is \<open>None\<close> when the root does not exist; the walk function drops that error too.\<close>

definition walkFiles :: "(string \<Rightarrow> int) \<Rightarrow> string \<Rightarrow> fs_node option \<Rightarrow> FileContent list \<times> go_error option" where
  "walkFiles fsize rootdir tree =
     (case tree of
        None \<Rightarrow> ([], None)
      | Some (FFile name data) \<Rightarrow> (walk_check fsize rootdir ''.'' (FFile name data), None)
      | Some (FDir name readable es) \<Rightarrow>
          (if name \<in> set skipDirs \<or> \<not> readable then ([], None)
           else (concat (map (\<lambda>e. walk_check fsize (rootdir @ ''/'' @ node_name e) (node_name e) e) es), None)))"

text \<open>
  \<open>diff\<close> and \<open>staged\<close> are the outputs of the two git commands; \<open>iter\<close> is the order of the iteration
  over the set of paths.
\<close>

definition changed_paths :: "string \<Rightarrow> string \<Rightarrow> string list" where
  "changed_paths out staged =
     remdups (filter (\<lambda>l. l \<noteq> []) (map TrimSpace (split_on newline (TrimSpace out @ [newline] @ TrimSpace staged))))"

definition changedFiles ::
  "go_error + string \<Rightarrow> string \<Rightarrow> (string \<Rightarrow> go_error + string) \<Rightarrow> (string list \<Rightarrow> string list) \<Rightarrow>
   (string \<Rightarrow> int) \<Rightarrow> fs_node option \<Rightarrow> string \<Rightarrow> FileContent list \<times> go_error option" where
  "changedFiles diff staged readFile iter fsize tree rootdir =
     (case diff of
        Inl err \<Rightarrow> walkFiles fsize rootdir tree
      | Inr out \<Rightarrow>
          (List.map_filter
             (\<lambda>rel. case readFile (Join [rootdir, rel]) of
                      Inl err \<Rightarrow> None
                    | Inr data \<Rightarrow>
                        Some \<lparr> fc_Path = rel, fc_Language = detectLang (ToLower (Ext rel)), fc_Content = data \<rparr>)
             (iter (changed_paths out staged)), None))"

definition apply_exclude :: "string list \<Rightarrow> FileContent list \<Rightarrow> FileContent list" where
  "apply_exclude ps files =
     (if length ps > 0 then filter (\<lambda>f. \<not> list_ex (\<lambda>p. p \<noteq> [] \<and> HasPrefix (fc_Path f) p) ps) files else files)"

section \<open>Analysers\<close>

definition check_unpinned :: "string \<Rightarrow> Dep \<Rightarrow> Finding" where
  "check_unpinned path d =
     \<lparr> f_RuleID = ''DEP-001'', f_RuleName = ''Unpinned dependency'', f_Category = CategoryCompliance,
       f_Severity = SeverityMedium, f_File = path, f_Line = 1, f_Column = 1,
       f_Message = ''Unpinned dependency: '' @ d_Name d,
       f_Snippet = [], f_FixSuggestion = ''Pin to an exact version for reproducible builds.'' \<rparr>"

definition check_deps :: "FileContent list \<Rightarrow> Finding list" where
  "check_deps files =
     concat (map (\<lambda>f. case ScanFile (fc_Path f) (fc_Content f) of
                         Inr (Some m) \<Rightarrow> map (check_unpinned (fc_Path f)) (filter (\<lambda>d. d_Version d = []) (m_Deps m))
                       | _ \<Rightarrow> []) files)"

definition check_findings :: "settings \<Rightarrow> Evaluator \<Rightarrow> FileContent list \<Rightarrow> Finding list" where
  "check_findings st e files =
     Evaluate e files
     @ (if \<not> st_noEntropy st
        then concat (map (\<lambda>f. ToModelFindings (Scan (fc_Path f) (fc_Content f) (st_threshold st))) files) else [])
     @ (if \<not> st_noDeps st then check_deps files else [])"

definition limit_findings :: "int \<Rightarrow> Finding list \<Rightarrow> Finding list" where
  "limit_findings maxFinds findings =
     (if maxFinds > 0 \<and> int (length findings) > maxFinds then take (nat maxFinds) findings else findings)"

definition exitCode :: "Summary \<Rightarrow> string \<Rightarrow> int" where
  "exitCode s failOn =
     (let n = map_get0 (s_BySeverity s)
      in if failOn = ''never'' then 0
         else if failOn = ''critical'' then (if n ''critical'' > 0 then 1 else 0)
         else if failOn = ''high'' \<or> failOn = [] then (if n ''critical'' + n ''high'' > 0 then 1 else 0)
         else if failOn = ''medium'' then (if n ''critical'' + n ''high'' + n ''medium'' > 0 then 1 else 0)
         else if failOn = ''low'' then (if s_TotalFindings s > 0 then 1 else 0)
         else 0)"

section \<open>Output\<close>

definition gh_level :: "string \<Rightarrow> string" where
  "gh_level sev =
     (if sev = SeverityCritical \<or> sev = SeverityHigh then ''error'' else if sev = SeverityInfo then ''notice'' else ''warning'')"

definition gh_line :: "Finding \<Rightarrow> string" where
  "gh_line f =
     ''::'' @ gh_level (f_Severity f) @ '' file='' @ f_File f @ '',line='' @ fmt_d (f_Line f) @ '',col='' @ fmt_d (f_Column f)
     @ '',title=['' @ f_RuleID f @ ''] '' @ f_RuleName f @ ''::'' @ f_Message f @ nl"

definition printGHAnnotations :: "Finding list \<Rightarrow> string" where
  "printGHAnnotations findings = concat (map gh_line findings)"

record sarifResult =
  sa_RuleID :: string
  sa_Level :: string
  sa_Message :: string
  sa_URI :: string
  sa_StartLine :: int
  sa_StartColumn :: int

record sarifRule =
  su_ID :: string
  su_Name :: string
  su_ShortDescription :: string

record sarifDriver =
  sd_Name :: string
  sd_Version :: string
  sd_InformationURI :: string
  sd_Rules :: "sarifRule list"

record sarifRoot =
  so_Schema :: string
  so_Version :: string
  so_Driver :: sarifDriver
  so_Results :: "sarifResult list"

definition sarif_levels :: "(string \<times> string) list" where
  "sarif_levels = [(SeverityCritical, ''error''), (SeverityHigh, ''error''), (SeverityMedium, ''warning''),
     (SeverityLow, ''note''), (SeverityInfo, ''note'')]"

definition sarif_result :: "Finding \<Rightarrow> sarifResult" where
  "sarif_result f =
     \<lparr> sa_RuleID = f_RuleID f,
       sa_Level = (case map_of sarif_levels (f_Severity f) of Some l \<Rightarrow> l | None \<Rightarrow> ''warning''),
       sa_Message = f_Message f, sa_URI = f_File f, sa_StartLine = f_Line f, sa_StartColumn = f_Column f \<rparr>"

definition sarif_root :: "Finding list \<Rightarrow> Rule list \<Rightarrow> sarifRoot" where
  "sarif_root findings loaded =
     \<lparr> so_Schema = ''https://raw.githubusercontent.com/oasis-tcs/sarif-spec/master/Schemata/sarif-schema-2.1.0.json'',
       so_Version = ''2.1.0'',
       so_Driver =
         \<lparr> sd_Name = ''litd'', sd_Version = ''0.1.0'', sd_InformationURI = ''https://github.com/voxire/lint-in-the-dead'',
           sd_Rules = map (\<lambda>r. \<lparr> su_ID = r_ID r, su_Name = r_Name r, su_ShortDescription = r_Message r \<rparr>) loaded \<rparr>,
       so_Results = map sarif_result findings \<rparr>"

text \<open>
  \<^verbatim>\<open>%-10s\<close> pads to ten runes.  The upper case is that of the ASCII letters, as in the severities
  the program knows; letters outside keep their bytes here.
\<close>

definition pad_right :: "nat \<Rightarrow> string \<Rightarrow> string" where
  "pad_right n s = s @ replicate (n - length (runes s)) (CHR '' '')"

definition ToUpper :: "string \<Rightarrow> string" where
  "ToUpper s = map upper_char s"

definition utf_party :: string where "utf_party = [CHR 0xF0, CHR 0x9F, CHR 0x8E, CHR 0x89]"
definition utf_rule :: string where "utf_rule = [CHR 0xE2, CHR 0x94, CHR 0x80]"

definition severity_count :: "Summary \<Rightarrow> string \<Rightarrow> string" where
  "severity_count s sev =
     (let n = map_get0 (s_BySeverity s) sev
      in if n > 0 then ''  '' @ pad_right 10 (sev @ '':'') @ '' '' @ fmt_d n @ nl else [])"

definition severity_names :: "string list" where
  "severity_names = [''critical'', ''high'', ''medium'', ''low'', ''info'']"

definition text_finding :: "Finding \<Rightarrow> string" where
  "text_finding f =
     pad_right 10 (''['' @ ToUpper (f_Severity f) @ '']'') @ '' '' @ f_File f @ '':'' @ fmt_d (f_Line f) @ ''  ['' @ f_RuleID f
     @ ''] '' @ f_Message f @ nl
     @ (if f_Snippet f \<noteq> [] then ''           '' @ f_Snippet f @ nl else [])"

definition printTextReport :: "Finding list \<Rightarrow> Summary \<Rightarrow> string \<Rightarrow> string" where
  "printTextReport findings s dir =
     ''lint-in-the-dead '' @ utf_dash @ '' '' @ (if \<not> s_Passed s then utf_cross @ '' FAILED'' else utf_check @ '' PASSED'') @ nl
     @ ''Directory:  '' @ dir @ nl
     @ ''Score:      '' @ fmt_f 0 (s_Score s) @ '' / 100'' @ nl
     @ ''Findings:   '' @ fmt_d (s_TotalFindings s) @ '' total'' @ nl @ nl
     @ concat (map (severity_count s) severity_names)
     @ (if findings = [] then nl @ ''No findings. '' @ utf_party @ nl
        else nl @ ''Findings:'' @ nl @ concat (replicate 80 utf_rule) @ nl @ concat (map text_finding findings))"

section \<open>litd check\<close>

text \<open>What the command uses of the outside.\<close>

record check_env =
  ce_readFile :: "string \<Rightarrow> go_error + string"
  ce_readDir :: "string \<Rightarrow> go_error + DirEntry list"
  ce_unmarshal_config :: "string \<Rightarrow> litdConfig"
  ce_unmarshal_rules :: "string \<Rightarrow> go_error + Rule list"
  ce_compile :: "string \<Rightarrow> go_error + regex"
  ce_default_rules :: string
  ce_tree :: "string \<Rightarrow> fs_node option"
  ce_size :: "string \<Rightarrow> int"
  ce_git_diff :: "string \<Rightarrow> go_error + string"
  ce_git_staged :: "string \<Rightarrow> string"
  ce_iter :: "string list \<Rightarrow> string list"
  ce_json :: "Finding list \<Rightarrow> Summary \<Rightarrow> string"
  ce_sarif :: "sarifRoot \<Rightarrow> string"

definition check_files :: "check_env \<Rightarrow> flags \<Rightarrow> settings \<Rightarrow> string \<Rightarrow> go_error + FileContent list" where
  "check_files env fl st dir =
     (case (if fl_changed fl
            then changedFiles (ce_git_diff env dir) (ce_git_staged env dir) (ce_readFile env) (ce_iter env) (ce_size env) (ce_tree env dir) dir
            else walkFiles (ce_size env) dir (ce_tree env dir)) of
        (files, Some err) \<Rightarrow> Inl err
      | (files, None) \<Rightarrow> Inr (apply_exclude (st_exclude st) files))"

definition check_output :: "check_env \<Rightarrow> settings \<Rightarrow> string \<Rightarrow> Rule list \<Rightarrow> Finding list \<Rightarrow> Summary \<Rightarrow> string" where
  "check_output env st dir loaded findings s =
     (if st_format st = ''gh'' then printGHAnnotations findings
      else if st_format st = ''json'' then ce_json env findings s
      else if st_format st = ''sarif'' then ce_sarif env (sarif_root findings loaded)
      else printTextReport findings s dir)"

text \<open>
  Steps 0 to 4: the directory, the settings, the rules and the findings to report; \<open>None\<close> when the
  command ends with an error.  \<open>args\<close> are the arguments after the flags.
\<close>

definition check_report :: "check_env \<Rightarrow> flags \<Rightarrow> string list \<Rightarrow> (string \<times> settings \<times> Rule list \<times> Finding list) option" where
  "check_report env fl args =
     (let dir = (case args of [] \<Rightarrow> ''.'' | a # _ \<Rightarrow> a);
          st = merge_config (ce_default_rules env) fl (loadProjectConfig (ce_readFile env) (ce_unmarshal_config env) dir);
          loaded = (case LoadDir (ce_readDir env) (ce_readFile env) (ce_unmarshal_rules env) (st_rulesDir st) of
                      Inl err \<Rightarrow> [] | Inr rs \<Rightarrow> rs)
      in case NewEvaluator (ce_compile env) loaded of
           Inl err \<Rightarrow> None
         | Inr e \<Rightarrow>
             (case check_files env fl st dir of
                Inl err \<Rightarrow> None
              | Inr files \<Rightarrow> Some (dir, st, loaded, limit_findings (fl_maxFinds fl) (check_findings st e files))))"

text \<open>The output and the exit code.\<close>

definition cmdCheck :: "check_env \<Rightarrow> flags \<Rightarrow> string list \<Rightarrow> string \<times> int" where
  "cmdCheck env fl args =
     (case check_report env fl args of
        None \<Rightarrow> ([], 2)
      | Some (dir, st, loaded, findings) \<Rightarrow>
          let s = NewSummary findings
          in (check_output env st dir loaded findings s, exitCode s (st_failOn st)))"

section \<open>litd test-rules\<close>

fun primaryLang :: "string list \<Rightarrow> string" where
  "primaryLang [] = ''unknown''"
| "primaryLang (l # langs) = (if l \<noteq> ''*'' then l else primaryLang langs)"

text \<open>One fixture: the file it becomes, and whether the rule behaves on it.\<close>

definition fixture :: "Rule \<Rightarrow> string \<Rightarrow> nat \<Rightarrow> string \<Rightarrow> FileContent" where
  "fixture r kind i snippet =
     \<lparr> fc_Path = r_ID r @ ''/'' @ kind @ ''-'' @ fmt_d (int i), fc_Language = primaryLang (r_Languages r), fc_Content = snippet \<rparr>"

definition pass_ok :: "Evaluator \<Rightarrow> Rule \<Rightarrow> nat \<times> string \<Rightarrow> bool" where
  "pass_ok e r t = (case t of (i, snippet) \<Rightarrow> EvaluateOne e r (fixture r ''pass'' i snippet) = [])"

definition fail_ok :: "Evaluator \<Rightarrow> Rule \<Rightarrow> nat \<times> string \<Rightarrow> bool" where
  "fail_ok e r t = (case t of (i, snippet) \<Rightarrow> EvaluateOne e r (fixture r ''fail'' i snippet) \<noteq> [])"

text \<open>The outcomes of the fixtures of a rule, in the order in which they run.\<close>

definition rule_tests :: "Evaluator \<Rightarrow> Rule \<Rightarrow> bool list" where
  "rule_tests e r =
     (if length (t_Pass (r_Tests r)) + length (t_Fail (r_Tests r)) = 0 then []
      else map (pass_ok e r) (List.enumerate 0 (t_Pass (r_Tests r)))
           @ map (fail_ok e r) (List.enumerate 0 (t_Fail (r_Tests r))))"

record tally =
  ta_total :: int
  ta_passed :: int
  ta_failed :: int

definition tally_test :: "bool \<Rightarrow> tally \<Rightarrow> tally" where
  "tally_test ok t =
     (if ok then t\<lparr> ta_total := ta_total t + 1, ta_passed := ta_passed t + 1 \<rparr>
      else t\<lparr> ta_total := ta_total t + 1, ta_failed := ta_failed t + 1 \<rparr>)"

definition cmdTestRules ::
  "(string \<Rightarrow> go_error + DirEntry list) \<Rightarrow> (string \<Rightarrow> go_error + string) \<Rightarrow> (string \<Rightarrow> go_error + Rule list) \<Rightarrow>
   (string \<Rightarrow> go_error + regex) \<Rightarrow> string \<Rightarrow> tally \<times> int" where
  "cmdTestRules readDir readFile unmarshal compile dir =
     (let zero = \<lparr> ta_total = 0, ta_passed = 0, ta_failed = 0 \<rparr>
      in case LoadDir readDir readFile unmarshal dir of
           Inl err \<Rightarrow> (zero, 2)
         | Inr loaded \<Rightarrow>
             (case NewEvaluator compile loaded of
                Inl err \<Rightarrow> (zero, 2)
              | Inr e \<Rightarrow>
                  let t = fold (\<lambda>r t. fold tally_test (rule_tests e r) t) loaded zero
                  in if ta_total t = 0 then (t, 0) else if ta_failed t > 0 then (t, 1) else (t, 0)))"

section \<open>Exit codes\<close>

text \<open>The findings that a threshold counts.\<close>

definition counts_for :: "string \<Rightarrow> Finding \<Rightarrow> bool" where
  "counts_for failOn f \<longleftrightarrow>
     (failOn = ''critical'' \<and> f_Severity f = ''critical'')
     \<or> (failOn \<in> {''high'', []} \<and> f_Severity f \<in> {''critical'', ''high''})
     \<or> (failOn = ''medium'' \<and> f_Severity f \<in> {''critical'', ''high'', ''medium''})
     \<or> failOn = ''low''"

lemma exitCode_counts: "exitCode (NewSummary fs) failOn = (if list_ex (counts_for failOn) fs then 1 else 0)"
proof -
  have ex: "(0 < sev_count fs s) = list_ex (\<lambda>f. f_Severity f = s) fs" for s
    using sev_count_zero_iff[of fs s] by (auto simp: list_ex_iff)
  have two: "(0 < int (sev_count fs a) + int (sev_count fs b)) = (0 < sev_count fs a \<or> 0 < sev_count fs b)" for a b by auto
  have three: "(0 < int (sev_count fs a) + int (sev_count fs b) + int (sev_count fs c))
      = (0 < sev_count fs a \<or> 0 < sev_count fs b \<or> 0 < sev_count fs c)" for a b c by auto
  show ?thesis
    by (auto simp: exitCode_def counts_for_def Let_def two three ex list_ex_iff length_greater_0_conv)
qed

lemma limit_findings_prefix: "prefix (limit_findings n fs) fs"
  by (simp add: limit_findings_def take_is_prefix)

lemma exitCode_limit: "exitCode (NewSummary (limit_findings n fs)) failOn \<le> exitCode (NewSummary fs) failOn"
  using limit_findings_prefix[of n fs] by (auto simp: exitCode_counts list_ex_iff dest: set_mono_prefix)

lemma gh_level_error: "gh_level sev = ''error'' \<longleftrightarrow> sev = ''critical'' \<or> sev = ''high''"
  by (auto simp: gh_level_def severity_defs)

lemma sarif_error: "sa_Level (sarif_result f) = ''error'' \<longleftrightarrow> f_Severity f = ''critical'' \<or> f_Severity f = ''high''"
  by (auto simp: sarif_result_def sarif_levels_def severity_defs)

section \<open>Files seen by the command and by the service\<close>

definition seen :: "FileContent \<Rightarrow> string \<times> string" where
  "seen f = (fc_Path f, fc_Content f)"

lemma walk_check_subset: "seen ` set (walk_check fsize path rel node) \<subseteq> seen ` set (walk path rel node)"
proof (induction fsize path rel node rule: walk_check.induct)
  case (1 fsize path rel name data)
  show ?case by (auto simp: seen_def IsBinary_def Let_def split: sum.splits)
next
  case (2 fsize path rel name readable es)
  show ?case
  proof (cases "name \<in> set skipDirs \<or> \<not> readable")
    case False
    then have "name \<noteq> ''.git''" "readable" by (auto simp: skipDirs_def)
    moreover have "seen ` set (walk_check fsize (path @ ''/'' @ node_name e) (rel @ ''/'' @ node_name e) e)
        \<subseteq> seen ` set (walk (path @ ''/'' @ node_name e) (rel @ ''/'' @ node_name e) e)" if "e \<in> set es" for e
      using 2[OF False that] .
    ultimately show ?thesis using False by (simp add: image_UN) (rule UN_mono, simp_all)
  qed auto
qed

lemma walkFiles_subset:
  "seen ` set (fst (walkFiles fsize rootdir (Some node))) \<subseteq> seen ` set (fst (collectFiles rootdir node))
   \<and> snd (walkFiles fsize rootdir (Some node)) = None"
proof (cases node)
  case (FFile name data)
  then show ?thesis using walk_check_subset[of fsize rootdir "''.''" node] by (simp add: walkFiles_def collectFiles_def)
next
  case (FDir name readable es)
  show ?thesis
  proof (cases "name \<in> set skipDirs \<or> \<not> readable")
    case False
    then have "name \<noteq> ''.git''" "readable" by (auto simp: skipDirs_def)
    moreover have "seen f \<in> seen ` (\<Union>e \<in> set es. set (walk (rootdir @ ''/'' @ node_name e) (node_name e) e))"
      if "e \<in> set es" "f \<in> set (walk_check fsize (rootdir @ ''/'' @ node_name e) (node_name e) e)" for e f
      using that walk_check_subset[of fsize "rootdir @ ''/'' @ node_name e" "node_name e" e] by blast
    ultimately show ?thesis using FDir False by (auto simp: walkFiles_def collectFiles_def)
  qed (simp add: FDir walkFiles_def)
qed

section \<open>Properties\<close>

text \<open>
  C9: The exit code of a check.  It is 2 when the rules do not compile, 1 exactly when some reported
  finding counts for the threshold, and 0 otherwise.  For \<^verbatim>\<open>critical\<close>, \<^verbatim>\<open>high\<close> and \<^verbatim>\<open>medium\<close> a finding
  of at least that severity counts, for \<^verbatim>\<open>low\<close> any finding at all, also an informational one, for
  \<^verbatim>\<open>never\<close> and for a threshold the command does not know none.
\<close>

theorem exit_code_exact:
  "snd (cmdCheck env fl args) =
     (case check_report env fl args of
        None \<Rightarrow> 2
      | Some (dir, st, loaded, fs) \<Rightarrow> if list_ex (counts_for (st_failOn st)) fs then 1 else 0)"
  by (simp add: cmdCheck_def exitCode_counts Let_def split: option.splits prod.splits)

text \<open>
  Limiting the output can hide a failure.  With a limit on the number of findings a check never
  fails when it would pass without the limit; but the limit is applied before the verdict, so
  that a check that must fail can pass with it.
\<close>

theorem limit_hides_failures:
  "snd (cmdCheck env (fl\<lparr> fl_maxFinds := n \<rparr>) args) \<le> snd (cmdCheck env (fl\<lparr> fl_maxFinds := 0 \<rparr>) args)
   \<and> (\<exists>fs. exitCode (NewSummary fs) ''critical'' = 1 \<and> exitCode (NewSummary (limit_findings 1 fs)) ''critical'' = 0)"
proof
  have same: "merge_config d (fl\<lparr> fl_maxFinds := k \<rparr>) cfg = merge_config d fl cfg"
      "check_files env (fl\<lparr> fl_maxFinds := k \<rparr>) st dir = check_files env fl st dir" for d cfg k st dir
    by (simp_all add: merge_config_def check_files_def)
  have none: "limit_findings 0 fs = fs" for fs by (simp add: limit_findings_def)
  show "snd (cmdCheck env (fl\<lparr> fl_maxFinds := n \<rparr>) args) \<le> snd (cmdCheck env (fl\<lparr> fl_maxFinds := 0 \<rparr>) args)"
    unfolding cmdCheck_def check_report_def Let_def same by (simp add: none exitCode_limit split: sum.splits)
  have "exitCode (NewSummary [ex_finding ''info'', ex_finding ''critical'']) ''critical'' = 1
      \<and> exitCode (NewSummary (limit_findings 1 [ex_finding ''info'', ex_finding ''critical''])) ''critical'' = 0"
    by (simp add: exitCode_counts counts_for_def limit_findings_def ex_finding_def)
  then show "\<exists>fs. exitCode (NewSummary fs) ''critical'' = 1 \<and> exitCode (NewSummary (limit_findings 1 fs)) ''critical'' = 0"
    by blast
qed

text \<open>
  C23: The formats agree.  For the same findings, the summary fails, the exit code for the default
  threshold is 1, some workflow annotation is an error, and some SARIF result is an error, all
  exactly together; and every finding gives one SARIF result, in order.
\<close>

theorem formats_agree:
  "(exitCode (NewSummary fs) ''high'' = 1) = (\<not> s_Passed (NewSummary fs))
   \<and> (exitCode (NewSummary fs) ''high'' = 1) = list_ex (\<lambda>f. gh_level (f_Severity f) = ''error'') fs
   \<and> (exitCode (NewSummary fs) ''high'' = 1) = list_ex (\<lambda>r. sa_Level r = ''error'') (so_Results (sarif_root fs loaded))
   \<and> map (\<lambda>r. (sa_RuleID r, sa_URI r, sa_StartLine r)) (so_Results (sarif_root fs loaded))
       = map (\<lambda>f. (f_RuleID f, f_File f, f_Line f)) fs"
proof -
  have ex: "(exitCode (NewSummary fs) ''high'' = 1) = (\<exists>f. f \<in> set fs \<and> (f_Severity f = ''critical'' \<or> f_Severity f = ''high''))"
    by (auto simp: exitCode_counts counts_for_def list_ex_iff)
  show ?thesis
    unfolding ex by (auto simp: NewSummary_Passed_iff severity_defs gh_level_error sarif_error sarif_root_def list_ex_iff)
      (auto simp: sarif_result_def)
qed

text \<open>
  C27: What a full local check looks at, the service looks at.  For every directory tree, without the flag
  \<^verbatim>\<open>--changed\<close> and also with it when git fails, the command has files to scan without an error, and each of
  them is collected by the analysis service too, under the same path and with the same content: the
  command leaves out more (vendored directories, large files, excluded paths), never less.  With \<^verbatim>\<open>--changed\<close> and a git
  that answers this is not so, see the theorem after the witness.
\<close>

theorem check_scans_subset:
  assumes "\<not> fl_changed fl \<or> ce_git_diff env dir = Inl err" and "ce_tree env dir = Some node"
  shows "\<exists>files. check_files env fl st dir = Inr files
    \<and> seen ` set files \<subseteq> seen ` set (fst (collectFiles dir node))"
proof -
  obtain fs where fs: "walkFiles (ce_size env) dir (Some node) = (fs, None)" "seen ` set fs \<subseteq> seen ` set (fst (collectFiles dir node))"
    using walkFiles_subset[of "ce_size env" dir node] by (metis prod.collapse)
  then have "check_files env fl st dir = Inr (apply_exclude (st_exclude st) fs)"
    using assms by (auto simp: check_files_def changedFiles_def)
  moreover have "set (apply_exclude (st_exclude st) fs) \<subseteq> set fs" by (auto simp: apply_exclude_def)
  ultimately show ?thesis using fs(2) by blast
qed

definition ex_check_env :: check_env where
  "ex_check_env =
     \<lparr> ce_readFile = (\<lambda>p. if p = ''d/logo.png'' then Inr ''x'' else Inl (ErrorString ''no such file'')),
       ce_readDir = (\<lambda>p. Inl (ErrorString ''no such directory'')), ce_unmarshal_config = (\<lambda>s. zero_config),
       ce_unmarshal_rules = (\<lambda>s. Inr []), ce_compile = (\<lambda>s. Inl (ErrorString ''regexp'')), ce_default_rules = ''configs/rules'',
       ce_tree = (\<lambda>d. Some (FDir ''d'' True [FFile ''a.go'' (Inr ''package a''), FFile ''logo.png'' (Inr ''x'')])), ce_size = (\<lambda>p. 9),
       ce_git_diff = (\<lambda>d. Inr (''logo.png'' @ [newline])), ce_git_staged = (\<lambda>d. []), ce_iter = (\<lambda>xs. xs),
       ce_json = (\<lambda>fs s. []), ce_sarif = (\<lambda>r. []) \<rparr>"

definition ex_flags :: "bool \<Rightarrow> flags" where
  "ex_flags changed =
     \<lparr> fl_rules = [], fl_format = ''text'', fl_threshold = 0, fl_maxFinds = 0, fl_noEntropy = False, fl_noDeps = False,
       fl_failOn = ''high'', fl_exclude = [], fl_changed = changed \<rparr>"

definition ex_settings :: settings where
  "ex_settings =
     \<lparr> st_rulesDir = [], st_format = ''text'', st_threshold = 0, st_noEntropy = False, st_noDeps = False, st_failOn = ''high'',
       st_exclude = [] \<rparr>"

lemma ex_collected: "seen ` set (fst (collectFiles ''d'' (the (ce_tree ex_check_env ''d'')))) = {(''a.go'', ''package a'')}"
  by code_simp

theorem check_scans_subset_witness:
  "\<exists>files. check_files ex_check_env (ex_flags False) ex_settings ''d'' = Inr files \<and> seen ` set files \<subseteq> {(''a.go'', ''package a'')}"
  using check_scans_subset[of "ex_flags False" ex_check_env "''d''" undefined "the (ce_tree ex_check_env ''d'')" ex_settings]
  unfolding ex_collected by (simp add: ex_check_env_def ex_flags_def)

text \<open>A check of the changed files has none of these filters: it scans a binary file that the service does not collect.\<close>

theorem changed_scans_binary:
  "check_files ex_check_env (ex_flags True) ex_settings ''d'' =
     Inr [\<lparr> fc_Path = ''logo.png'', fc_Language = ''unknown'', fc_Content = ''x'' \<rparr>]
   \<and> (''logo.png'', ''x'') \<notin> seen ` set (fst (collectFiles ''d'' (the (ce_tree ex_check_env ''d''))))"
  unfolding ex_collected by code_simp

text \<open>A directory that does not exist has nothing to scan: the check does not fail because of it.\<close>

theorem missing_directory:
  assumes "ce_tree env dir = None" and "\<not> fl_changed fl"
  shows "snd (cmdCheck env fl [dir]) \<in> {0, 2}"
  using assms
  by (auto simp: cmdCheck_def check_report_def check_files_def walkFiles_def check_findings_def Evaluate_def check_deps_def apply_exclude_def
      limit_findings_def exitCode_counts Let_def split: sum.splits)

section \<open>Fixtures\<close>

lemma rule_tests_alt:
  "rule_tests e r = map (pass_ok e r) (List.enumerate 0 (t_Pass (r_Tests r)))
     @ map (fail_ok e r) (List.enumerate 0 (t_Fail (r_Tests r)))"
  by (simp add: rule_tests_def)

lemma tally_tests:
  "fold tally_test ts t =
     \<lparr> ta_total = ta_total t + int (length ts), ta_passed = ta_passed t + int (length (filter id ts)),
       ta_failed = ta_failed t + int (length (filter Not ts)), \<dots> = tally.more t \<rparr>"
  by (induction ts arbitrary: t) (auto simp: tally_test_def)

lemma tally_rules:
  "fold (\<lambda>r t. fold tally_test (f r) t) rs t = fold tally_test (concat (map f rs)) t"
  by (induction rs arbitrary: t) auto


end
