(* ===== verification/GoFlag.thy ===== *)
theory GoFlag
  imports GoFmt "HOL-Library.List_Lexorder" "HOL-Library.Char_ord"
begin

text \<open>
  The package \<^verbatim>\<open>flag\<close> of the standard library as \<^verbatim>\<open>litd\<close> uses it: flag sets with boolean, string, integer
  and float flags, parsing under \<^verbatim>\<open>ExitOnError\<close>, and the usage text.  \<^verbatim>\<open>strconv.ParseFloat\<close> and the
  Unicode table behind \<^verbatim>\<open>%q\<close> are arguments.
\<close>

section \<open>Integers in any base\<close>

datatype num_error = ErrSyntax | ErrRange

text \<open>The digits and letters as digits of a base up to 36.\<close>

definition digit36 :: "char \<Rightarrow> int option" where
  "digit36 c =
     (case digit_value c of
        Some d \<Rightarrow> Some d
      | None \<Rightarrow> let n = of_char (lower_char c) - 97 in if 0 \<le> n \<and> n < 26 then Some (n + 10) else None)"

fun base_digits :: "int \<Rightarrow> int \<Rightarrow> string \<Rightarrow> num_error + int" where
  "base_digits b acc [] = Inr acc"
| "base_digits b acc (c # s) =
     (if c = CHR ''_'' then base_digits b acc s
      else case digit36 c of
             None \<Rightarrow> Inl ErrSyntax
           | Some d \<Rightarrow>
               if b \<le> d then Inl ErrSyntax
               else if acc * b + d > MaxUint then Inl ErrRange
               else base_digits b (acc * b + d) s)"

definition based :: "string \<Rightarrow> int \<times> string" where
  "based s =
     (if s \<noteq> [] \<and> hd s = CHR ''0'' then
        if length s \<ge> 3 \<and> lower_char (s ! 1) = CHR ''b'' then (2, drop 2 s)
        else if length s \<ge> 3 \<and> lower_char (s ! 1) = CHR ''o'' then (8, drop 2 s)
        else if length s \<ge> 3 \<and> lower_char (s ! 1) = CHR ''x'' then (16, drop 2 s)
        else (8, drop 1 s)
      else (10, s))"

text \<open>
  Underscores may only separate digits; a base prefix counts as a digit.  \<open>saw\<close> is what came last:
  nothing, a digit, an underscore or something else.
\<close>

datatype saw = SawStart | SawDigit | SawUnderscore | SawOther

fun underscores_from :: "bool \<Rightarrow> saw \<Rightarrow> string \<Rightarrow> bool" where
  "underscores_from hex saw [] = (saw \<noteq> SawUnderscore)"
| "underscores_from hex saw (c # s) =
     (if digit_value c \<noteq> None \<or> (hex \<and> (case digit36 c of Some d \<Rightarrow> d < 16 | None \<Rightarrow> False))
      then underscores_from hex SawDigit s
      else if c = CHR ''_'' then saw = SawDigit \<and> underscores_from hex SawUnderscore s
      else saw \<noteq> SawUnderscore \<and> underscores_from hex SawOther s)"

definition underscoreOK :: "string \<Rightarrow> bool" where
  "underscoreOK s =
     (if length s \<ge> 2 \<and> hd s = CHR ''0'' \<and> lower_char (s ! 1) \<in> {CHR ''b'', CHR ''o'', CHR ''x''}
      then underscores_from (lower_char (s ! 1) = CHR ''x'') SawDigit (drop 2 s)
      else underscores_from False SawStart s)"

definition ParseUint0 :: "string \<Rightarrow> num_error + int" where
  "ParseUint0 s =
     (if s = [] then Inl ErrSyntax
      else case based s of (b, ds) \<Rightarrow>
             (case base_digits b 0 ds of
                Inl err \<Rightarrow> Inl err
              | Inr n \<Rightarrow> if CHR ''_'' \<in> set ds \<and> \<not> underscoreOK s then Inl ErrSyntax else Inr n))"

text \<open>\<^verbatim>\<open>strconv.ParseInt(s, 0, 64)\<close>\<close>

definition ParseInt0 :: "string \<Rightarrow> num_error + int" where
  "ParseInt0 s =
     (let neg = (s \<noteq> [] \<and> hd s = CHR ''-'');
          body = (if s \<noteq> [] \<and> (hd s = CHR ''-'' \<or> hd s = CHR ''+'') then tl s else s)
      in case ParseUint0 body of
           Inl err \<Rightarrow> Inl err
         | Inr un \<Rightarrow>
             if neg then (if - un < MinInt then Inl ErrRange else Inr (- un))
             else (if un > MaxInt then Inl ErrRange else Inr un))"

definition ParseBool :: "string \<Rightarrow> bool option" where
  "ParseBool s =
     (if s \<in> {''1'', ''t'', ''T'', ''true'', ''TRUE'', ''True''} then Some True
      else if s \<in> {''0'', ''f'', ''F'', ''false'', ''FALSE'', ''False''} then Some False
      else None)"

section \<open>Flags\<close>

datatype flag_value = FBool bool | FString string | FInt int | FFloat real

record Flag =
  fg_Name :: string
  fg_Usage :: string
  fg_Value :: flag_value
  fg_DefValue :: string

record FlagSet =
  fs_name :: string
  fs_formal :: "Flag list"

definition flag_Bool :: "string \<Rightarrow> bool \<Rightarrow> string \<Rightarrow> Flag" where
  "flag_Bool name v usage = \<lparr> fg_Name = name, fg_Usage = usage, fg_Value = FBool v, fg_DefValue = (if v then ''true'' else ''false'') \<rparr>"

definition flag_String :: "string \<Rightarrow> string \<Rightarrow> string \<Rightarrow> Flag" where
  "flag_String name v usage = \<lparr> fg_Name = name, fg_Usage = usage, fg_Value = FString v, fg_DefValue = v \<rparr>"

definition flag_Int :: "string \<Rightarrow> int \<Rightarrow> string \<Rightarrow> Flag" where
  "flag_Int name v usage = \<lparr> fg_Name = name, fg_Usage = usage, fg_Value = FInt v, fg_DefValue = fmt_d v \<rparr>"

text \<open>A float flag with default 0, the only default the program uses.\<close>

definition flag_Float0 :: "string \<Rightarrow> string \<Rightarrow> Flag" where
  "flag_Float0 name usage = \<lparr> fg_Name = name, fg_Usage = usage, fg_Value = FFloat 0, fg_DefValue = ''0'' \<rparr>"

section \<open>Usage text\<close>

definition backquote :: char where "backquote = CHR 0x60"

definition type_word :: "flag_value \<Rightarrow> string" where
  "type_word v = (case v of FBool b \<Rightarrow> [] | FString s \<Rightarrow> ''string'' | FInt i \<Rightarrow> ''int'' | FFloat x \<Rightarrow> ''float'')"

text \<open>The name of the value is the text between two back quotes, or its type.\<close>

definition UnquoteUsage :: "Flag \<Rightarrow> string \<times> string" where
  "UnquoteUsage f =
     (let u = fg_Usage f;
          before = takeWhile (\<lambda>c. c \<noteq> backquote) u;
          rest = drop 1 (dropWhile (\<lambda>c. c \<noteq> backquote) u)
      in if backquote \<in> set rest
         then let name = takeWhile (\<lambda>c. c \<noteq> backquote) rest
              in (name, before @ name @ drop 1 (dropWhile (\<lambda>c. c \<noteq> backquote) rest))
         else (type_word (fg_Value f), u))"

definition is_zero :: "Flag \<Rightarrow> bool" where
  "is_zero f =
     (fg_DefValue f =
        (case fg_Value f of FBool b \<Rightarrow> ''false'' | FString s \<Rightarrow> [] | FInt i \<Rightarrow> ''0'' | FFloat x \<Rightarrow> ''0''))"

definition flag_usage :: "(rune \<Rightarrow> bool) \<Rightarrow> Flag \<Rightarrow> string" where
  "flag_usage isPrint f =
     (case UnquoteUsage f of (name, usage) \<Rightarrow>
        let head = ''  -'' @ fg_Name f @ (if name \<noteq> [] then '' '' @ name else []);
            indent = [newline] @ ''    '' @ [CHR 0x09]
        in head @ (if length head \<le> 4 then [CHR 0x09] else indent)
           @ concat (map (\<lambda>c. if c = newline then indent else [c]) usage)
           @ (if is_zero f then []
              else '' (default ''
                   @ (case fg_Value f of FString s \<Rightarrow> Quote isPrint (fg_DefValue f) | _ \<Rightarrow> fg_DefValue f) @ '')'')
           @ [newline])"

text \<open>Flags are listed in the order of their names.\<close>

definition defaultUsage :: "(rune \<Rightarrow> bool) \<Rightarrow> FlagSet \<Rightarrow> string" where
  "defaultUsage isPrint fs =
     (if fs_name fs = [] then ''Usage:'' else ''Usage of '' @ fs_name fs @ '':'') @ [newline]
     @ concat (map (flag_usage isPrint) (sort_key fg_Name (fs_formal fs)))"

section \<open>Parsing\<close>

type_synonym flag_values = "string \<rightharpoonup> flag_value"

definition default_values :: "FlagSet \<Rightarrow> flag_values" where
  "default_values fs = map_of (map (\<lambda>f. (fg_Name f, fg_Value f)) (fs_formal fs))"

definition formal :: "FlagSet \<Rightarrow> string \<Rightarrow> Flag option" where
  "formal fs name = find (\<lambda>f. fg_Name f = name) (fs_formal fs)"

text \<open>The value of a flag given as text, or the message of the error.\<close>

definition Value_Set :: "(string \<Rightarrow> num_error + real) \<Rightarrow> flag_value \<Rightarrow> string \<Rightarrow> string + flag_value" where
  "Value_Set parseFloat kind s =
     (let msg = (\<lambda>e. case e of ErrSyntax \<Rightarrow> ''parse error'' | ErrRange \<Rightarrow> ''value out of range'')
      in case kind of
           FBool _ \<Rightarrow> (case ParseBool s of Some b \<Rightarrow> Inr (FBool b) | None \<Rightarrow> Inl (msg ErrSyntax))
         | FString _ \<Rightarrow> Inr (FString s)
         | FInt _ \<Rightarrow> (case ParseInt0 s of Inl e \<Rightarrow> Inl (msg e) | Inr i \<Rightarrow> Inr (FInt i))
         | FFloat _ \<Rightarrow> (case parseFloat s of Inl e \<Rightarrow> Inl (msg e) | Inr x \<Rightarrow> Inr (FFloat x)))"

text \<open>
  What one round of the parser gives: a flag was read, the flags have ended, or an error.  \<open>rt\<close>
  bundles what the parser uses of the outside.
\<close>

record flag_runtime =
  rt_parseFloat :: "string \<Rightarrow> num_error + real"
  rt_isPrint :: "rune \<Rightarrow> bool"

datatype parse_round = Seen flag_values "string list" | NoFlag "string list" | HelpFlag | BadFlag string

text \<open>The name and, when an equals sign follows it, the value; the sign cannot come first.\<close>

definition split_value :: "string \<Rightarrow> string \<times> string option" where
  "split_value name =
     (let n = hd name # takeWhile (\<lambda>c. c \<noteq> CHR ''='') (tl name);
          rest = dropWhile (\<lambda>c. c \<noteq> CHR ''='') (tl name)
      in (n, case rest of [] \<Rightarrow> None | _ # v \<Rightarrow> Some v))"

definition set_flag ::
  "flag_runtime \<Rightarrow> Flag \<Rightarrow> string \<Rightarrow> string list \<Rightarrow> flag_values \<Rightarrow> parse_round" where
  "set_flag rt f value rest vals =
     (case Value_Set (rt_parseFloat rt) (fg_Value f) value of
        Inr v \<Rightarrow> Seen (vals(fg_Name f \<mapsto> v)) rest
      | Inl e \<Rightarrow>
          BadFlag (''invalid '' @ (case fg_Value f of FBool _ \<Rightarrow> ''boolean value '' | _ \<Rightarrow> ''value '')
                   @ Quote (rt_isPrint rt) value @ (case fg_Value f of FBool _ \<Rightarrow> '' for -'' | _ \<Rightarrow> '' for flag -'')
                   @ fg_Name f @ '': '' @ e))"

text \<open>A boolean flag needs no value; any other takes the next argument when none follows its name.\<close>

definition IsBoolFlag :: "flag_value \<Rightarrow> bool" where
  "IsBoolFlag v = (case v of FBool b \<Rightarrow> True | _ \<Rightarrow> False)"

definition take_value ::
  "flag_runtime \<Rightarrow> Flag \<Rightarrow> string option \<Rightarrow> string list \<Rightarrow> flag_values \<Rightarrow> parse_round" where
  "take_value rt f value rest vals =
     (case value of
        Some v \<Rightarrow> set_flag rt f v rest vals
      | None \<Rightarrow>
          if IsBoolFlag (fg_Value f) then set_flag rt f ''true'' rest vals
          else (case rest of
                  [] \<Rightarrow> BadFlag (''flag needs an argument: -'' @ fg_Name f)
                | v # rest' \<Rightarrow> set_flag rt f v rest' vals))"

definition parseOne :: "flag_runtime \<Rightarrow> FlagSet \<Rightarrow> string list \<Rightarrow> flag_values \<Rightarrow> parse_round" where
  "parseOne rt fs args vals =
     (case args of
        [] \<Rightarrow> NoFlag []
      | s # rest \<Rightarrow>
          if length s < 2 \<or> hd s \<noteq> CHR ''-'' then NoFlag args
          else if s = ''--'' then NoFlag rest
          else
            let name = (if s ! 1 = CHR ''-'' then drop 2 s else drop 1 s)
            in if name = [] \<or> hd name = CHR ''-'' \<or> hd name = CHR ''='' then BadFlag (''bad flag syntax: '' @ s)
               else case split_value name of (n, value) \<Rightarrow>
                 (case formal fs n of
                    None \<Rightarrow>
                      if n = ''help'' \<or> n = ''h'' then HelpFlag
                      else BadFlag (''flag provided but not defined: -'' @ n)
                  | Some f \<Rightarrow> take_value rt f value rest vals))"

text \<open>The outcome of \<^verbatim>\<open>Parse\<close>: the values and the remaining arguments, or the output and exit code.\<close>

datatype parsed = Parsed flag_values "string list" | ParseExit string int

lemma set_flag_rest: "set_flag rt f v rest vals = Seen vals' args' \<Longrightarrow> args' = rest"
  by (auto simp: set_flag_def split: sum.splits)

lemma parseOne_SeenE:
  assumes "parseOne rt fs args vals = Seen vals' args'"
  obtains f v before where "formal fs (fg_Name f) = Some f" "set_flag rt f v args' vals = Seen vals' args'"
    "args = before @ args'" "before \<noteq> []"
proof -
  obtain s rest n given f where s: "args = s # rest" "formal fs n = Some f" "take_value rt f given rest vals = Seen vals' args'"
    using assms by (auto simp: parseOne_def Let_def split: list.splits if_splits prod.splits option.splits)
  obtain v before where "set_flag rt f v args' vals = Seen vals' args'" "args = before @ args'" "before \<noteq> []"
  proof (cases "given = None \<and> \<not> IsBoolFlag (fg_Value f)")
    case True
    with s(3) obtain v rest' where "rest = v # rest'" "set_flag rt f v rest' vals = Seen vals' args'"
      by (auto simp: take_value_def split: list.splits)
    with s(1) that[of v "[s, v]"] show thesis using set_flag_rest by fastforce
  next
    case False
    with s(3) obtain v where "set_flag rt f v rest vals = Seen vals' args'"
      by (auto simp: take_value_def split: option.splits)
    with s(1) that[of v "[s]"] show thesis using set_flag_rest by fastforce
  qed
  moreover have "fg_Name f = n" using s(2) by (auto simp: formal_def find_Some_iff)
  ultimately show thesis using that s(2) by blast
qed

lemma parseOne_shorter: "parseOne rt fs args vals = Seen vals' args' \<Longrightarrow> length args' < length args"
  by (elim parseOne_SeenE) simp

function Parse :: "flag_runtime \<Rightarrow> FlagSet \<Rightarrow> string list \<Rightarrow> flag_values \<Rightarrow> parsed" where
  "Parse rt fs args vals =
     (case parseOne rt fs args vals of
        Seen vals' args' \<Rightarrow> Parse rt fs args' vals'
      | NoFlag args' \<Rightarrow> Parsed vals args'
      | HelpFlag \<Rightarrow> ParseExit (defaultUsage (rt_isPrint rt) fs) 0
      | BadFlag msg \<Rightarrow> ParseExit (msg @ [newline] @ defaultUsage (rt_isPrint rt) fs) 2)"
  by pat_completeness auto
termination
  by (relation "measure (\<lambda>(rt, fs, args, vals). length args)") (auto dest: parseOne_shorter)

declare Parse.simps [simp del]

definition flag_Parse :: "flag_runtime \<Rightarrow> FlagSet \<Rightarrow> string list \<Rightarrow> parsed" where
  "flag_Parse rt fs args = Parse rt fs args (default_values fs)"

text \<open>Reading a flag after parsing; its type is that of its default.\<close>

definition get_string :: "flag_values \<Rightarrow> string \<Rightarrow> string" where
  "get_string vals name = (case vals name of Some (FString s) \<Rightarrow> s | _ \<Rightarrow> [])"

definition get_bool :: "flag_values \<Rightarrow> string \<Rightarrow> bool" where
  "get_bool vals name = (case vals name of Some (FBool b) \<Rightarrow> b | _ \<Rightarrow> False)"

definition get_int :: "flag_values \<Rightarrow> string \<Rightarrow> int" where
  "get_int vals name = (case vals name of Some (FInt i) \<Rightarrow> i | _ \<Rightarrow> 0)"

definition get_float :: "flag_values \<Rightarrow> string \<Rightarrow> real" where
  "get_float vals name = (case vals name of Some (FFloat x) \<Rightarrow> x | _ \<Rightarrow> 0)"

section \<open>Integers read back\<close>

lemma digit36_digit [simp]: "0 \<le> n \<Longrightarrow> n \<le> 9 \<Longrightarrow> digit36 (digit n) = Some n"
  by (simp add: digit36_def)

lemma base_digits_append:
  "base_digits b acc s = Inr v \<Longrightarrow> base_digits b acc (s @ t) = base_digits b v t"
  by (induction b acc s rule: base_digits.induct) (auto split: option.splits if_splits)

lemma digit_no_underscore: "0 \<le> n \<Longrightarrow> n \<le> 9 \<Longrightarrow> digit n \<noteq> CHR ''_''"
  using decimal_digits[of n] by (auto simp: decimal.simps[of n])

lemma base_digits_decimal: "0 \<le> n \<Longrightarrow> n \<le> MaxUint \<Longrightarrow> base_digits 10 0 (decimal n) = Inr n"
proof (induction n rule: decimal.induct)
  case (1 n)
  show ?case
  proof (cases "n < 10")
    case True
    with 1 show ?thesis by (simp add: decimal.simps[of n] digit_no_underscore)
  next
    case False
    have "n div 10 \<le> MaxUint" using 1(2,3) by linarith
    with 1 False have "base_digits 10 0 (decimal (n div 10)) = Inr (n div 10)" by simp
    from base_digits_append[OF this] 1(3) False digit_no_underscore[of "n mod 10"] show ?thesis
      by (simp add: decimal.simps[of n])
  qed
qed

lemma decimal_positive: "0 < n \<Longrightarrow> hd (decimal n) \<noteq> CHR ''0''"
proof (induction n rule: decimal.induct)
  case (1 n)
  show ?case
  proof (cases "n < 10")
    case True
    then have "digit_value (digit n) = Some n" using 1(2) by simp
    moreover have "digit_value (CHR ''0'') = Some 0" by (simp add: digit_value_def)
    ultimately have "digit n \<noteq> CHR ''0''" using 1(2) by auto
    with True show ?thesis by (simp add: decimal.simps[of n])
  next
    case False
    with 1 have "hd (decimal (n div 10)) \<noteq> CHR ''0''" by simp
    with False show ?thesis by (simp add: decimal.simps[of n])
  qed
qed

lemma ParseUint0_decimal:
  assumes "0 \<le> n" and "n \<le> MaxUint"
  shows "ParseUint0 (decimal n) = Inr n"
proof (cases "n = 0")
  case True
  moreover have "digit 0 = CHR ''0''" by code_simp
  ultimately show ?thesis by (simp add: ParseUint0_def based_def decimal.simps)
next
  case False
  then have "based (decimal n) = (10, decimal n)" using decimal_positive[of n] assms(1) by (simp add: based_def)
  moreover have "CHR ''_'' \<notin> set (decimal n)" using decimal_digits[OF assms(1)] by auto
  ultimately show ?thesis using base_digits_decimal[OF assms] by (simp add: ParseUint0_def)
qed

lemma ParseInt0_fmt_d:
  assumes "MinInt \<le> n" and "n \<le> MaxInt"
  shows "ParseInt0 (fmt_d n) = Inr n"
proof (cases "n < 0")
  case True
  with assms have "ParseUint0 (decimal (- n)) = Inr (- n)" by (intro ParseUint0_decimal) (auto simp: MinInt_def MaxUint_def)
  with True assms show ?thesis by (simp add: ParseInt0_def fmt_d_def)
next
  case False
  then have "hd (decimal n) \<noteq> CHR ''-''" "hd (decimal n) \<noteq> CHR ''+''" using decimal_head[of n] by auto
  moreover have "ParseUint0 (decimal n) = Inr n"
    using False assms by (intro ParseUint0_decimal) (auto simp: MaxInt_def MaxUint_def)
  ultimately show ?thesis using False assms by (simp add: ParseInt0_def fmt_d_def Let_def)
qed

section \<open>Values keep the type of their flag\<close>

fun same_kind :: "flag_value \<Rightarrow> flag_value \<Rightarrow> bool" where
  "same_kind (FBool _) (FBool _) = True"
| "same_kind (FString _) (FString _) = True"
| "same_kind (FInt _) (FInt _) = True"
| "same_kind (FFloat _) (FFloat _) = True"
| "same_kind _ _ = False"

definition well_typed :: "FlagSet \<Rightarrow> flag_values \<Rightarrow> bool" where
  "well_typed fs vals \<longleftrightarrow>
     list_all (\<lambda>f. case vals (fg_Name f) of Some v \<Rightarrow> same_kind (fg_Value f) v | None \<Rightarrow> False) (fs_formal fs)"

definition distinct_names :: "FlagSet \<Rightarrow> bool" where
  "distinct_names fs = distinct (map fg_Name (fs_formal fs))"

lemma formal_Some: "formal fs n = Some f \<Longrightarrow> f \<in> set (fs_formal fs) \<and> fg_Name f = n"
  by (auto simp: formal_def find_Some_iff)

lemma find_distinct: "distinct (map g xs) \<Longrightarrow> x \<in> set xs \<Longrightarrow> find (\<lambda>y. g y = g x) xs = Some x"
  by (induction xs) (auto simp: image_iff)

lemma formal_mem: "distinct_names fs \<Longrightarrow> f \<in> set (fs_formal fs) \<Longrightarrow> formal fs (fg_Name f) = Some f"
  by (simp add: formal_def distinct_names_def find_distinct)

lemma same_kind_refl [simp]: "same_kind v v"
  by (cases v) auto

lemma default_values_typed: "distinct_names fs \<Longrightarrow> well_typed fs (default_values fs)"
proof -
  assume d: "distinct_names fs"
  have "default_values fs (fg_Name f) = Some (fg_Value f)" if "f \<in> set (fs_formal fs)" for f
    unfolding default_values_def using d that by (intro map_of_is_SomeI) (auto simp: distinct_names_def comp_def)
  then show ?thesis by (simp add: well_typed_def list_all_iff)
qed

lemma Value_Set_kind: "Value_Set pf k s = Inr v \<Longrightarrow> same_kind k v"
  by (cases k) (auto simp: Value_Set_def Let_def split: option.splits sum.splits)

lemma set_flag_typed:
  assumes "set_flag rt f v rest vals = Seen vals' args'" and "well_typed fs vals" and "distinct_names fs"
    and "f \<in> set (fs_formal fs)"
  shows "well_typed fs vals'"
proof -
  have "fa = f" if "fa \<in> set (fs_formal fs)" "fg_Name fa = fg_Name f" for fa
    using formal_mem[OF assms(3)] that assms(4) by (metis option.inject)
  then show ?thesis
    using assms unfolding set_flag_def well_typed_def list_all_iff by (auto split: sum.splits dest!: Value_Set_kind) blast
qed

lemma parseOne_typed:
  assumes "parseOne rt fs args vals = Seen vals' args'" and "well_typed fs vals" and "distinct_names fs"
  shows "well_typed fs vals'"
proof -
  obtain f v where "set_flag rt f v args' vals = Seen vals' args'" "f \<in> set (fs_formal fs)"
    using assms(1) by (elim parseOne_SeenE) (auto dest: formal_Some)
  then show ?thesis using set_flag_typed assms(2,3) by blast
qed

text \<open>
  Parsing is total: it gives well typed values for every flag and a rest of the arguments, or it
  ends the process with code 0 (help) or 2 (an error), printing the usage.
\<close>

lemma Parse_spec:
  assumes "well_typed fs vals" and "distinct_names fs"
  shows "(\<exists>vals' rest. Parse rt fs args vals = Parsed vals' rest \<and> well_typed fs vals' \<and> suffix rest args)
    \<or> (\<exists>out code. Parse rt fs args vals = ParseExit out code \<and> code \<in> {0, 2} \<and> suffix (defaultUsage (rt_isPrint rt) fs) out)"
  using assms
proof (induction rt fs args vals rule: Parse.induct)
  case (1 rt fs args vals)
  show ?case
  proof (cases "parseOne rt fs args vals")
    case (Seen vals' args')
    have "suffix args' args" using Seen by (elim parseOne_SeenE) (simp add: suffix_def)
    with 1(1)[OF Seen parseOne_typed[OF Seen 1(2,3)] 1(3)] Seen show ?thesis
      by (fastforce simp: Parse.simps[of rt fs args vals] intro: suffix_order.trans)
  next
    case (NoFlag args')
    then have "suffix args' args"
      by (auto simp: parseOne_def Let_def take_value_def set_flag_def suffix_def
          split: list.splits if_splits prod.splits option.splits sum.splits)
    with NoFlag 1(2) show ?thesis by (simp add: Parse.simps[of rt fs args vals])
  qed (auto simp: Parse.simps[of rt fs args vals] suffix_def)
qed

section \<open>Printing and parsing settings\<close>

text \<open>
  A setting as a user writes it: \<^verbatim>\<open>--name=value\<close>, \<^verbatim>\<open>--name value\<close> or, for a switch that is on, \<^verbatim>\<open>--name\<close>.
\<close>

datatype style = Joined | Apart

definition show_value :: "(real \<Rightarrow> string) \<Rightarrow> flag_value \<Rightarrow> string" where
  "show_value showFloat v =
     (case v of FBool b \<Rightarrow> if b then ''true'' else ''false'' | FString s \<Rightarrow> s | FInt i \<Rightarrow> fmt_d i | FFloat x \<Rightarrow> showFloat x)"

definition write_setting :: "(real \<Rightarrow> string) \<Rightarrow> style \<times> string \<times> flag_value \<Rightarrow> string list" where
  "write_setting showFloat x =
     (case x of (st, name, v) \<Rightarrow>
        (case (st, v) of
           (Apart, FBool True) \<Rightarrow> [''--'' @ name]
         | (Apart, FString _) \<Rightarrow> [''--'' @ name, show_value showFloat v]
         | (Apart, FInt _) \<Rightarrow> [''--'' @ name, show_value showFloat v]
         | (Apart, FFloat _) \<Rightarrow> [''--'' @ name, show_value showFloat v]
         | _ \<Rightarrow> [''--'' @ name @ ''='' @ show_value showFloat v]))"

definition flag_word :: "string \<Rightarrow> bool" where
  "flag_word name \<longleftrightarrow> name \<noteq> [] \<and> hd name \<noteq> CHR ''-'' \<and> CHR ''='' \<notin> set name"

text \<open>The setting names a flag of its type and its value can be written.\<close>

definition writable :: "(string \<Rightarrow> num_error + real) \<Rightarrow> (real \<Rightarrow> string) \<Rightarrow> FlagSet \<Rightarrow> style \<times> string \<times> flag_value \<Rightarrow> bool" where
  "writable parseFloat showFloat fs x =
     (case x of (st, name, v) \<Rightarrow>
        flag_word name
        \<and> (case formal fs name of Some f \<Rightarrow> same_kind (fg_Value f) v | None \<Rightarrow> False)
        \<and> (case v of FInt i \<Rightarrow> MinInt \<le> i \<and> i \<le> MaxInt | FFloat r \<Rightarrow> parseFloat (showFloat r) = Inr r | _ \<Rightarrow> True))"

text \<open>An argument that is not taken for a flag.\<close>

definition plain_arg :: "string \<Rightarrow> bool" where
  "plain_arg s \<longleftrightarrow> length s < 2 \<or> hd s \<noteq> CHR ''-''"

lemma before_equals:
  "CHR ''='' \<notin> set s \<Longrightarrow> takeWhile (\<lambda>c. c \<noteq> CHR ''='') s = s" "CHR ''='' \<notin> set s \<Longrightarrow> dropWhile (\<lambda>c. c \<noteq> CHR ''='') s = []"
  by (auto simp: takeWhile_eq_all_conv dropWhile_eq_Nil_conv)

lemma split_value_joined: "flag_word name \<Longrightarrow> split_value (name @ ''='' @ v) = (name, Some v)"
  by (cases name) (auto simp: flag_word_def split_value_def takeWhile_append dropWhile_append before_equals Let_def)

lemma split_value_alone: "flag_word name \<Longrightarrow> split_value name = (name, None)"
  by (cases name) (auto simp: flag_word_def split_value_def before_equals Let_def)

lemma Value_Set_show:
  assumes "writable pf showFloat fs (st, name, v)" and "formal fs name = Some f"
  shows "Value_Set pf (fg_Value f) (show_value showFloat v) = Inr v"
  using assms
  by (cases v; cases "fg_Value f")
     (auto simp: writable_def Value_Set_def show_value_def ParseBool_def ParseInt0_fmt_d Let_def)

lemma parseOne_setting:
  assumes "writable (rt_parseFloat rt) showFloat fs (st, name, v)"
  shows "parseOne rt fs (write_setting showFloat (st, name, v) @ rest) vals = Seen (vals(name \<mapsto> v)) rest"
proof -
  obtain f where f: "formal fs name = Some f" and w: "flag_word name" and k: "same_kind (fg_Value f) v"
    using assms by (auto simp: writable_def split: option.splits)
  have "fg_Name f = name" using formal_Some[OF f] by simp
  then have set: "set_flag rt f (show_value showFloat v) r vals = Seen (vals(name \<mapsto> v)) r" for r
    by (simp add: set_flag_def Value_Set_show[OF assms f])
  have hd: "hd (name @ s) = hd name" "hd name \<noteq> CHR ''-''" "hd name \<noteq> CHR ''=''" "name \<noteq> []" for s
    using w by (auto simp: flag_word_def dest: hd_in_set)
  have joined: "parseOne rt fs ((''--'' @ name @ ''='' @ show_value showFloat v) # r) vals = Seen (vals(name \<mapsto> v)) r" for r
    using f hd set[of r] split_value_joined[OF w, of "show_value showFloat v"]
    by (auto simp: parseOne_def take_value_def Let_def)
  have apart: "parseOne rt fs ((''--'' @ name) # show_value showFloat v # r) vals = Seen (vals(name \<mapsto> v)) r"
    if "\<not> IsBoolFlag v" for r
    using that k f hd set[of r] split_value_alone[OF w]
    by (cases v; cases "fg_Value f") (auto simp: parseOne_def take_value_def IsBoolFlag_def Let_def)
  have switch: "parseOne rt fs ((''--'' @ name) # r) vals = Seen (vals(name \<mapsto> v)) r" if "v = FBool True" for r
    using that k f hd set[of r] split_value_alone[OF w]
    by (cases "fg_Value f") (auto simp: parseOne_def take_value_def IsBoolFlag_def Let_def show_value_def)
  consider "st = Joined \<or> v = FBool False" | "st = Apart" "v = FBool True" | "st = Apart" "\<not> IsBoolFlag v"
    by (cases st; cases v) (auto simp: IsBoolFlag_def)
  then show ?thesis
  proof cases
    case 1
    then show ?thesis using joined[of rest] by (cases v) (auto simp: write_setting_def split: bool.splits style.splits)
  next
    case 2
    then show ?thesis using switch[of rest] by (simp add: write_setting_def)
  next
    case 3
    then show ?thesis using apart[of rest] by (cases v) (auto simp: write_setting_def IsBoolFlag_def)
  qed
qed

definition write_settings :: "(real \<Rightarrow> string) \<Rightarrow> (style \<times> string \<times> flag_value) list \<Rightarrow> string list" where
  "write_settings showFloat xs = concat (map (write_setting showFloat) xs)"

lemma Parse_settings:
  assumes "list_all (writable (rt_parseFloat rt) showFloat fs) xs"
  shows "Parse rt fs (write_settings showFloat xs @ rest) vals = Parse rt fs rest (vals ++ map_of (rev (map snd xs)))"
  using assms
proof (induction xs arbitrary: vals)
  case (Cons x xs)
  obtain st name v where x: "x = (st, name, v)" by (metis prod_cases3)
  have "Parse rt fs (write_settings showFloat (x # xs) @ rest) vals = Parse rt fs (write_settings showFloat xs @ rest) (vals(name \<mapsto> v))"
    using Cons.prems parseOne_setting[of rt showFloat fs st name v "write_settings showFloat xs @ rest" vals]
    by (subst Parse.simps) (simp add: x write_settings_def)
  also have "\<dots> = Parse rt fs rest (vals(name \<mapsto> v) ++ map_of (rev (map snd xs)))"
    using Cons by simp
  finally show ?case by (simp add: x map_add_upd_left map_add_assoc)
qed (simp add: write_settings_def)

text \<open>
  Settings written on the command line are read back.  Any list of settings of a flag set, each
  written as \<^verbatim>\<open>--name=value\<close>, \<^verbatim>\<open>--name value\<close> or \<^verbatim>\<open>--name\<close>, is parsed to exactly the written values over
  the defaults, a later setting of a flag replacing an earlier one, and the arguments from the
  first one that is no flag on, or after \<^verbatim>\<open>--\<close>, come back unchanged, also when they look like flags.
\<close>

theorem flags_roundtrip:
  assumes "list_all (writable (rt_parseFloat rt) showFloat fs) xs"
  shows "flag_Parse rt fs (write_settings showFloat xs) = Parsed (default_values fs ++ map_of (rev (map snd xs))) []
    \<and> flag_Parse rt fs (write_settings showFloat xs @ ''--'' # args) =
        Parsed (default_values fs ++ map_of (rev (map snd xs))) args
    \<and> (plain_arg a \<longrightarrow> flag_Parse rt fs (write_settings showFloat xs @ a # args) =
        Parsed (default_values fs ++ map_of (rev (map snd xs))) (a # args))"
proof (intro conjI impI)
  note P = Parse_settings[OF assms]
  show "flag_Parse rt fs (write_settings showFloat xs) = Parsed (default_values fs ++ map_of (rev (map snd xs))) []"
    using P[of "[]"] by (simp add: flag_Parse_def Parse.simps[of rt fs "[]"] parseOne_def)
  show "flag_Parse rt fs (write_settings showFloat xs @ ''--'' # args) =
      Parsed (default_values fs ++ map_of (rev (map snd xs))) args"
    unfolding flag_Parse_def P by (simp add: Parse.simps[of rt fs "_ # _"] parseOne_def)
  show "flag_Parse rt fs (write_settings showFloat xs @ a # args) =
      Parsed (default_values fs ++ map_of (rev (map snd xs))) (a # args)" if "plain_arg a"
    unfolding flag_Parse_def P using that by (auto simp: Parse.simps[of rt fs "_ # _"] parseOne_def plain_arg_def)
qed

end
