(* ===== verification/LitdCli.thy ===== *)
theory LitdCli
  imports LitdCheck AuditStore GoFlag
begin

text \<open>
  The client commands of \<^verbatim>\<open>litd\<close> (\<^verbatim>\<open>cmd/litd/main.go\<close>): submitting a scan and waiting for its result,
  showing results, the audit log, the rules and the health of the services.  A command takes its
  arguments and gives what it prints and its exit code.  The environment variables, the network
  and the JSON codec are arguments.
\<close>

section \<open>Helpers\<close>

record cli_env =
  ci_getenv :: "string \<Rightarrow> string"
  ci_post :: "string \<Rightarrow> string \<Rightarrow> go_error + HttpReply"
  ci_get :: "string \<Rightarrow> go_error + HttpReply"
  ci_poll :: "nat \<Rightarrow> string \<Rightarrow> go_error + HttpReply"
  ci_marshal :: "(string \<times> string) list \<Rightarrow> string"
  ci_decode_job :: "string \<Rightarrow> go_error + Job"
  ci_decode_result :: "string \<Rightarrow> go_error + AnalysisResult"
  ci_decode_results :: "string \<Rightarrow> go_error + AnalysisResult list"
  ci_decode_entries :: "string \<Rightarrow> go_error + AuditEntry list"
  ci_decode_rules :: "string \<Rightarrow> go_error + (string \<Rightarrow> string) list"
  ci_show :: "go_error \<Rightarrow> string"

definition envOr :: "cli_env \<Rightarrow> string \<Rightarrow> string \<Rightarrow> string" where
  "envOr env key dflt = (if ci_getenv env key \<noteq> [] then ci_getenv env key else dflt)"

definition truncate_str :: "string \<Rightarrow> int \<Rightarrow> panic + string" where
  "truncate_str s n =
     (if int (length s) \<le> n then Inr s
      else case str_slice s 0 (n - 1) of Inl p \<Rightarrow> Inl p | Inr t \<Rightarrow> Inr (t @ utf_dots))"

text \<open>\<^verbatim>\<open>must\<close>: an error ends the command with code 1.\<close>

definition must :: "cli_env \<Rightarrow> string \<Rightarrow> string \<Rightarrow> go_error + 'a \<Rightarrow> ('a \<Rightarrow> string \<times> int) \<Rightarrow> string \<times> int" where
  "must env printed context x k =
     (case x of
        Inl err \<Rightarrow> (printed @ ''error '' @ context @ '': '' @ ci_show env err @ nl, 1)
      | Inr v \<Rightarrow> (case k v of (out, code) \<Rightarrow> (printed @ out, code)))"

definition result_findings :: "Finding list \<Rightarrow> string" where
  "result_findings fs =
     (if length fs > 0 then
        nl @ ''Top findings:'' @ nl
        @ concat (map (\<lambda>f. ''  ['' @ f_RuleID f @ ''] '' @ f_File f @ '':'' @ fmt_d (f_Line f) @ ''  '' @ f_Message f @ nl)
                   (take (if length fs < 15 then length fs else 15) fs))
        @ (if length fs > 15 then ''  '' @ utf_dots @ '' and '' @ fmt_d (int (length fs) - 15) @ '' more'' @ nl else [])
      else [])"

definition printResult :: "AnalysisResult \<Rightarrow> string" where
  "printResult r =
     (let s = ar_Summary r
      in ''Job:      '' @ ar_JobID r @ nl
         @ ''Repo:     '' @ ar_RepoOwner r @ ''/'' @ ar_RepoName r @ '' @ '' @ ar_CommitSHA r @ nl
         @ ''Status:   '' @ (if \<not> s_Passed s then ''FAILED '' @ utf_cross else ''PASSED '' @ utf_check) @ nl
         @ ''Score:    '' @ fmt_f 0 (s_Score s) @ '' / 100'' @ nl
         @ ''Findings: '' @ fmt_d (s_TotalFindings s) @ '' total'' @ nl
         @ concat (map (severity_count s) severity_names)
         @ ''Duration: '' @ fmt_d (ar_DurationMS r) @ ''ms'' @ nl
         @ result_findings (ar_Findings r))"

definition analysisURL :: "cli_env \<Rightarrow> string" where
  "analysisURL env = envOr env ''LITD_ANALYSIS_URL'' ''http://localhost:8082''"

section \<open>scan\<close>

record scan_flags =
  sf_repo :: string
  sf_sha :: string
  sf_branch :: string
  sf_wait :: bool

text \<open>
  One poll: the result, when the answer is one.  A failed call and an answer 404 are tried again, and
  so is an answer that does not decode to a result with an identifier.
\<close>

definition poll_answer :: "cli_env \<Rightarrow> go_error + HttpReply \<Rightarrow> AnalysisResult option" where
  "poll_answer env reply =
     (case reply of
        Inl err \<Rightarrow> None
      | Inr r \<Rightarrow>
          if rp_status r = StatusNotFound then None
          else (case ci_decode_result env (rp_body r) of
                  Inl err \<Rightarrow> None
                | Inr result \<Rightarrow> if ar_JobID result \<noteq> [] then Some result else None))"

text \<open>The loop, with \<open>k\<close> rounds left of \<open>n\<close>: the dots printed and the result.\<close>

fun poll_loop :: "cli_env \<Rightarrow> string \<Rightarrow> nat \<Rightarrow> nat \<Rightarrow> string \<times> AnalysisResult option" where
  "poll_loop env url i 0 = ([], None)"
| "poll_loop env url i (Suc k) =
     (case poll_answer env (ci_poll env i url) of
        Some result \<Rightarrow> (''.'', Some result)
      | None \<Rightarrow> (case poll_loop env url (i + 1) k of (dots, r) \<Rightarrow> (CHR ''.'' # dots, r)))"

definition poll_rounds :: nat where "poll_rounds = 60"

definition wait_result :: "cli_env \<Rightarrow> string \<Rightarrow> string \<times> int" where
  "wait_result env jobID =
     (case poll_loop env (analysisURL env @ ''/api/v1/jobs/'' @ jobID) 0 poll_rounds of
        (dots, Some result) \<Rightarrow> (''waiting'' @ dots @ nl @ printResult result, 0)
      | (dots, None) \<Rightarrow> (''waiting'' @ dots @ nl @ ''timed out waiting for result'' @ nl, 1))"

definition scan_flagset :: FlagSet where
  "scan_flagset =
     \<lparr> fs_name = ''scan'',
       fs_formal = [flag_String ''repo'' [] ''Git repository URL to scan (required)'',
                    flag_String ''sha'' [] ''Commit SHA (required)'',
                    flag_String ''branch'' ''main'' ''Branch name'',
                    flag_Bool ''wait'' False ''Poll until job completes and print result''] \<rparr>"

definition scan_flags_of :: "flag_values \<Rightarrow> scan_flags" where
  "scan_flags_of vals =
     \<lparr> sf_repo = get_string vals ''repo'', sf_sha = get_string vals ''sha'', sf_branch = get_string vals ''branch'',
       sf_wait = get_bool vals ''wait'' \<rparr>"

text \<open>The command once its flags are parsed.\<close>

definition scan_body :: "cli_env \<Rightarrow> scan_flags \<Rightarrow> string" where
  "scan_body env fl =
     ci_marshal env [(''repo_url'', sf_repo fl), (''commit_sha'', sf_sha fl), (''branch'', sf_branch fl)]"

definition run_scan :: "cli_env \<Rightarrow> flag_runtime \<Rightarrow> string \<Rightarrow> scan_flags \<Rightarrow> string \<times> int" where
  "run_scan env rt gateway fl =
     (if sf_repo fl = [] \<or> sf_sha fl = []
      then (''scan: --repo and --sha are required'' @ nl @ defaultUsage (rt_isPrint rt) scan_flagset, 1)
      else
        must env [] ''submit job'' (ci_post env (gateway @ ''/api/v1/jobs'') (scan_body env fl))
          (\<lambda>resp. must env [] ''decode response'' (ci_decode_job env (rp_body resp))
            (\<lambda>job. case (if \<not> sf_wait fl then ([], 0) else wait_result env (j_ID job)) of
                      (out, code) \<Rightarrow> (''job submitted: '' @ j_ID job @ nl @ out, code))))"

definition cmdScan :: "cli_env \<Rightarrow> flag_runtime \<Rightarrow> string \<Rightarrow> string list \<Rightarrow> string \<times> int" where
  "cmdScan env rt gateway args =
     (case flag_Parse rt scan_flagset args of
        ParseExit out code \<Rightarrow> (out, code)
      | Parsed vals rest \<Rightarrow> run_scan env rt gateway (scan_flags_of vals))"

section \<open>jobs, job, audit, rules, health\<close>

definition pad_front :: "nat \<Rightarrow> string \<Rightarrow> string" where
  "pad_front n s = replicate (n - length (runes s)) (CHR '' '') @ s"

definition job_row :: "AnalysisResult \<Rightarrow> string" where
  "job_row r =
     pad_right 36 (ar_JobID r) @ ''  '' @ pad_right 20 (ar_RepoOwner r @ ''/'' @ ar_RepoName r) @ ''  ''
     @ pad_front 6 (fmt_f 0 (s_Score (ar_Summary r))) @ ''  '' @ (if \<not> s_Passed (ar_Summary r) then utf_cross else utf_check) @ nl"

definition cmdJobs :: "cli_env \<Rightarrow> string \<times> int" where
  "cmdJobs env =
     must env [] ''list jobs'' (ci_get env (analysisURL env @ ''/api/v1/jobs''))
       (\<lambda>resp. must env [] ''decode'' (ci_decode_results env (rp_body resp))
         (\<lambda>rs. if rs = [] then (''no jobs found'' @ nl, 0)
               else (pad_right 36 ''JOB ID'' @ ''  '' @ pad_right 20 ''REPO'' @ ''  '' @ pad_front 6 ''SCORE'' @ ''  PASSED'' @ nl
                     @ replicate 80 (CHR ''-'') @ nl @ concat (map job_row rs), 0)))"

definition cmdJob :: "cli_env \<Rightarrow> string list \<Rightarrow> string \<times> int" where
  "cmdJob env args =
     (case args of
        [] \<Rightarrow> (''job: requires a job ID'' @ nl, 1)
      | i # _ \<Rightarrow>
          must env [] ''get job'' (ci_get env (analysisURL env @ ''/api/v1/jobs/'' @ i))
            (\<lambda>resp. if rp_status resp = StatusNotFound then (''job '' @ i @ '' not found'' @ nl, 1)
                    else must env [] ''decode'' (ci_decode_result env (rp_body resp)) (\<lambda>r. (printResult r, 0))))"

definition audit_url :: "cli_env \<Rightarrow> string \<Rightarrow> int \<Rightarrow> string" where
  "audit_url env jobID limit =
     envOr env ''LITD_AUDIT_URL'' ''http://localhost:8083'' @ ''/api/v1/entries?limit='' @ fmt_d limit
     @ (if jobID \<noteq> [] then ''&job_id='' @ jobID else [])"

text \<open>The widths are constants, so the cut never panics.\<close>

definition cut :: "string \<Rightarrow> int \<Rightarrow> string" where
  "cut s n = (case truncate_str s n of Inl p \<Rightarrow> [] | Inr t \<Rightarrow> t)"

definition audit_row :: "AuditEntry \<Rightarrow> string" where
  "audit_row e =
     pad_right 32 (cut (ae_ID e) 32) @ ''  '' @ pad_right 24 (cut (ae_JobID e) 24) @ ''  '' @ pad_right 20 (ae_EventType e)
     @ ''  '' @ ae_Actor e @ nl"

definition audit_flagset :: FlagSet where
  "audit_flagset =
     \<lparr> fs_name = ''audit'',
       fs_formal = [flag_String ''job'' [] ''Filter by job ID'', flag_Int ''limit'' 20 ''Max entries''] \<rparr>"

definition run_audit :: "cli_env \<Rightarrow> string \<Rightarrow> int \<Rightarrow> string \<times> int" where
  "run_audit env jobID limit =
     must env [] ''query audit log'' (ci_get env (audit_url env jobID limit))
       (\<lambda>resp. must env [] ''decode'' (ci_decode_entries env (rp_body resp))
         (\<lambda>es. if es = [] then (''no audit entries found'' @ nl, 0)
               else (pad_right 32 ''ID'' @ ''  '' @ pad_right 24 ''JOB ID'' @ ''  '' @ pad_right 20 ''EVENT'' @ ''  ACTOR'' @ nl
                     @ replicate 90 (CHR ''-'') @ nl @ concat (map audit_row es), 0)))"

definition cmdAudit :: "cli_env \<Rightarrow> flag_runtime \<Rightarrow> string list \<Rightarrow> string \<times> int" where
  "cmdAudit env rt args =
     (case flag_Parse rt audit_flagset args of
        ParseExit out code \<Rightarrow> (out, code)
      | Parsed vals rest \<Rightarrow> run_audit env (get_string vals ''job'') (get_int vals ''limit''))"

text \<open>A decoded rule gives the printed form of each of its fields.\<close>

definition cmdRules :: "cli_env \<Rightarrow> string \<times> int" where
  "cmdRules env =
     must env [] ''list rules'' (ci_get env (envOr env ''LITD_POLICY_URL'' ''http://localhost:8081'' @ ''/api/v1/rules''))
       (\<lambda>resp. must env [] ''decode'' (ci_decode_rules env (rp_body resp))
         (\<lambda>rs. (pad_right 12 ''ID'' @ ''  '' @ pad_right 10 ''SEVERITY'' @ ''  '' @ pad_right 8 ''CATEGORY'' @ ''  NAME'' @ nl
                @ replicate 70 (CHR ''-'') @ nl
                @ concat (map (\<lambda>r. pad_right 12 (r ''id'') @ ''  '' @ pad_right 10 (r ''severity'') @ ''  ''
                                   @ pad_right 8 (r ''category'') @ ''  '' @ r ''name'' @ nl) rs), 0)))"

definition health_services :: "cli_env \<Rightarrow> string \<Rightarrow> (string \<times> string) list" where
  "health_services env gateway =
     [(''api-gateway'', gateway @ ''/healthz''),
      (''policy-engine'', envOr env ''LITD_POLICY_URL'' ''http://localhost:8081'' @ ''/healthz''),
      (''analysis-service'', envOr env ''LITD_ANALYSIS_URL'' ''http://localhost:8082'' @ ''/healthz''),
      (''audit-service'', envOr env ''LITD_AUDIT_URL'' ''http://localhost:8083'' @ ''/healthz''),
      (''notification-service'', envOr env ''LITD_NOTIF_URL'' ''http://localhost:8084'' @ ''/healthz'')]"

text \<open>\<open>latency\<close> is the time of each call; \<open>iter\<close> is the order of the iteration over the map.\<close>

definition health_row :: "cli_env \<Rightarrow> (string \<Rightarrow> int) \<Rightarrow> string \<times> string \<Rightarrow> string" where
  "health_row env latency sv =
     (case sv of (name, url) \<Rightarrow>
        (case ci_get env url of
           Inl err \<Rightarrow> pad_right 24 name @ ''  '' @ utf_cross @ ''  unreachable ('' @ ci_show env err @ '')'' @ nl
         | Inr resp \<Rightarrow>
             pad_right 24 name @ ''  '' @ (if rp_status resp \<ge> 300 then utf_cross else utf_check) @ ''  ''
             @ fmt_d (latency name) @ ''ms  HTTP '' @ fmt_d (rp_status resp) @ nl))"

definition cmdHealth :: "cli_env \<Rightarrow> (string \<Rightarrow> int) \<Rightarrow> ((string \<times> string) list \<Rightarrow> (string \<times> string) list) \<Rightarrow> string \<Rightarrow> string \<times> int" where
  "cmdHealth env latency iter gateway = (concat (map (health_row env latency) (iter (health_services env gateway))), 0)"

section \<open>Properties\<close>

text \<open>A cut text keeps to its width, and only a width of zero can panic.\<close>

theorem truncate_width:
  assumes "0 < n"
  shows "\<exists>t. truncate_str s n = Inr t \<and> length t \<le> nat n + 2 \<and> (int (length s) \<le> n \<longrightarrow> t = s)"
  using assms by (auto simp: truncate_str_def str_slice_def utf_dots_def)

lemma poll_loop_spec:
  "(snd (poll_loop env url i k) \<noteq> None \<longleftrightarrow> (\<exists>j. i \<le> j \<and> j < i + k \<and> poll_answer env (ci_poll env j url) \<noteq> None))
   \<and> length (fst (poll_loop env url i k)) \<le> k"
proof (induction k arbitrary: i)
  case (Suc k)
  show ?case
  proof (cases "poll_answer env (ci_poll env i url)")
    case None
    have "(\<exists>j. i \<le> j \<and> j < i + Suc k \<and> poll_answer env (ci_poll env j url) \<noteq> None)
        \<longleftrightarrow> (\<exists>j. i + 1 \<le> j \<and> j < i + 1 + k \<and> poll_answer env (ci_poll env j url) \<noteq> None)"
      using None by (metis Suc_eq_plus1 Suc_leD Suc_leI add_Suc_right add_Suc le_neq_implies_less)
    then show ?thesis using Suc[of "i + 1"] None by (simp add: case_prod_beta)
  next
    case (Some r)
    then show ?thesis by auto
  qed
qed simp

text \<open>
  Waiting for a scan ends.  A scan that waits asks at most 60 times; it exits with 0 exactly when
  one of the first 60 answers is a result with an identifier, whatever the verdict of that result,
  and with 1 otherwise.
\<close>

theorem wait_bounded:
  "snd (wait_result env jobID) =
     (if list_ex (\<lambda>i. poll_answer env (ci_poll env i (analysisURL env @ ''/api/v1/jobs/'' @ jobID)) \<noteq> None) [0..<60]
      then 0 else 1)
   \<and> length (fst (poll_loop env url 0 poll_rounds)) \<le> 60"
proof
  define L where "L \<longleftrightarrow>
    list_ex (\<lambda>i. poll_answer env (ci_poll env i (analysisURL env @ ''/api/v1/jobs/'' @ jobID)) \<noteq> None) [0..<60]"
  obtain dots r where pl: "poll_loop env (analysisURL env @ ''/api/v1/jobs/'' @ jobID) 0 poll_rounds = (dots, r)"
    by fastforce
  have "snd (poll_loop env (analysisURL env @ ''/api/v1/jobs/'' @ jobID) 0 poll_rounds) \<noteq> None \<longleftrightarrow> L"
    unfolding poll_rounds_def L_def poll_loop_spec[THEN conjunct1] by (simp only: list_ex_iff set_upt) auto
  then have "r \<noteq> None \<longleftrightarrow> L" by (simp only: pl snd_conv)
  then show "snd (wait_result env jobID) =
      (if list_ex (\<lambda>i. poll_answer env (ci_poll env i (analysisURL env @ ''/api/v1/jobs/'' @ jobID)) \<noteq> None) [0..<60] then 0 else 1)"
    unfolding wait_result_def pl L_def[symmetric] by (cases r) auto
  show "length (fst (poll_loop env url 0 poll_rounds)) \<le> 60"
    using poll_loop_spec[of env url 0 60] by (simp add: poll_rounds_def)
qed

end
