(* ===== verification/Connections.thy ===== *)
theory Connections
  imports EventHub
begin

text \<open>
  The WebSocket connections of the gateway (\<^verbatim>\<open>server/ws.go\<close>): the two pumps \<^verbatim>\<open>ServeWS\<close> starts for a
  client, next to the hub of \<open>EventHub\<close>.  Every step belongs to one goroutine.  What the WebSocket
  library reads and writes is open: a read or write may fail at any time, and fails once the
  connection is closed.
\<close>

section \<open>The read pump\<close>

definition writeWait :: int where "writeWait = 10 * 1000000000"
definition maxMsgSize :: int where "maxMsgSize = 512"

text \<open>
  What the library does for the read pump: a message read, a pong handled at some time, an error.  The
  pump starts with a deadline, moves it with every pong and ends at the first error.
\<close>

datatype read_in = ReadMsg | PongAt int | ReadErr

fun read_loop :: "int \<Rightarrow> read_in list \<Rightarrow> int \<times> bool" where
  "read_loop deadline [] = (deadline, False)"
| "read_loop deadline (ReadMsg # ins) = read_loop deadline ins"
| "read_loop deadline (PongAt t # ins) = read_loop (t + pongWait) ins"
| "read_loop deadline (ReadErr # ins) = (deadline, True)"

text \<open>The limit set on the connection, the deadline in force, and whether the pump has ended.\<close>

definition readPump :: "int \<Rightarrow> read_in list \<Rightarrow> int \<times> int \<times> bool" where
  "readPump now ins = (maxMsgSize, read_loop (now + pongWait) ins)"

text \<open>
  A peer that answers every ping within six seconds is never timed out: each of its pongs comes
  before the deadline in force.
\<close>

fun in_time :: "int \<Rightarrow> int list \<Rightarrow> bool" where
  "in_time deadline [] = True"
| "in_time deadline (t # ts) = (t \<le> deadline \<and> in_time (fst (read_loop deadline [PongAt t])) ts)"

lemma answered_in_time:
  assumes "\<forall>k < length ts. t0 + (int k + 1) * pingPeriod \<le> ts ! k \<and> ts ! k \<le> t0 + (int k + 1) * pingPeriod + 6 * 1000000000"
    and "t0 + pongWait \<le> deadline"
  shows "in_time deadline ts"
  using assms
proof (induction ts arbitrary: t0 deadline)
  case (Cons t ts)
  have t: "t0 + pingPeriod \<le> t" "t \<le> t0 + pingPeriod + 6 * 1000000000" using Cons.prems(1)[rule_format, of 0] by simp_all
  have "in_time (t + pongWait) ts"
  proof (rule Cons.IH)
    show "\<forall>k < length ts. (t0 + pingPeriod) + (int k + 1) * pingPeriod \<le> ts ! k
        \<and> ts ! k \<le> (t0 + pingPeriod) + (int k + 1) * pingPeriod + 6 * 1000000000"
    proof (intro allI impI)
      fix k
      assume "k < length ts"
      then show "(t0 + pingPeriod) + (int k + 1) * pingPeriod \<le> ts ! k
          \<and> ts ! k \<le> (t0 + pingPeriod) + (int k + 1) * pingPeriod + 6 * 1000000000"
        using Cons.prems(1)[rule_format, of "Suc k"] by (simp add: algebra_simps)
    qed
    show "t0 + pingPeriod + pongWait \<le> t + pongWait" using t(1) by simp
  qed
  with t(2) Cons.prems(2) show ?case by (simp add: pingPeriod_def pongWait_def)
qed simp

section \<open>The connections\<close>

text \<open>
  Where the pumps of a client are: the read pump reads, wants to unregister, is about to close the
  connection, or has ended; the write pump writes or has ended.
\<close>

datatype read_phase = Reading | Leaving | Closing | ReadDone
datatype write_phase = Writing | WriteDone

text \<open>\<open>co_wire\<close> is what was written to a client without error.\<close>

record conns =
  co_sys :: hub_sys
  co_read :: "nat \<Rightarrow> read_phase"
  co_write :: "nat \<Rightarrow> write_phase"
  co_open :: "nat \<Rightarrow> bool"
  co_wire :: "nat \<Rightarrow> JobEvent list"

definition start_conns :: conns where
  "start_conns = \<lparr> co_sys = start_hub, co_read = (\<lambda>c. ReadDone), co_write = (\<lambda>c. WriteDone), co_open = (\<lambda>c. False), co_wire = (\<lambda>c. []) \<rparr>"

definition on_hub :: "Hub \<Rightarrow> conns \<Rightarrow> conns" where
  "on_hub h s = s\<lparr> co_sys := (co_sys s)\<lparr> hs_hub := h \<rparr> \<rparr>"

definition the_hub :: "conns \<Rightarrow> Hub" where
  "the_hub s = hs_hub (co_sys s)"

text \<open>The write pump receives the next event of its channel.\<close>

definition take_event :: "nat \<Rightarrow> JobEvent \<Rightarrow> JobEvent list \<Rightarrow> hub_sys \<Rightarrow> hub_sys" where
  "take_event c e es s =
     s\<lparr> hs_hub := (hs_hub s)\<lparr> h_send := (h_send (hs_hub s))(c := (h_send (hs_hub s) c)\<lparr> cn_buf := es \<rparr>) \<rparr>,
        hs_got := (hs_got s)(c := hs_got s c @ [e]) \<rparr>"

text \<open>The write pump returns: its deferred function closes the connection.\<close>

definition write_returns :: "nat \<Rightarrow> conns \<Rightarrow> conns" where
  "write_returns c s = s\<lparr> co_write := (co_write s)(c := WriteDone), co_open := (co_open s)(c := False) \<rparr>"

datatype actor = Serving nat | Publisher | HubLoop | Reader nat | Writer nat

inductive conn_step :: "actor \<Rightarrow> conns \<Rightarrow> conns \<Rightarrow> bool" where
  connect_client: "c \<notin> hs_known (co_sys s) \<Longrightarrow>
    conn_step (Serving c) s
      (s\<lparr> co_sys := (co_sys s)\<lparr> hs_hub := hub_register c ((the_hub s)\<lparr> h_send := (h_send (the_hub s))(c := new_channel) \<rparr>),
                                hs_known := Set.insert c (hs_known (co_sys s)) \<rparr>,
          co_read := (co_read s)(c := Reading), co_write := (co_write s)(c := Writing), co_open := (co_open s)(c := True) \<rparr>)"
| publish_event: "Broadcast e (the_hub s) = Some h \<Longrightarrow> conn_step Publisher s (on_hub h s)"
| deliver_event: "h_broadcast (the_hub s) = e # es \<Longrightarrow> distinct order \<Longrightarrow> set order = h_clients (the_hub s) \<Longrightarrow>
    hub_deliver_all e order ((the_hub s)\<lparr> h_broadcast := es \<rparr>) = Inr h \<Longrightarrow>
    conn_step HubLoop s
      (s\<lparr> co_sys := (co_sys s)\<lparr> hs_hub := h,
                                hs_sent := (\<lambda>c. if c \<in> set order then hs_sent (co_sys s) c @ [e] else hs_sent (co_sys s) c) \<rparr> \<rparr>)"
| read_ok: "co_read s c = Reading \<Longrightarrow> co_open s c \<Longrightarrow> conn_step (Reader c) s s"
| read_fails: "co_read s c = Reading \<Longrightarrow> conn_step (Reader c) s (s\<lparr> co_read := (co_read s)(c := Leaving) \<rparr>)"
| leave_hub: "co_read s c = Leaving \<Longrightarrow> hub_unregister c (the_hub s) = Inr h \<Longrightarrow>
    conn_step (Reader c) s ((on_hub h s)\<lparr> co_read := (co_read s)(c := Closing) \<rparr>)"
| close_read: "co_read s c = Closing \<Longrightarrow>
    conn_step (Reader c) s (s\<lparr> co_read := (co_read s)(c := ReadDone), co_open := (co_open s)(c := False) \<rparr>)"
| write_ok: "co_write s c = Writing \<Longrightarrow> co_open s c \<Longrightarrow> cn_buf (h_send (the_hub s) c) = e # es \<Longrightarrow>
    conn_step (Writer c) s
      (s\<lparr> co_sys := take_event c e es (co_sys s), co_wire := (co_wire s)(c := co_wire s c @ [e]) \<rparr>)"
| write_fails: "co_write s c = Writing \<Longrightarrow> cn_buf (h_send (the_hub s) c) = e # es \<Longrightarrow>
    conn_step (Writer c) s (write_returns c (s\<lparr> co_sys := take_event c e es (co_sys s) \<rparr>))"
| write_close: "co_write s c = Writing \<Longrightarrow> cn_buf (h_send (the_hub s) c) = [] \<Longrightarrow> cn_closed (h_send (the_hub s) c) \<Longrightarrow>
    conn_step (Writer c) s (write_returns c s)"
| ping_ok: "co_write s c = Writing \<Longrightarrow> co_open s c \<Longrightarrow> conn_step (Writer c) s s"
| ping_fails: "co_write s c = Writing \<Longrightarrow> conn_step (Writer c) s (write_returns c s)"

inductive_simps reader_step: "conn_step (Reader c) s s'"
inductive_simps writer_step: "conn_step (Writer c) s s'"

text \<open>A run, as the list of the goroutines that take its steps.\<close>

fun conn_run :: "actor list \<Rightarrow> conns \<Rightarrow> conns \<Rightarrow> bool" where
  "conn_run [] s s' = (s' = s)"
| "conn_run (a # as) s s' = (\<exists>t. conn_step a s t \<and> conn_run as t s')"

definition pump_of :: "nat \<Rightarrow> actor \<Rightarrow> bool" where
  "pump_of c a \<longleftrightarrow> a = Reader c \<or> a = Writer c"

lemma conn_run_append: "conn_run (as @ bs) s s' \<longleftrightarrow> (\<exists>t. conn_run as s t \<and> conn_run bs t s')"
  by (induction as arbitrary: s) auto

section \<open>Refinement of the hub\<close>

text \<open>Every step of the connections is a step of the hub's system, or leaves it as it is.\<close>

lemma conn_step_hub:
  assumes "conn_step a s s'" and "hub_inv (co_sys s)" and "\<forall>c. c \<notin> hs_known (co_sys s) \<longrightarrow> co_read s c = ReadDone \<and> co_write s c = WriteDone"
  shows "hub_step\<^sup>*\<^sup>* (co_sys s) (co_sys s')"
proof -
  have p: "\<not> hs_panicked (co_sys s)" using assms(2) by (simp add: hub_inv_def)
  have known: "co_read s c \<noteq> ReadDone \<or> co_write s c \<noteq> WriteDone \<Longrightarrow> c \<in> hs_known (co_sys s)" for c
    using assms(3) by blast
  from assms(1) show ?thesis
  proof cases
    case (connect_client c)
    then show ?thesis using hub_step.serve_ws[OF p, of c] by (simp add: the_hub_def)
  next
    case (publish_event e h)
    then show ?thesis using hub_step.publish[OF p, of e h] by (simp add: the_hub_def on_hub_def)
  next
    case (deliver_event e es order h)
    then show ?thesis using hub_step.deliver[OF p, of e es order h] by (auto simp: the_hub_def)
  next
    case (leave_hub c h)
    then show ?thesis using hub_step.unregister[OF p known, of c h] by (simp add: the_hub_def on_hub_def)
  next
    case (write_ok c e es)
    then show ?thesis using hub_step.write_pump[OF p known, of c e es] by (simp add: the_hub_def take_event_def)
  next
    case (write_fails c e es)
    then show ?thesis using hub_step.write_pump[OF p known, of c e es] by (simp add: the_hub_def take_event_def write_returns_def)
  qed (simp_all add: write_returns_def)
qed

section \<open>Invariant\<close>

text \<open>
  A client the server has not seen has no pumps; one that has been unregistered is not registered
  again and its channel is closed; a pump that has ended has closed the connection; and what was
  written is what the write pump took, as long as no write failed.
\<close>

definition client_ok :: "conns \<Rightarrow> nat \<Rightarrow> bool" where
  "client_ok s c \<longleftrightarrow>
     (if c \<in> hs_known (co_sys s)
      then (co_read s c \<in> {Closing, ReadDone} \<longrightarrow> c \<notin> h_clients (the_hub s))
           \<and> (co_read s c = ReadDone \<or> co_write s c = WriteDone \<longrightarrow> \<not> co_open s c)
           \<and> (c \<notin> h_clients (the_hub s) \<longrightarrow> cn_closed (h_send (the_hub s) c))
           \<and> prefix (co_wire s c) (hs_got (co_sys s) c)
           \<and> (co_write s c = Writing \<longrightarrow> co_wire s c = hs_got (co_sys s) c)
      else co_read s c = ReadDone \<and> co_write s c = WriteDone \<and> co_wire s c = [])"

definition conn_inv :: "conns \<Rightarrow> bool" where
  "conn_inv s \<longleftrightarrow> hub_inv (co_sys s) \<and> (\<forall>c. client_ok s c)"

lemma conn_inv_unknown:
  "conn_inv s \<Longrightarrow> \<forall>c. c \<notin> hs_known (co_sys s) \<longrightarrow> co_read s c = ReadDone \<and> co_write s c = WriteDone"
  by (metis client_ok_def conn_inv_def)

lemma conn_inv_parts: "conn_inv s \<Longrightarrow> hub_inv (co_sys s)" "conn_inv s \<Longrightarrow> client_ok s c"
  by (simp_all add: conn_inv_def)

lemma conn_inv_start: "conn_inv start_conns"
  by (simp add: conn_inv_def client_ok_def start_conns_def hub_inv_start) (simp add: start_hub_def)

lemma conn_inv_hub:
  assumes "conn_step a s s'" and "conn_inv s"
  shows "hub_inv (co_sys s')"
proof -
  have "hub_step\<^sup>*\<^sup>* (co_sys s) (co_sys s')" 
    using conn_step_hub[OF assms(1) conn_inv_parts(1)[OF assms(2)] conn_inv_unknown[OF assms(2)]] .
  moreover have "hub_inv (co_sys s)" using assms(2) by (rule conn_inv_parts)
  ultimately show ?thesis by (induction rule: rtranclp_induct) (auto intro: hub_inv_step)
qed

lemma client_ok_step:
  assumes "conn_step a s s'" and "hub_inv (co_sys s)" and "client_ok s c"
  shows "client_ok s' c"
  using assms(1)
proof cases
  case (connect_client d)
  with assms(2,3) show ?thesis
    by (cases "c = d") (auto simp: client_ok_def the_hub_def hub_register_def hub_inv_def split: if_splits)
next
  case (publish_event e h)
  with assms(3) show ?thesis
    by (auto simp: client_ok_def the_hub_def on_hub_def Broadcast_def split: if_splits)
next
  case (deliver_event e es order h)
  have "h = (the_hub s)\<lparr> h_broadcast := es,
        h_send := (\<lambda>c. if c \<in> set order then served e (the_hub s) c else h_send (the_hub s) c),
        h_clients := h_clients (the_hub s) - {c \<in> set order. at_capacity (the_hub s) c} \<rparr>"
    using deliver_event assms(2) hub_deliver_all_open[of order "(the_hub s)\<lparr> h_broadcast := es \<rparr>" e]
    by (auto simp: hub_inv_def the_hub_def cong: if_cong)
  with deliver_event assms(3) show ?thesis
    by (auto simp: client_ok_def the_hub_def served_def split: if_splits)
next
  case (leave_hub d h)
  with assms(3) show ?thesis
    by (auto simp: client_ok_def the_hub_def on_hub_def hub_unregister_def close_client_def close_channel_def split: if_splits)
next
  case (write_ok d e es)
  with assms(3) show ?thesis
    by (cases "c = d") (auto simp: client_ok_def the_hub_def take_event_def split: if_splits)
next
  case (write_fails d e es)
  with assms(3) show ?thesis
    by (cases "c = d") (auto simp: client_ok_def the_hub_def take_event_def write_returns_def prefix_append split: if_splits)
qed (use assms(3) in \<open>auto simp: client_ok_def the_hub_def write_returns_def split: if_splits\<close>)

lemma conn_inv_step: "conn_step a s s' \<Longrightarrow> conn_inv s \<Longrightarrow> conn_inv s'"
  using conn_inv_hub[of a s s'] client_ok_step[of a s s'] by (auto simp: conn_inv_def)

lemma conn_run_inv: "conn_run as s s' \<Longrightarrow> conn_inv s \<Longrightarrow> conn_inv s'"
  by (induction as arbitrary: s) (auto intro: conn_inv_step)

lemma conn_run_hub: "conn_run as s s' \<Longrightarrow> conn_inv s \<Longrightarrow> hub_step\<^sup>*\<^sup>* (co_sys s) (co_sys s')"
proof (induction as arbitrary: s)
  case (Cons a as)
  then obtain t where t: "conn_step a s t" "conn_run as t s'" by auto
  have "hub_step\<^sup>*\<^sup>* (co_sys s) (co_sys t)" 
    using conn_step_hub[OF t(1) conn_inv_parts(1)[OF Cons.prems(2)] conn_inv_unknown[OF Cons.prems(2)]] .
  with Cons.IH[OF t(2) conn_inv_step[OF t(1) Cons.prems(2)]] show ?case by simp
qed simp

section \<open>Clean-up\<close>

text \<open>How many steps the pumps of a client can still take once its connection is closed.\<close>

definition pumps_left :: "nat \<Rightarrow> conns \<Rightarrow> nat" where
  "pumps_left c s =
     (case co_read s c of Reading \<Rightarrow> 3 | Leaving \<Rightarrow> 2 | Closing \<Rightarrow> 1 | ReadDone \<Rightarrow> 0)
     + (case co_write s c of Writing \<Rightarrow> 1 | WriteDone \<Rightarrow> 0)"

lemma pumps_left_bound: "pumps_left c s \<le> 4"
  by (simp add: pumps_left_def split: read_phase.split write_phase.split)

lemma closed_pump_step:
  "conn_step a s s' \<Longrightarrow> \<not> co_open s c \<Longrightarrow> pump_of c a \<Longrightarrow> pumps_left c s' < pumps_left c s \<and> \<not> co_open s' c"
  by (auto simp: pump_of_def reader_step writer_step pumps_left_def on_hub_def write_returns_def split: read_phase.split)

lemma closed_other_step:
  assumes "conn_step a s s'" and "\<not> co_open s c" and "\<not> pump_of c a" and "c \<in> hs_known (co_sys s)"
  shows "pumps_left c s' = pumps_left c s \<and> \<not> co_open s' c"
  using assms(1)
proof cases
  case (connect_client d)
  with assms(2,4) show ?thesis by (auto simp: pumps_left_def)
qed (use assms(2,3) in \<open>auto simp: pump_of_def pumps_left_def on_hub_def write_returns_def\<close>)

lemma known_step: "conn_step a s s' \<Longrightarrow> hs_known (co_sys s) \<subseteq> hs_known (co_sys s')"
  by (induction rule: conn_step.induct) (auto simp: on_hub_def take_event_def write_returns_def)

lemma closed_run:
  assumes "conn_run bs s s'" and "\<not> co_open s c" and "c \<in> hs_known (co_sys s)"
  shows "length (filter (pump_of c) bs) + pumps_left c s' \<le> pumps_left c s \<and> \<not> co_open s' c \<and> c \<in> hs_known (co_sys s')"
  using assms
proof (induction bs arbitrary: s)
  case (Cons b bs)
  then obtain t where t: "conn_step b s t" "conn_run bs t s'" by auto
  have "c \<in> hs_known (co_sys t)" using known_step[OF t(1)] Cons.prems(3) by auto
  moreover have "\<not> co_open t c \<and> (if pump_of c b then pumps_left c t < pumps_left c s else pumps_left c t = pumps_left c s)"
    using closed_pump_step[OF t(1) Cons.prems(2)] closed_other_step[OF t(1) Cons.prems(2) _ Cons.prems(3)] by simp
  ultimately show ?case using Cons.IH[OF t(2)] by (auto split: if_splits)
qed simp

text \<open>Nothing of the client is left.\<close>

definition gone :: "conns \<Rightarrow> nat \<Rightarrow> bool" where
  "gone s c \<longleftrightarrow> co_read s c = ReadDone \<and> co_write s c = WriteDone \<and> \<not> co_open s c
     \<and> c \<notin> h_clients (the_hub s) \<and> cn_closed (h_send (the_hub s) c)"

lemma closed_progress:
  assumes "conn_inv s" and "c \<in> hs_known (co_sys s)" and "\<not> co_open s c" and "\<not> gone s c"
  shows "\<exists>a t. pump_of c a \<and> conn_step a s t"
proof (cases "co_write s c")
  case Writing
  then show ?thesis using ping_fails[of s c] by (auto simp: pump_of_def)
next
  case WriteDone
  then have "co_read s c \<noteq> ReadDone"
    using assms conn_inv_parts(2)[OF assms(1), of c] by (auto simp: gone_def client_ok_def)
  then show ?thesis
    using read_fails[of s c] close_read[of s c] leave_hub[of s c] hub_unregister_safe[OF conn_inv_parts(1)[OF assms(1)], of c]
    by (cases "co_read s c") (auto simp: pump_of_def the_hub_def)
qed

section \<open>Properties\<close>

text \<open>A client that connects, and whose first ping fails.\<close>

definition ex_connected :: conns where
  "ex_connected = start_conns\<lparr>
     co_sys := start_hub\<lparr> hs_hub := hub_register 0 (NewHub\<lparr> h_send := (h_send NewHub)(0 := new_channel) \<rparr>), hs_known := {0} \<rparr>,
     co_read := (co_read start_conns)(0 := Reading), co_write := (co_write start_conns)(0 := Writing),
     co_open := (co_open start_conns)(0 := True) \<rparr>"

definition ex_closed :: conns where
  "ex_closed = write_returns 0 ex_connected"

lemma ex_closed_run: "conn_run [Serving 0, Writer 0] start_conns ex_closed"
proof -
  have "conn_step (Serving 0) start_conns ex_connected"
    using connect_client[of 0 start_conns] by (simp add: ex_connected_def start_conns_def start_hub_def the_hub_def)
  moreover have "conn_step (Writer 0) ex_connected ex_closed"
    unfolding ex_closed_def by (rule ping_fails) (simp add: ex_connected_def)
  ultimately show ?thesis by auto
qed

text \<open>
  C17: The connections refine the hub.  Whatever the interleaving of the hub, the publishers and the
  pumps of all clients, and whichever reads and writes fail, the hub's part of a run is a run of the
  hub alone; it never panics, and the events written to a client are a prefix of the events
  delivered to it since it registered: in order, without gaps and without repetition.
\<close>

theorem connections_refine_hub:
  assumes "conn_run as start_conns s"
  shows "hub_step\<^sup>*\<^sup>* start_hub (co_sys s) \<and> \<not> hs_panicked (co_sys s) \<and> prefix (co_wire s c) (hs_sent (co_sys s) c)"
proof -
  have inv: "conn_inv s" using conn_run_inv[OF assms conn_inv_start] .
  have "prefix (co_wire s c) (hs_got (co_sys s) c)"
    using conn_inv_parts(2)[OF inv, of c] by (auto simp: client_ok_def split: if_splits)
  moreover have "prefix (hs_got (co_sys s) c) (hs_sent (co_sys s) c)" "\<not> hs_panicked (co_sys s)"
    using conn_inv_parts(1)[OF inv] by (auto simp: hub_inv_def intro: append_prefixD)
  moreover have "hub_step\<^sup>*\<^sup>* start_hub (co_sys s)"
    using conn_run_hub[OF assms conn_inv_start] by (simp add: start_conns_def)
  ultimately show ?thesis by (auto intro: prefix_order.trans)
qed

theorem connections_refine_hub_witness:
  "hub_step\<^sup>*\<^sup>* start_hub (co_sys ex_closed) \<and> \<not> hs_panicked (co_sys ex_closed) \<and> prefix (co_wire ex_closed 0) (hs_sent (co_sys ex_closed) 0)"
  using connections_refine_hub[OF ex_closed_run, of 0] .

text \<open>
  C12: A closed connection is cleaned up.  Once the connection of a client is closed, its two pumps
  take at most four more steps, whatever else happens in between; as long as something of the client is
  left a pump can take a step; and when none can, both have ended, the hub has dropped the client
  and its channel is closed.
\<close>

theorem connection_cleanup:
  assumes "conn_run as start_conns s" and "c \<in> hs_known (co_sys s)" and "\<not> co_open s c" and "conn_run bs s s'"
  shows "length (filter (pump_of c) bs) \<le> 4 \<and> ((\<exists>a t. pump_of c a \<and> conn_step a s' t) \<or> gone s' c)"
proof -
  have "conn_inv s'" using conn_run_inv[OF assms(4) conn_run_inv[OF assms(1) conn_inv_start]] .
  with closed_run[OF assms(4,3,2)] closed_progress[of s' c] pumps_left_bound[of c s] show ?thesis by fastforce
qed

theorem connection_cleanup_witness:
  "length (filter (pump_of 0) [Reader 0]) \<le> 4
   \<and> ((\<exists>a t. pump_of 0 a \<and> conn_step a (ex_closed\<lparr> co_read := (co_read ex_closed)(0 := Leaving) \<rparr>) t)
      \<or> gone (ex_closed\<lparr> co_read := (co_read ex_closed)(0 := Leaving) \<rparr>) 0)"
proof (rule connection_cleanup[OF ex_closed_run])
  show "0 \<in> hs_known (co_sys ex_closed)" "\<not> co_open ex_closed 0"
    by (simp_all add: ex_closed_def ex_connected_def write_returns_def)
  have "conn_step (Reader 0) ex_closed (ex_closed\<lparr> co_read := (co_read ex_closed)(0 := Leaving) \<rparr>)"
    by (rule read_fails) (simp add: ex_closed_def ex_connected_def write_returns_def)
  then show "conn_run [Reader 0] ex_closed (ex_closed\<lparr> co_read := (co_read ex_closed)(0 := Leaving) \<rparr>)" by simp
qed

end
