(* ===== verification/ServiceRoutes.thy ===== *)
theory ServiceRoutes
  imports Services Notifier
begin

text \<open>
  The services behind the gateway as their clients see them: the routes each \<^verbatim>\<open>main\<close> or \<^verbatim>\<open>routes\<close> function
  registers, and the answer to a whole request.  The codecs, the clock and the random bytes are
  arguments; a body is decoded from its text and its read error.
\<close>

section \<open>Requests no handler takes\<close>

definition unrouted :: "'e routed \<Rightarrow> Response" where
  "unrouted x =
     (case x of
        NotAllowed ms \<Rightarrow> http_Error ''Method Not Allowed'' StatusMethodNotAllowed (header_Set ''Allow'' ms new_response)
      | _ \<Rightarrow> http_Error ''404 page not found'' StatusNotFound new_response)"

section \<open>Audit service\<close>

datatype audit_endpoint = AuditMetrics | AuditHealth | PostEntries | GetEntries | VerifyEntry string

definition audit_patterns :: "audit_endpoint pattern list" where
  "audit_patterns =
     [(''GET'', [Lit ''metrics''], \<lambda>_. AuditMetrics),
      (''GET'', [Lit ''healthz''], \<lambda>_. AuditHealth),
      (''POST'', [Lit ''api'', Lit ''v1'', Lit ''entries''], \<lambda>_. PostEntries),
      (''GET'', [Lit ''api'', Lit ''v1'', Lit ''entries''], \<lambda>_. GetEntries),
      (''GET'', [Lit ''api'', Lit ''v1'', Lit ''entries'', Wild, Lit ''verify''], \<lambda>vs. VerifyEntry (hd vs))]"

interpretation audit_table: route_table audit_patterns
  by unfold_locales (simp add: audit_patterns_def clash_def)

text \<open>What the handlers use: the codecs and the operations of the store.\<close>

record audit_codec =
  ax_decode :: "string \<Rightarrow> go_error option \<Rightarrow> go_error + (string \<rightharpoonup> json_val)"
  ax_marshal :: "(string \<rightharpoonup> json_val) \<Rightarrow> string"
  ax_entry :: "AuditEntry \<Rightarrow> string"
  ax_entries :: "AuditEntry list \<Rightarrow> string"
  ax_valid :: "string \<Rightarrow> bool \<Rightarrow> string"
  ax_status :: string

record 's audit_env = audit_codec +
  ax_insert :: "AuditEntry \<Rightarrow> 's \<Rightarrow> go_error option \<times> 's"
  ax_query :: "AuditQuery \<Rightarrow> 's \<Rightarrow> panic + AuditEntry list \<times> go_error option"
  ax_verify :: "string \<Rightarrow> 's \<Rightarrow> bool \<times> go_error option"

text \<open>A request with its query, and the random bytes, readings and iteration order while it is served.\<close>

record audit_call =
  ac_request :: request
  ac_rawQuery :: string
  ac_random :: string
  ac_now :: int
  ac_runtime :: runtime_readings
  ac_order :: "(string \<times> addr) list"

definition audit_registry :: "'s AuditService \<Rightarrow> metric_store" where
  "audit_registry svc =
     \<lparr> next_addr = 3,
       counter_at = (\<lambda>a. if a = 0 then as_entriesInserted svc else if a = 1 then as_entriesVerified svc else as_verifyFailed svc),
       gauge_at = (\<lambda>a. 0), histogram_at = (\<lambda>a. NewHistogram []) \<rparr>"

definition audit_counters :: "(string \<times> addr) list" where
  "audit_counters = [(''entries_inserted_total'', 0), (''entries_verified_total'', 1), (''entries_verify_failed_total'', 2)]"

definition audit_serve :: "'s audit_env \<Rightarrow> audit_call \<Rightarrow> 's AuditService \<Rightarrow> panic + Response \<times> 's AuditService" where
  "audit_serve env c svc =
     (let r = ac_request c
      in case mux_match audit_patterns (sr_method r) (sr_path r) of
           Routed AuditMetrics \<Rightarrow>
             Inr (metrics_Handler (ac_runtime c) (ac_order c) [] [] (NewRegistry 0 ''audit_service'') (audit_registry svc) new_response, svc)
         | Routed AuditHealth \<Rightarrow> Inr (write_body (ax_status env) new_response, svc)
         | Routed PostEntries \<Rightarrow>
             Inr (post_entries (ax_marshal env) (ax_entry env) (ax_insert env) (ac_random c) (ac_now c)
                    (ax_decode env (sr_body r) (sr_body_err r)) svc)
         | Routed GetEntries \<Rightarrow>
             (case get_entries (ax_entries env) (ax_query env) (Values_Get (ParseQuery (ac_rawQuery c))) svc of
                Inl p \<Rightarrow> Inl p
              | Inr w \<Rightarrow> Inr (w, svc))
         | Routed (VerifyEntry i) \<Rightarrow> Inr (verify_entry (ax_valid env) (ax_verify env) i svc)
         | other \<Rightarrow> Inr (unrouted other, svc))"

text \<open>The service over memory, as its \<^verbatim>\<open>main\<close> builds it; a handler that panics ends its connection only.\<close>

definition memory_env :: "(nat \<Rightarrow> nat) \<Rightarrow> audit_codec \<Rightarrow> Memory audit_env" where
  "memory_env cap codec = audit_codec.extend codec (audit_env.fields Insert (mem_Query_op cap) mem_Verify)"

definition start_audit :: "'s \<Rightarrow> 's AuditService" where
  "start_audit store = \<lparr> as_store = store, as_entriesInserted = 0, as_entriesVerified = 0, as_verifyFailed = 0 \<rparr>"

fun audit_run :: "'s audit_env \<Rightarrow> audit_call list \<Rightarrow> 's AuditService \<Rightarrow> Response option list \<times> 's AuditService" where
  "audit_run env [] svc = ([], svc)"
| "audit_run env (c # cs) svc =
     (case audit_serve env c svc of
        Inl p \<Rightarrow> (case audit_run env cs svc of (ws, svc') \<Rightarrow> (None # ws, svc'))
      | Inr (w, svc1) \<Rightarrow> (case audit_run env cs svc1 of (ws, svc') \<Rightarrow> (Some w # ws, svc')))"

section \<open>Policy engine\<close>

datatype engine_endpoint = EngineHealth | EngineMetrics | EngineEvaluate | EngineRules

definition engine_patterns :: "engine_endpoint pattern list" where
  "engine_patterns =
     [(''GET'', [Lit ''healthz''], \<lambda>_. EngineHealth),
      (''GET'', [Lit ''metrics''], \<lambda>_. EngineMetrics),
      (''POST'', [Lit ''api'', Lit ''v1'', Lit ''evaluate''], \<lambda>_. EngineEvaluate),
      (''GET'', [Lit ''api'', Lit ''v1'', Lit ''rules''], \<lambda>_. EngineRules)]"

interpretation engine_table: route_table engine_patterns
  by unfold_locales (simp add: engine_patterns_def clash_def)

record engine_env =
  ee_decode :: "string \<Rightarrow> go_error option \<Rightarrow> go_error + EvaluateRequest"
  ee_result :: "PolicyResult \<Rightarrow> string"
  ee_rules :: "Rule list \<Rightarrow> string"
  ee_map :: "(string \<times> string) list \<Rightarrow> string"
  ee_hostname :: string
  ee_runtime :: runtime_readings
  ee_order :: "(string \<times> addr) list \<times> (string \<times> addr) list \<times> (string \<times> addr) list"
  ee_start :: int
  ee_stop :: int

definition engine_serve :: "engine_env \<Rightarrow> request \<Rightarrow> Engine \<Rightarrow> metric_store \<Rightarrow> Response \<times> Engine \<times> metric_store" where
  "engine_serve env r e h =
     (case mux_match engine_patterns (sr_method r) (sr_path r) of
        Routed EngineHealth \<Rightarrow> (engine_health (ee_map env) (ee_hostname env), e, h)
      | Routed EngineMetrics \<Rightarrow>
          (case ee_order env of (cs, gs, hs) \<Rightarrow> (metrics_Handler (ee_runtime env) cs gs hs (en_reg e) h new_response, e, h))
      | Routed EngineEvaluate \<Rightarrow>
          evaluateHandler (ee_result env) (ee_start env) (ee_stop env) (ee_decode env (sr_body r) (sr_body_err r)) e h
      | Routed EngineRules \<Rightarrow> (listRulesHandler (ee_rules env) e, e, h)
      | other \<Rightarrow> (unrouted other, e, h))"

section \<open>Notification service\<close>

datatype notify_endpoint = NotifyMetrics | NotifyHealth | NotifyPost

definition notify_patterns :: "notify_endpoint pattern list" where
  "notify_patterns =
     [(''GET'', [Lit ''metrics''], \<lambda>_. NotifyMetrics),
      (''GET'', [Lit ''healthz''], \<lambda>_. NotifyHealth),
      (''POST'', [Lit ''api'', Lit ''v1'', Lit ''notify''], \<lambda>_. NotifyPost)]"

interpretation notify_table: route_table notify_patterns
  by unfold_locales (simp add: notify_patterns_def clash_def)

record notify_env =
  ne_decode :: "string \<Rightarrow> go_error option \<Rightarrow> go_error + NotificationRequest"
  ne_health :: "bool \<Rightarrow> bool \<Rightarrow> string"
  ne_marshal :: "slack_attachment \<Rightarrow> string"
  ne_url_error :: "string \<Rightarrow> go_error option"
  ne_net :: network
  ne_runtime :: runtime_readings
  ne_order :: "(string \<times> addr) list"

text \<open>
  The goroutine that dispatches runs with the context of the request, which the server cancels when
  the handler has returned: a call made after that fails without reaching the network.  The \<^verbatim>\<open>url.Error\<close>
  that the HTTP client puts around the error of the context is left out.
\<close>

definition ctx_net :: "bool \<Rightarrow> network \<Rightarrow> network" where
  "ctx_net cancelled net req = (if cancelled then Inl ContextCanceled else net req)"

text \<open>The answer, the counter, and the dispatch for each moment at which its goroutine may run.\<close>

definition notify_serve ::
  "notify_env \<Rightarrow> request \<Rightarrow> Dispatcher \<Rightarrow> uint64 \<Rightarrow>
   Response \<times> uint64 \<times> (bool \<Rightarrow> HttpRequest list \<times> (string \<times> go_error option) list) option" where
  "notify_serve env r d notifSent =
     (case mux_match notify_patterns (sr_method r) (sr_path r) of
        Routed NotifyMetrics \<Rightarrow>
          (metrics_Handler (ne_runtime env) (ne_order env) [] [] (NewRegistry 0 ''notification_service'')
             \<lparr> next_addr = 2, counter_at = (\<lambda>a. if a = 0 then notifSent else 0), gauge_at = (\<lambda>a. 0),
               histogram_at = (\<lambda>a. NewHistogram []) \<rparr> new_response, notifSent, None)
      | Routed NotifyHealth \<Rightarrow> (notification_health (ne_health env) d, notifSent, None)
      | Routed NotifyPost \<Rightarrow>
          notify_handler (\<lambda>req cancelled. Dispatch (ne_marshal env) (ne_url_error env) (ctx_net cancelled (ne_net env)) req d)
            (ne_decode env (sr_body r) (sr_body_err r)) notifSent
      | other \<Rightarrow> (unrouted other, notifSent, None))"

section \<open>Analysis service\<close>

datatype analysis_endpoint = AnalysisMetrics | AnalysisHealth | PostJob | GetJobs | GetJob string

definition analysis_patterns :: "analysis_endpoint pattern list" where
  "analysis_patterns =
     [(''GET'', [Lit ''metrics''], \<lambda>_. AnalysisMetrics),
      (''GET'', [Lit ''healthz''], \<lambda>_. AnalysisHealth),
      (''POST'', [Lit ''api'', Lit ''v1'', Lit ''jobs''], \<lambda>_. PostJob),
      (''GET'', [Lit ''api'', Lit ''v1'', Lit ''jobs''], \<lambda>_. GetJobs),
      (''GET'', [Lit ''api'', Lit ''v1'', Lit ''jobs'', Wild], \<lambda>vs. GetJob (hd vs))]"

interpretation analysis_table: route_table analysis_patterns
  by unfold_locales (simp add: analysis_patterns_def clash_def)

record analysis_env =
  sx_decode :: "string \<Rightarrow> go_error option \<Rightarrow> go_error + Job"
  sx_health :: "int \<Rightarrow> int \<Rightarrow> string"
  sx_result :: "AnalysisResult \<Rightarrow> string"
  sx_results :: "AnalysisResult list \<Rightarrow> string"
  sx_keys :: "string list"
  sx_now :: int
  sx_runtime :: runtime_readings
  sx_order :: "(string \<times> addr) list \<times> (string \<times> addr) list"

definition analysis_registry :: "service \<Rightarrow> metric_store" where
  "analysis_registry s =
     \<lparr> next_addr = 5,
       counter_at = (\<lambda>a. if a = 0 then sv_jobsQueued s else if a = 1 then sv_jobsCompleted s else sv_jobsFailed s),
       gauge_at = (\<lambda>a. if a = 3 then sv_queueDepth s else of_int (p_workers (sv_pool s))),
       histogram_at = (\<lambda>a. NewHistogram []) \<rparr>"

text \<open>An answer at once, or the job that the handler enqueues before it answers.\<close>

definition analysis_serve :: "analysis_env \<Rightarrow> request \<Rightarrow> service \<Rightarrow> Response + Job" where
  "analysis_serve env r s =
     (case mux_match analysis_patterns (sr_method r) (sr_path r) of
        Routed AnalysisMetrics \<Rightarrow>
          (case sx_order env of (cs, gs) \<Rightarrow>
             Inl (metrics_Handler (sx_runtime env) cs gs [] (NewRegistry 0 ''analysis_service'') (analysis_registry s) new_response))
      | Routed AnalysisHealth \<Rightarrow> Inl (analysis_health (sx_health env) s)
      | Routed PostJob \<Rightarrow> post_job (sx_now env) (sx_decode env (sr_body r) (sr_body_err r))
      | Routed GetJobs \<Rightarrow> Inl (list_jobs (sx_results env) (sx_keys env) s)
      | Routed (GetJob i) \<Rightarrow> Inl (get_job (sx_result env) i s)
      | other \<Rightarrow> Inl (unrouted other))"

section \<open>The audit service over memory\<close>

lemma memory_env_fields [simp]:
  "ax_decode (memory_env cap codec) = ax_decode codec" "ax_marshal (memory_env cap codec) = ax_marshal codec"
  "ax_entry (memory_env cap codec) = ax_entry codec" "ax_entries (memory_env cap codec) = ax_entries codec"
  "ax_valid (memory_env cap codec) = ax_valid codec" "ax_status (memory_env cap codec) = ax_status codec"
  "ax_insert (memory_env cap codec) = Insert" "ax_query (memory_env cap codec) = mem_Query_op cap"
  "ax_verify (memory_env cap codec) = mem_Verify"
  by (simp_all add: memory_env_def audit_codec.defs audit_env.defs)

text \<open>The entry a call asks to record.\<close>

definition post_of :: "audit_codec \<Rightarrow> audit_call \<Rightarrow> AuditEntry option" where
  "post_of codec c =
     (case (mux_match audit_patterns (sr_method (ac_request c)) (sr_path (ac_request c)),
            ax_decode codec (sr_body (ac_request c)) (sr_body_err (ac_request c))) of
        (Routed PostEntries, Inr payload) \<Rightarrow> Some (audit_entry (ax_marshal codec) (ac_random c) (ac_now c) payload)
      | _ \<Rightarrow> None)"

definition created :: "Response option \<Rightarrow> bool" where
  "created w = (case w of Some r \<Rightarrow> status_of r = 201 | None \<Rightarrow> False)"

lemma fold_write_body: "status_of (fold write_body ls w) = status_of w"
  by (induction ls arbitrary: w) simp_all

lemma unrouted_status: "status_of (unrouted x) \<in> {404, 405}"
  by (cases x) (simp_all add: unrouted_def status_codes StatusMethodNotAllowed_def)

lemma unrouted_not_created: "status_of (unrouted x) \<noteq> 201"
  using unrouted_status[of x] by auto

lemma status_metrics: "status_of (metrics_Handler rt cs gs hs r h new_response) = 200"
  by (simp add: metrics_Handler_def Let_def fold_write_body)

lemma audit_serve_post:
  assumes "post_of codec c = Some e"
  shows "\<exists>w. audit_serve (memory_env cap codec) c svc =
      Inr (w, svc\<lparr> as_store := snd (Insert e (as_store svc)), as_entriesInserted := as_entriesInserted svc + 1 \<rparr>) \<and> status_of w = 201"
  using assms
  by (auto simp: post_of_def audit_serve_def post_entries_def Insert_def Let_def status_codes Counter_Inc_def
      split: routed.splits audit_endpoint.splits sum.splits)

lemma audit_serve_other:
  assumes "post_of codec c = None"
  shows "case audit_serve (memory_env cap codec) c svc of
      Inl p \<Rightarrow> True
    | Inr (w, svc') \<Rightarrow> status_of w \<noteq> 201 \<and> as_store svc' = as_store svc \<and> as_entriesInserted svc' = as_entriesInserted svc"
proof (cases "mux_match audit_patterns (sr_method (ac_request c)) (sr_path (ac_request c))")
  case (Routed ep)
  with assms show ?thesis
    by (cases ep)
       (auto simp: post_of_def audit_serve_def post_entries_def get_entries_def verify_entry_def mem_Verify_def status_metrics
          Let_def status_codes split: sum.splits option.splits prod.splits)
qed (simp_all add: audit_serve_def Let_def unrouted_not_created)

lemma audit_run_memory:
  "case audit_run (memory_env cap codec) cs svc of (ws, svc') \<Rightarrow>
     map created ws = map (\<lambda>c. post_of codec c \<noteq> None) cs
     \<and> as_store svc' = memory.filled (rev (List.map_filter (post_of codec) cs)) (as_store svc)
     \<and> as_entriesInserted svc' = as_entriesInserted svc + of_nat (length (List.map_filter (post_of codec) cs))"
proof (induction cs arbitrary: svc)
  case Nil
  show ?case by (simp add: memory.filled_simps map_filter_simps)
next
  case (Cons c cs)
  show ?case
  proof (cases "post_of codec c")
    case None
    then show ?thesis
      using audit_serve_other[OF None, where cap = cap and svc = svc] Cons.IH[of svc] Cons.IH[of "snd (projr (audit_serve (memory_env cap codec) c svc))"]
      by (auto simp: created_def map_filter_simps split: sum.splits prod.splits)
  next
    case (Some e)
    obtain w where w: "audit_serve (memory_env cap codec) c svc =
        Inr (w, svc\<lparr> as_store := snd (Insert e (as_store svc)), as_entriesInserted := as_entriesInserted svc + 1 \<rparr>)" "status_of w = 201"
      using audit_serve_post[OF Some] by blast
    have "memory.filled (rev (e # es)) m = memory.filled (rev es) (snd (Insert e m))" for es m
      by (simp add: memory.filled_def)
    with w Some Cons.IH[of "svc\<lparr> as_store := snd (Insert e (as_store svc)), as_entriesInserted := as_entriesInserted svc + 1 \<rparr>"]
    show ?thesis by (auto simp: created_def map_filter_simps split: prod.splits)
  qed
qed

lemma posts_unsigned: "list_all (\<lambda>e. ae_Signature e = []) (rev (List.map_filter (post_of codec) cs))"
  by (auto simp: list_all_iff map_filter_def post_of_def audit_entry_def split: routed.splits audit_endpoint.splits sum.splits)

text \<open>
  C4: The audit log over any sequence of requests.  The calls answered 201 are exactly the well-formed
  posts, and the counter shows their number; afterwards an identifier verifies, and the service
  answers so, exactly when it was drawn for a call that was answered 201, whatever other
  requests came in between, also ones that ended in a panic.
\<close>

theorem audit_service_history:
  "case audit_run (memory_env cap codec) cs (start_audit (NewMemory k)) of (ws, svc) \<Rightarrow>
     map created ws = map (\<lambda>c. post_of codec c \<noteq> None) cs
     \<and> as_entriesInserted svc = of_nat (length (filter created ws))
     \<and> mem_Verify i (as_store svc) = (list_ex (\<lambda>(c, w). created w \<and> AuditStore.newID (ac_random c) = i) (zip cs ws), None)
     \<and> rs_body (fst (verify_entry (ax_valid codec) mem_Verify i svc)) =
         ax_valid codec i (list_ex (\<lambda>(c, w). created w \<and> AuditStore.newID (ac_random c) = i) (zip cs ws))"
proof -
  obtain ws svc where run: "audit_run (memory_env cap codec) cs (start_audit (NewMemory k)) = (ws, svc)" by fastforce
  let ?ps = "List.map_filter (post_of codec) cs"
  have c: "map created ws = map (\<lambda>c. post_of codec c \<noteq> None) cs"
    and st: "as_store svc = memory.filled (rev ?ps) (NewMemory k)" and n: "as_entriesInserted svc = of_nat (length ?ps)"
    using audit_run_memory[where cap = cap and codec = codec and cs = cs and svc = "start_audit (NewMemory k)"] run by (auto simp: start_audit_def)
  have len: "length (filter created ws) = length ?ps"
    using arg_cong[OF c, of "\<lambda>bs. length (filter id bs)"] by (simp add: filter_map comp_def map_filter_def)
  have ids: "list_ex (\<lambda>(c, w). created w \<and> AuditStore.newID (ac_random c) = i) (zip cs ws) \<longleftrightarrow> i \<in> ae_ID ` set ?ps"
    using c
  proof (induction cs arbitrary: ws)
    case (Cons c cs)
    then obtain w ws' where "ws = w # ws'" by (cases ws) auto
    with Cons show ?case
      by (cases "post_of codec c") (auto simp: map_filter_simps post_of_def audit_entry_def split: routed.splits audit_endpoint.splits sum.splits)
  qed simp
  have v: "mem_Verify i (as_store svc) = (list_ex (\<lambda>(c, w). created w \<and> AuditStore.newID (ac_random c) = i) (zip cs ws), None)"
    unfolding ids st memory_verifies[OF posts_unsigned] by simp
  show ?thesis unfolding run using c n len v by (simp add: verify_entry_def)
qed

section \<open>Accepted notifications can be lost\<close>

lemma dispatch_cancelled:
  assumes "Slack_Enabled (dp_slack d)" and "url_error (webhookURL (dp_slack d)) = None"
  shows "snd (dispatch_target marshal url_error (ctx_net True net) req d t) =
    (if t = ''slack'' then [(''slack notify'', Some (Wrapped ''slack post'' ContextCanceled))]
     else if t = ''email'' then [(''email notify: no recipients configured for job '' @ nr_JobID req, None)] else [])"
  using assms by (simp add: dispatch_target_def Slack_Send_def NewRequest_def send_request_def with_header_def ctx_net_def)

text \<open>
  C40: An accepted notification can be lost.  A well-formed post is answered 202 and counted as sent
  before anything is sent.  When the goroutine that dispatches makes its calls after the handler has
  returned, every Slack call fails with the context of the finished request, whatever the network
  would have answered, and nothing of it reaches the caller.
\<close>

theorem notification_lost:
  assumes "mux_match notify_patterns (sr_method r) (sr_path r) = Routed NotifyPost"
    and "ne_decode env (sr_body r) (sr_body_err r) = Inr req"
    and "Slack_Enabled (dp_slack d)" and "ne_url_error env (webhookURL (dp_slack d)) = None"
  shows "\<exists>w dispatch. notify_serve env r d n = (w, n + 1, Some dispatch) \<and> status_of w = 202
    \<and> length (filter (\<lambda>l. l = (''slack notify'', Some (Wrapped ''slack post'' ContextCanceled))) (snd (dispatch True))) =
        length (filter (\<lambda>t. t = ''slack'') (nr_Targets req))
    \<and> (\<exists>w' dispatch'. notify_serve (env\<lparr> ne_net := net \<rparr>) r d n = (w', n + 1, Some dispatch') \<and> w' = w \<and> dispatch' True = dispatch True)"
proof -
  let ?f = "\<lambda>net cancelled. Dispatch (ne_marshal env) (ne_url_error env) (ctx_net cancelled net) req d"
  have serve: "notify_serve (env\<lparr> ne_net := net \<rparr>) r d n = (WriteHeader StatusAccepted new_response, n + 1, Some (?f net))"
      "notify_serve env r d n = (WriteHeader StatusAccepted new_response, n + 1, Some (?f (ne_net env)))"
    using assms(1,2) by (simp_all add: notify_serve_def notify_handler_def Counter_Inc_def)
  have "length (filter (\<lambda>l. l = (''slack notify'', Some (Wrapped ''slack post'' ContextCanceled)))
      (concat (map (\<lambda>t. snd (dispatch_target (ne_marshal env) (ne_url_error env) (ctx_net True net) req d t)) ts))) =
      length (filter (\<lambda>t. t = ''slack'') ts)" for ts net
    by (induction ts) (auto simp: dispatch_cancelled[where url_error = "ne_url_error env", OF assms(3,4)])
  then have "length (filter (\<lambda>l. l = (''slack notify'', Some (Wrapped ''slack post'' ContextCanceled))) (snd (?f net True))) =
      length (filter (\<lambda>t. t = ''slack'') (nr_Targets req))" for net
    by (simp add: Dispatch_def Let_def comp_def)
  moreover have "?f net True = ?f (ne_net env) True" by (simp add: ctx_net_def[abs_def])
  ultimately show ?thesis using serve by (simp add: status_codes)
qed

definition ex_notify_env :: notify_env where
  "ex_notify_env =
     \<lparr> ne_decode = (\<lambda>s e. Inr \<lparr> nr_JobID = ''j'', nr_Result = zero_result ''j'', nr_Policy = policy_result ''j'' [], nr_Targets = [''slack''] \<rparr>),
       ne_health = (\<lambda>a b. ''{}''), ne_marshal = (\<lambda>p. ''{}''), ne_url_error = (\<lambda>u. None),
       ne_net = (\<lambda>q. Inr \<lparr> rp_status = 200, rp_body = [] \<rparr>),
       ne_runtime = \<lparr> num_goroutine = 1, uptime_seconds = 0, heap_alloc = 0 \<rparr>, ne_order = [] \<rparr>"

definition ex_notify_request :: request where
  "ex_notify_request = \<lparr> sr_method = ''POST'', sr_path = ''/api/v1/notify'', sr_header = (\<lambda>k. []), sr_remoteAddr = ''10.0.0.1:4000'',
     sr_body = ''{}'', sr_body_err = None \<rparr>"

theorem notification_lost_witness:
  "\<exists>w dispatch. notify_serve ex_notify_env ex_notify_request (NewDispatcher (NewSlack ''https://hooks.slack.com/x'') (NewEmail [] [] [] [] [])) 0 =
      (w, 0 + 1, Some dispatch) \<and> status_of w = 202
    \<and> length (filter (\<lambda>l. l = (''slack notify'', Some (Wrapped ''slack post'' ContextCanceled))) (snd (dispatch True))) = 1
    \<and> (\<exists>w' dispatch'. notify_serve (ex_notify_env\<lparr> ne_net := (\<lambda>q. Inl ContextCanceled) \<rparr>) ex_notify_request
          (NewDispatcher (NewSlack ''https://hooks.slack.com/x'') (NewEmail [] [] [] [] [])) 0 = (w', 0 + 1, Some dispatch')
        \<and> w' = w \<and> dispatch' True = dispatch True)"
proof -
  have "mux_match notify_patterns (sr_method ex_notify_request) (sr_path ex_notify_request) = Routed NotifyPost"
    by (simp add: ex_notify_request_def notify_patterns_def mux_eval)
  from notification_lost[OF this, of ex_notify_env "\<lparr> nr_JobID = ''j'', nr_Result = zero_result ''j'', nr_Policy = policy_result ''j'' [], nr_Targets = [''slack''] \<rparr>"
      "NewDispatcher (NewSlack ''https://hooks.slack.com/x'') (NewEmail [] [] [] [] [])" 0 "\<lambda>q. Inl ContextCanceled"]
  show ?thesis by (simp add: ex_notify_env_def NewDispatcher_def NewSlack_def Slack_Enabled_def)
qed

end
