(* ===== verification/LitdMain.thy ===== *)
theory LitdMain
  imports LitdCli
begin

text \<open>
  The command line of \<^verbatim>\<open>litd\<close>: the flags of \<^verbatim>\<open>check\<close> and \<^verbatim>\<open>test-rules\<close>, the dispatch on the name of the
  command, and the usage text (\<^verbatim>\<open>main.go\<close>, with the heads of \<^verbatim>\<open>check.go\<close> and \<^verbatim>\<open>testrules.go\<close>).  What is
  printed is the standard error of a command followed by its standard output.
\<close>

section \<open>What the program runs in\<close>

record litd_env =
  le_cli :: cli_env
  le_check :: check_env
  le_rt :: flag_runtime
  le_latency :: "string \<Rightarrow> int"
  le_services :: "(string \<times> string) list \<Rightarrow> (string \<times> string) list"

section \<open>check\<close>

definition quoted :: "string \<Rightarrow> string" where
  "quoted s = dquote # s @ [dquote]"

definition check_flagset :: FlagSet where
  "check_flagset =
     \<lparr> fs_name = ''check'',
       fs_formal =
         [flag_String ''rules'' [] ''Directory containing YAML rule files (default: configs/rules or .litd.yaml)'',
          flag_String ''format'' [] (''Output format: '' @ quoted ''text'' @ '' | '' @ quoted ''gh'' @ '' | '' @ quoted ''json'' @ '' | '' @ quoted ''sarif''),
          flag_Float0 ''entropy-threshold'' ''Shannon entropy threshold (0 = use config or default 4.5)'',
          flag_Int ''max-findings'' 0 ''Limit output to N findings (0 = all)'',
          flag_Bool ''no-entropy'' False ''Disable entropy-based secret scanning'',
          flag_Bool ''no-deps'' False ''Disable dependency lockfile scanning'',
          flag_String ''fail-on'' []
            (''Minimum severity for non-zero exit: '' @ quoted ''critical'' @ ''|'' @ quoted ''high'' @ ''|'' @ quoted ''medium'' @ ''|''
             @ quoted ''low'' @ ''|'' @ quoted ''never''),
          flag_String ''exclude'' [] ''Comma-separated path prefixes to skip'',
          flag_Bool ''changed'' False ''Only scan files changed since last commit (requires git)''] \<rparr>"

definition check_flags_of :: "flag_values \<Rightarrow> flags" where
  "check_flags_of vals =
     \<lparr> fl_rules = get_string vals ''rules'', fl_format = get_string vals ''format'',
       fl_threshold = get_float vals ''entropy-threshold'', fl_maxFinds = get_int vals ''max-findings'',
       fl_noEntropy = get_bool vals ''no-entropy'', fl_noDeps = get_bool vals ''no-deps'',
       fl_failOn = get_string vals ''fail-on'', fl_exclude = get_string vals ''exclude'', fl_changed = get_bool vals ''changed'' \<rparr>"

text \<open>What the command reports of rules that do not load, rules that do not compile and files it cannot collect.\<close>

definition check_diagnostics :: "litd_env \<Rightarrow> flags \<Rightarrow> string list \<Rightarrow> string" where
  "check_diagnostics le fl args =
     (let env = le_check le;
          show_err = ci_show (le_cli le);
          dir = (case args of [] \<Rightarrow> ''.'' | a # _ \<Rightarrow> a);
          st = merge_config (ce_default_rules env) fl (loadProjectConfig (ce_readFile env) (ce_unmarshal_config env) dir);
          result = LoadDir (ce_readDir env) (ce_readFile env) (ce_unmarshal_rules env) (st_rulesDir st);
          warning = (case result of
                       Inl err \<Rightarrow> ''warn: could not load rules from '' @ Quote (rt_isPrint (le_rt le)) (st_rulesDir st) @ '': ''
                                  @ show_err err @ nl
                     | Inr rs \<Rightarrow> []);
          loaded = (case result of Inl err \<Rightarrow> [] | Inr rs \<Rightarrow> rs)
      in warning
         @ (case NewEvaluator (ce_compile env) loaded of
              Inl err \<Rightarrow> ''error: compile rules: '' @ show_err err @ nl
            | Inr e \<Rightarrow>
                (case check_files env fl st dir of
                   Inl err \<Rightarrow> ''error: collect files: '' @ show_err err @ nl
                 | Inr files \<Rightarrow> [])))"

definition run_check :: "litd_env \<Rightarrow> flags \<Rightarrow> string list \<Rightarrow> string \<times> int" where
  "run_check le fl args =
     (case cmdCheck (le_check le) fl args of (out, code) \<Rightarrow> (check_diagnostics le fl args @ out, code))"

definition litd_check :: "litd_env \<Rightarrow> string list \<Rightarrow> string \<times> int" where
  "litd_check le args =
     (case flag_Parse (le_rt le) check_flagset args of
        ParseExit out code \<Rightarrow> (out, code)
      | Parsed vals rest \<Rightarrow> run_check le (check_flags_of vals) rest)"

section \<open>test-rules\<close>

definition testrules_flagset :: "string \<Rightarrow> FlagSet" where
  "testrules_flagset default_rules =
     \<lparr> fs_name = ''test-rules'', fs_formal = [flag_String ''rules'' default_rules ''Directory containing YAML rule files''] \<rparr>"

definition failure_line :: "(rune \<Rightarrow> bool) \<Rightarrow> Rule \<Rightarrow> string \<Rightarrow> string \<Rightarrow> nat \<times> string \<Rightarrow> string" where
  "failure_line isPrint r kind what t =
     (case t of (i, snippet) \<Rightarrow>
        ''FAIL  '' @ r_ID r @ ''  '' @ kind @ ''['' @ fmt_d (int i) @ '']: '' @ what @ nl
        @ ''       snippet: '' @ Quote isPrint snippet @ nl)"

text \<open>The lines for the fixtures of a rule that do not behave, in the order in which they run.\<close>

definition rule_failures :: "(rune \<Rightarrow> bool) \<Rightarrow> Evaluator \<Rightarrow> Rule \<Rightarrow> string list" where
  "rule_failures isPrint e r =
     map (failure_line isPrint r ''pass'' ''rule fired unexpectedly'')
       (filter (\<lambda>t. \<not> pass_ok e r t) (List.enumerate 0 (t_Pass (r_Tests r))))
     @ map (failure_line isPrint r ''fail'' ''rule did not fire'')
         (filter (\<lambda>t. \<not> fail_ok e r t) (List.enumerate 0 (t_Fail (r_Tests r))))"

definition tally_line :: "tally \<Rightarrow> string" where
  "tally_line t =
     (if ta_total t = 0 then ''no rule tests defined (add tests.pass/tests.fail to your YAML rules)'' @ nl
      else nl @ fmt_d (ta_total t) @ '' tests: '' @ fmt_d (ta_passed t) @ '' passed, '' @ fmt_d (ta_failed t) @ '' failed'' @ nl)"

definition test_rules_output :: "litd_env \<Rightarrow> string \<Rightarrow> tally \<Rightarrow> string" where
  "test_rules_output le dir t =
     (let env = le_check le
      in case LoadDir (ce_readDir env) (ce_readFile env) (ce_unmarshal_rules env) dir of
           Inl err \<Rightarrow> ''error: load rules: '' @ ci_show (le_cli le) err @ nl
         | Inr loaded \<Rightarrow>
             (case NewEvaluator (ce_compile env) loaded of
                Inl err \<Rightarrow> ''error: compile rules: '' @ ci_show (le_cli le) err @ nl
              | Inr e \<Rightarrow> concat (concat (map (rule_failures (rt_isPrint (le_rt le)) e) loaded)) @ tally_line t))"

definition litd_test_rules :: "litd_env \<Rightarrow> string list \<Rightarrow> string \<times> int" where
  "litd_test_rules le args =
     (let env = le_check le
      in case flag_Parse (le_rt le) (testrules_flagset (ce_default_rules env)) args of
           ParseExit out code \<Rightarrow> (out, code)
         | Parsed vals rest \<Rightarrow>
             let dir = get_string vals ''rules''
             in case cmdTestRules (ce_readDir env) (ce_readFile env) (ce_unmarshal_rules env) (ce_compile env) dir of
                  (t, code) \<Rightarrow> (test_rules_output le dir t, code))"

section \<open>main\<close>

definition defaultGateway :: string where "defaultGateway = ''http://localhost:8080''"

definition usage :: string where
  "usage =
     concat (map (\<lambda>l. l @ nl)
       [''litd '' @ utf_dash @ '' Distributed Code Quality & Compliance CLI'',
        [],
        ''Usage:'',
        ''  litd <command> [flags]'',
        [],
        ''Commands:'',
        ''  check       Run full analysis in-process (no services required)'',
        ''  test-rules  Validate YAML rules against their inline pass/fail fixtures'',
        ''  scan        Submit a repository for analysis'',
        ''  jobs        List all completed analysis results'',
        ''  job         Show detailed result for a single job ID'',
        ''  audit       Query the immutable audit log'',
        ''  rules       List all loaded policy rules'',
        ''  health      Check health of all services'',
        ''  version     Print version'',
        [],
        ''Environment:'',
        ''  LITD_GATEWAY      API gateway URL    (default: http://localhost:8080)'',
        ''  LITD_ANALYSIS_URL Analysis svc URL   (default: http://localhost:8082)'',
        ''  LITD_POLICY_URL   Policy engine URL  (default: http://localhost:8081)'',
        ''  LITD_AUDIT_URL    Audit service URL  (default: http://localhost:8083)'',
        ''  LITD_NOTIF_URL    Notif service URL  (default: http://localhost:8084)'',
        [],
        ''Examples:'',
        ''  litd check ./                                  # scan current directory'',
        ''  litd check --rules ./configs/rules --format gh # GitHub Actions annotations'',
        ''  litd scan --repo https://github.com/org/repo --sha abc123 --wait'',
        ''  litd jobs'',
        ''  litd job <job-id>'',
        ''  litd audit --job <job-id>'',
        ''  litd rules'',
        ''  litd health''])"

text \<open>\<open>args\<close> is \<^verbatim>\<open>os.Args\<close>, the name of the program first.\<close>

definition litd_main :: "litd_env \<Rightarrow> string list \<Rightarrow> string \<times> int" where
  "litd_main le args =
     (let gateway = envOr (le_cli le) ''LITD_GATEWAY'' defaultGateway
      in if length args < 2 then (usage, 1)
         else
           let command = args ! 1; rest = drop 2 args
           in if command = ''check'' then litd_check le rest
              else if command = ''test-rules'' then litd_test_rules le rest
              else if command = ''scan'' then cmdScan (le_cli le) (le_rt le) gateway rest
              else if command = ''jobs'' then cmdJobs (le_cli le)
              else if command = ''job'' then cmdJob (le_cli le) rest
              else if command = ''audit'' then cmdAudit (le_cli le) (le_rt le) rest
              else if command = ''rules'' then cmdRules (le_cli le)
              else if command = ''health'' then cmdHealth (le_cli le) (le_latency le) (le_services le) gateway
              else if command = ''version'' then (''litd v0.1.0'' @ nl, 0)
              else (''unknown command '' @ Quote (rt_isPrint (le_rt le)) command @ nl @ nl @ usage, 1))"

section \<open>Arguments of check\<close>

lemma check_first_argument:
  "run_check le fl (dir # extra) = run_check le fl [dir]"
  by (simp add: run_check_def cmdCheck_def check_report_def check_diagnostics_def)

text \<open>
  C13: How \<^verbatim>\<open>litd check\<close> reads its command line.  Flags written before the directory take effect, each as
  written, a later one over an earlier one.  The directory ends the flags: everything after it is
  ignored, so that \<^verbatim>\<open>litd check . --fail-on never\<close> checks with the default threshold.
\<close>

theorem check_arguments:
  assumes "list_all (writable (rt_parseFloat (le_rt le)) showFloat check_flagset) xs" and "plain_arg dir"
  shows "litd_main le (prog # ''check'' # write_settings showFloat xs @ dir # extra) =
    run_check le (check_flags_of (default_values check_flagset ++ map_of (rev (map snd xs)))) [dir]"
proof -
  have "flag_Parse (le_rt le) check_flagset (write_settings showFloat xs @ dir # extra) =
      Parsed (default_values check_flagset ++ map_of (rev (map snd xs))) (dir # extra)"
    using flags_roundtrip[OF assms(1), of extra dir] assms(2) by simp
  then show ?thesis
    by (simp add: litd_main_def litd_check_def check_first_argument[of le _ dir extra])
qed

text \<open>The command of the documentation: none of its four flags reaches the check.\<close>

definition readme_flags :: "(style \<times> string \<times> flag_value) list" where
  "readme_flags = [(Apart, ''rules'', FString ''configs/rules''), (Apart, ''format'', FString ''gh''),
     (Apart, ''fail-on'', FString ''high''), (Apart, ''no-entropy'', FBool True)]"

definition ex_cli :: cli_env where
  "ex_cli =
     \<lparr> ci_getenv = (\<lambda>k. []), ci_post = (\<lambda>u b. Inl ContextCanceled), ci_get = (\<lambda>u. Inl ContextCanceled),
       ci_poll = (\<lambda>i u. Inl ContextCanceled), ci_marshal = (\<lambda>m. ''{}''), ci_decode_job = (\<lambda>s. Inl ContextCanceled),
       ci_decode_result = (\<lambda>s. Inl ContextCanceled), ci_decode_results = (\<lambda>s. Inr []), ci_decode_entries = (\<lambda>s. Inr []),
       ci_decode_rules = (\<lambda>s. Inr []), ci_show = (\<lambda>e. ''error'') \<rparr>"

text \<open>One file in an empty project without rules.\<close>

definition ex_check :: check_env where
  "ex_check =
     \<lparr> ce_readFile = (\<lambda>p. Inl (ErrorString ''no such file'')), ce_readDir = (\<lambda>p. Inl (ErrorString ''no such directory'')),
       ce_unmarshal_config = (\<lambda>s. zero_config), ce_unmarshal_rules = (\<lambda>s. Inr []), ce_compile = (\<lambda>s. Inl (ErrorString ''pattern'')),
       ce_default_rules = ''configs/rules'', ce_tree = (\<lambda>d. Some (FDir d True [FFile ''a.go'' (Inr ''package a'')])), ce_size = (\<lambda>p. 9),
       ce_git_diff = (\<lambda>d. Inl (ErrorString ''git'')), ce_git_staged = (\<lambda>d. []), ce_iter = (\<lambda>xs. xs),
       ce_json = (\<lambda>fs s. ''{}''), ce_sarif = (\<lambda>r. ''{}'') \<rparr>"

definition ex_litd :: litd_env where
  "ex_litd =
     \<lparr> le_cli = ex_cli, le_check = ex_check, le_rt = \<lparr> rt_parseFloat = (\<lambda>s. Inl ErrSyntax), rt_isPrint = (\<lambda>r. True) \<rparr>,
       le_latency = (\<lambda>s. 1), le_services = (\<lambda>xs. xs) \<rparr>"

lemma readme_flags_writable:
  "list_all (writable pf showFloat check_flagset) readme_flags"
  by (simp add: readme_flags_def writable_def flag_word_def check_flagset_def formal_def flag_String_def flag_Bool_def
      flag_Float0_def flag_Int_def)

theorem check_arguments_witness:
  "litd_main ex_litd (''litd'' # ''check'' # write_settings (\<lambda>x. []) [] @ ''.'' # write_settings (\<lambda>x. []) readme_flags) =
     run_check ex_litd (check_flags_of (default_values check_flagset)) [''.'']
   \<and> litd_main ex_litd (''litd'' # ''check'' # write_settings (\<lambda>x. []) readme_flags @ ''.'' # []) =
     run_check ex_litd (check_flags_of (default_values check_flagset ++ map_of (rev (map snd readme_flags)))) [''.'']"
  using check_arguments[of ex_litd "\<lambda>x. []" "[]" "''.''" "''litd''" "write_settings (\<lambda>x. []) readme_flags"]
    check_arguments[of ex_litd "\<lambda>x. []" readme_flags "''.''" "''litd''" "[]", OF readme_flags_writable]
  by (simp add: plain_arg_def)

section \<open>Exit codes\<close>

definition command_names :: "string list" where
  "command_names = [''check'', ''test-rules'', ''scan'', ''jobs'', ''job'', ''audit'', ''rules'', ''health'', ''version'']"

lemma must_code:
  "(\<And>v. snd (k v) \<in> {0, 1}) \<Longrightarrow> snd (must env p c x k) \<in> {0, 1}"
  by (auto simp: must_def split: sum.splits prod.splits) (metis insertE singletonD snd_conv)

lemma wait_result_code: "snd (wait_result env i) \<in> {0, 1}"
  by (simp add: wait_result_def split: prod.splits option.splits)

lemma run_scan_code: "snd (run_scan env rt gw fl) \<in> {0, 1}"
proof (cases "sf_repo fl = [] \<or> sf_sha fl = []")
  case False
  have "snd (case (if \<not> sf_wait fl then ([], 0) else wait_result env i) of (out, code) \<Rightarrow> (s1 @ s2 @ s3 @ out, code)) \<in> {0, 1}" for i s1 s2 s3
    using wait_result_code[of env i] by (simp split: prod.split) auto
  then show ?thesis unfolding run_scan_def if_not_P[OF False] by (intro must_code)
qed (simp add: run_scan_def)

lemma cmdJobs_code: "snd (cmdJobs env) \<in> {0, 1}"
  unfolding cmdJobs_def by (intro must_code) (simp only: snd_conv if_distrib[of snd], simp)

lemma cmdJob_code: "snd (cmdJob env args) \<in> {0, 1}"
proof (cases args)
  case (Cons i rest)
  have "snd (if rp_status resp = StatusNotFound then (s, 1) else must env [] c x (\<lambda>r. (printResult r, 0))) \<in> {0, 1}" for resp s c x
    using must_code[of "\<lambda>r. (printResult r, 0)"] by simp
  then show ?thesis unfolding cmdJob_def Cons list.case by (intro must_code)
qed (simp add: cmdJob_def)

lemma run_audit_code: "snd (run_audit env i n) \<in> {0, 1}"
  unfolding run_audit_def by (intro must_code) (simp only: snd_conv if_distrib[of snd], simp)

lemma cmdRules_code: "snd (cmdRules env) \<in> {0, 1}"
  unfolding cmdRules_def by (intro must_code) (simp only: snd_conv, simp)

lemma flag_exit_code: "flag_Parse rt fs args = ParseExit out code \<Longrightarrow> distinct_names fs \<Longrightarrow> code \<in> {0, 2}"
  using Parse_spec[of fs "default_values fs" rt args] default_values_typed[of fs] by (auto simp: flag_Parse_def)

lemma flagsets_distinct:
  "distinct_names scan_flagset" "distinct_names audit_flagset" "distinct_names check_flagset"
  "distinct_names (testrules_flagset d)"
  by (simp_all add: distinct_names_def scan_flagset_def audit_flagset_def check_flagset_def testrules_flagset_def
      flag_String_def flag_Bool_def flag_Int_def flag_Float0_def)

lemma run_check_code: "snd (run_check le fl args) \<in> {0, 1, 2}"
  by (auto simp: run_check_def cmdCheck_def exitCode_counts Let_def split: option.splits prod.splits if_splits)

lemma test_rules_code: "snd (cmdTestRules rd rf um co dir) \<in> {0, 1, 2}"
  by (simp add: cmdTestRules_def Let_def split: sum.split)

lemma test_rules_snd:
  "snd (case cmdTestRules rd rf um co dir of (t, code) \<Rightarrow> (f t, code)) \<in> {0, 1, 2}"
  using test_rules_code[of rd rf um co dir] by (cases "cmdTestRules rd rf um co dir") simp

lemma parsed_code:
  assumes "\<And>vals rest. snd (k vals rest) \<in> {0, 1, 2}" and "distinct_names fs"
  shows "snd (case flag_Parse rt fs args of ParseExit out code \<Rightarrow> (out, code) | Parsed vals rest \<Rightarrow> k vals rest) \<in> {0, 1, 2}"
  using assms(1) flag_exit_code[OF _ assms(2), of rt args] by (auto split: parsed.split)

text \<open>
  Exit codes of the program.  Whatever its arguments and environment, \<^verbatim>\<open>litd\<close> exits with 0, 1 or 2, and
  with 2 only from the four commands that parse flags; without a known command it prints its usage and
  exits with 1.
\<close>

theorem litd_exit_codes:
  "snd (litd_main le args) \<in> {0, 1, 2}
   \<and> (length args < 2 \<or> args ! 1 \<notin> set command_names \<longrightarrow>
        snd (litd_main le args) = 1 \<and> suffix usage (fst (litd_main le args)))
   \<and> (snd (litd_main le args) = 2 \<longrightarrow> args ! 1 \<in> {''check'', ''test-rules'', ''scan'', ''audit''})"
proof -
  have one_two: "x \<in> {0, 1} \<Longrightarrow> x \<in> {0, 1, 2}" for x :: int by auto
  have codes: "snd (litd_check le r) \<in> {0, 1, 2}" "snd (litd_test_rules le r) \<in> {0, 1, 2}"
      "snd (cmdScan c rt gw r) \<in> {0, 1, 2}" "snd (cmdAudit c rt r) \<in> {0, 1, 2}" for r c rt gw
    unfolding litd_check_def litd_test_rules_def cmdScan_def cmdAudit_def Let_def
    by (intro parsed_code flagsets_distinct run_check_code run_scan_code[THEN one_two] run_audit_code[THEN one_two]
        test_rules_snd)+
  have small: "x \<in> {0, 1} \<Longrightarrow> x \<noteq> 2" for x :: int by auto
  note client = cmdJobs_code cmdJob_code cmdRules_code
  show ?thesis
    using codes client[THEN one_two] client[THEN small]
    unfolding litd_main_def Let_def command_names_def cmdHealth_def
    by (simp add: suffix_def)
qed

end
