(* ===== verification/ClientFlows.thy ===== *)
theory ClientFlows
  imports LitdMain ServiceRoutes
begin

text \<open>
  The command line client together with the services it talks to: \<^verbatim>\<open>litd scan\<close> against the gateway and, with
  \<^verbatim>\<open>--wait\<close>, the analysis service, and \<^verbatim>\<open>litd audit\<close> against the audit service.
\<close>

section \<open>scan and the gateway\<close>

text \<open>The request the client posts, as the gateway receives it, and the reply of the whole server.\<close>

definition scan_request :: "(string \<Rightarrow> string) \<Rightarrow> string \<Rightarrow> string \<Rightarrow> request" where
  "scan_request header remote body =
     \<lparr> sr_method = ''POST'', sr_path = ''/api/v1/jobs'', sr_header = header, sr_remoteAddr = remote, sr_body = body, sr_body_err = None \<rparr>"

definition direct :: writer where
  "direct = \<lparr> can_flush = True, can_hijack = True \<rparr>"

definition server_reply ::
  "Gateway.Config \<Rightarrow> instruments \<Rightarrow> timing \<Rightarrow> genv \<Rightarrow> request \<Rightarrow> app gateway \<Rightarrow> HttpReply \<times> app gateway" where
  "server_reply cfg ins tm env r s =
     (case server_handler ins tm (server_mux cfg env) direct r s of (calls, p, s') \<Rightarrow>
        (\<lparr> rp_status = status_of (respond calls), rp_body = rs_body (respond calls) \<rparr>, s'))"

lemma route_submit: "route ''POST'' ''/api/v1/jobs'' = SubmitJob"
  by (simp add: route_def gateway_patterns_def mux_eval)

lemma respond_accepted:
  "status_of (respond (cors_headers ok origin @ accepted_calls b)) = 202"
  "rs_body (respond (cors_headers ok origin @ accepted_calls b)) = b"
  by (simp_all add: respond_def cors_headers_def accepted_calls_def status_codes)

lemma server_submits:
  assumes "passes tm (scan_request header remote body) s"
    and "en_decode_submit env body None = Inr req" and "sq_RepoURL req \<noteq> []" and "sq_CommitSHA req \<noteq> []"
    and "takes_job cfg env (manual_job env req)"
  shows "\<exists>s'. server_reply cfg ins tm env (scan_request header remote body) s =
      (\<lparr> rp_status = 202, rp_body = en_encode_job env (manual_job env req) \<rparr>, s')
    \<and> ap_sent (gw_app s') = ap_sent (gw_app s) @ [job_request cfg env (manual_job env req)]"
proof -
  let ?r = "scan_request header remote body"
  let ?s = "entered ins tm ?r s"
  let ?a = "(gw_app s)\<lparr> ap_sent := ap_sent (gw_app s) @ [job_request cfg env (manual_job env req)] \<rparr>"
  have url: "en_url_error env (cf_AnalysisServiceURL cfg @ ''/api/v1/jobs'') = None" using assms(5) by (simp add: takes_job_def)
  have "enqueueJob cfg env (manual_job env req) (gw_app s) = (None, ?a)"
    using enqueueJob_spec[of cfg env "manual_job env req" "gw_app s"] assms(5) url by (simp add: prod_eq_iff)
  then have "serve cfg env wrapped ?r (gw_metrics ?s) (gw_app ?s) = (accepted_calls (en_encode_job env (manual_job env req)), ?a)"
    using assms(2-4) by (simp add: serve_def scan_request_def route_submit SubmitJobHandler_def entered_def Let_def)
  then have "server_mux cfg env wrapped ?r ?s = (accepted_calls (en_encode_job env (manual_job env req)), None, ?s\<lparr> gw_app := ?a \<rparr>)"
    by (simp add: server_mux_def)
  from server_handler_passes[where mux = "server_mux cfg env", OF assms(1) this, of direct] show ?thesis
    by (auto simp: server_reply_def recovery_calls_def respond_accepted)
qed

definition scan_line :: "string \<Rightarrow> string \<Rightarrow> string \<Rightarrow> string list" where
  "scan_line repo sha branch = [''--repo'', repo, ''--sha'', sha, ''--branch'', branch]"

lemma scan_line_parsed:
  "flag_Parse rt scan_flagset (scan_line repo sha branch) =
     Parsed (default_values scan_flagset ++ map_of [(''branch'', FString branch), (''sha'', FString sha), (''repo'', FString repo)]) []"
proof -
  let ?xs = "[(Apart, ''repo'', FString repo), (Apart, ''sha'', FString sha), (Apart, ''branch'', FString branch)]"
  have "list_all (writable (rt_parseFloat rt) (\<lambda>x. []) scan_flagset) ?xs"
    by (simp add: writable_def flag_word_def scan_flagset_def formal_def flag_String_def)
  from flags_roundtrip[OF this] have "flag_Parse rt scan_flagset (write_settings (\<lambda>x. []) ?xs) =
      Parsed (default_values scan_flagset ++ map_of (rev (map snd ?xs))) []" by blast
  moreover have "write_settings (\<lambda>x. []) ?xs = scan_line repo sha branch"
    by (simp add: write_settings_def write_setting_def show_value_def scan_line_def)
  ultimately show ?thesis by simp
qed

lemma scan_line_flags:
  "scan_flags_of (default_values scan_flagset ++ map_of [(''branch'', FString branch), (''sha'', FString sha), (''repo'', FString repo)]) =
     \<lparr> sf_repo = repo, sf_sha = sha, sf_branch = branch, sf_wait = False \<rparr>"
  by (simp add: scan_flags_of_def default_values_def scan_flagset_def flag_String_def flag_Bool_def get_string_def get_bool_def)

lemma scan_command:
  "litd_main le (prog # ''scan'' # scan_line repo sha branch) =
     run_scan (le_cli le) (le_rt le) (envOr (le_cli le) ''LITD_GATEWAY'' defaultGateway)
       \<lparr> sf_repo = repo, sf_sha = sha, sf_branch = branch, sf_wait = False \<rparr>"
  unfolding scan_line_flags[symmetric] by (simp add: litd_main_def cmdScan_def scan_line_parsed del: map_of.simps)

text \<open>
  C11: A scan reaches the analysis service.  For the command line \<^verbatim>\<open>litd scan --repo R --sha S --branch B\<close> with
  a repository and a commit that are not empty, when the client's requests go to the gateway, the
  limiter lets it through, the codecs give back what was encoded and the analysis service takes the job,
  the gateway sends exactly one job, with the repository, commit and branch of the command line, and
  the command prints its identifier and exits with 0.
\<close>

theorem scan_submits:
  assumes "repo \<noteq> []" and "sha \<noteq> []"
    and "ci_post (le_cli le) (envOr (le_cli le) ''LITD_GATEWAY'' defaultGateway @ ''/api/v1/jobs'') body =
           Inr (fst (server_reply cfg ins tm env (scan_request header remote body) s))"
    and "body = scan_body (le_cli le) \<lparr> sf_repo = repo, sf_sha = sha, sf_branch = branch, sf_wait = False \<rparr>"
    and "en_decode_submit env body None = Inr \<lparr> sq_RepoURL = repo, sq_CommitSHA = sha, sq_Branch = branch \<rparr>"
    and "job = manual_job env \<lparr> sq_RepoURL = repo, sq_CommitSHA = sha, sq_Branch = branch \<rparr>"
    and "ci_decode_job (le_cli le) (en_encode_job env job) = Inr job"
    and "passes tm (scan_request header remote body) s" and "takes_job cfg env job"
  shows "litd_main le (prog # ''scan'' # scan_line repo sha branch) = (''job submitted: '' @ Gateway.newID (en_random env) @ nl, 0)
    \<and> ap_sent (gw_app (snd (server_reply cfg ins tm env (scan_request header remote body) s))) =
        ap_sent (gw_app s) @ [job_request cfg env job]
    \<and> (j_RepoURL job, j_CommitSHA job, j_Branch job) = (repo, sha, branch)"
proof -
  obtain s' where s': "server_reply cfg ins tm env (scan_request header remote body) s =
      (\<lparr> rp_status = 202, rp_body = en_encode_job env job \<rparr>, s')" "ap_sent (gw_app s') = ap_sent (gw_app s) @ [job_request cfg env job]"
    using server_submits[OF assms(8,5)] assms(1,2,9) unfolding assms(6) by fastforce
  have id: "j_ID job = Gateway.newID (en_random env)" by (simp add: assms(6) manual_job_def)
  have "run_scan (le_cli le) (le_rt le) (envOr (le_cli le) ''LITD_GATEWAY'' defaultGateway)
      \<lparr> sf_repo = repo, sf_sha = sha, sf_branch = branch, sf_wait = False \<rparr> = (''job submitted: '' @ Gateway.newID (en_random env) @ nl, 0)"
    using assms(1,2,3,7) s'(1) id unfolding assms(4)
    by (simp add: run_scan_def must_def)
  then show ?thesis unfolding scan_command using s' by (simp add: assms(6) manual_job_def)
qed

text \<open>An instance: codecs that know one request and one job, and a network that is the analysis service.\<close>

definition ex_scan_env :: genv where
  "ex_scan_env =
     \<lparr> en_net = (\<lambda>req. Inr \<lparr> rp_status = 202, rp_body = [] \<rparr>), en_url_error = (\<lambda>u. None),
       en_marshal_job = j_ID, en_encode_job = j_ID, en_encode_map = (\<lambda>m. ''{}''),
       en_decode_submit = (\<lambda>s e. Inr \<lparr> sq_RepoURL = ''r'', sq_CommitSHA = ''c'', sq_Branch = ''main'' \<rparr>),
       en_decode_pr = (\<lambda>s. Inl ContextCanceled), en_random = ''r'', en_now = 9,
       en_marshal_event = (\<lambda>e. Inr []), en_grow = (\<lambda>n. n), en_sse_in = [],
       en_runtime = \<lparr> num_goroutine = 1, uptime_seconds = 1, heap_alloc = 1 \<rparr>, en_order = ([], [], []),
       en_upgrade = (\<lambda>w r. Inl []) \<rparr>"

definition ex_scan_job :: Job where
  "ex_scan_job = manual_job ex_scan_env \<lparr> sq_RepoURL = ''r'', sq_CommitSHA = ''c'', sq_Branch = ''main'' \<rparr>"

definition ex_scan_config :: Gateway.Config where
  "ex_scan_config = Load (\<lambda>s. None) (\<lambda>k. [])"

definition ex_scan_timing :: timing where
  "ex_scan_timing = \<lparr> tm_now = 0, tm_ms = 3, tm_elapsed = ''3ms'', tm_stack = (\<lambda>p. []) \<rparr>"

definition ex_scan_state :: "app gateway" where
  "ex_scan_state = snd (server_New 0 ex_store ex_scan_config)"

definition ex_scan_litd :: litd_env where
  "ex_scan_litd = ex_litd\<lparr> le_cli := ex_cli\<lparr>
     ci_post := (\<lambda>u b. Inr (fst (server_reply ex_scan_config (fst (server_New 0 ex_store ex_scan_config)) ex_scan_timing ex_scan_env
       (scan_request (\<lambda>k. []) ''10.0.0.1:5'' b) ex_scan_state))),
     ci_decode_job := (\<lambda>s. Inr ex_scan_job) \<rparr> \<rparr>"

theorem scan_submits_witness:
  "litd_main ex_scan_litd (''litd'' # ''scan'' # scan_line ''r'' ''c'' ''main'') = (''job submitted: '' @ Gateway.newID (en_random ex_scan_env) @ nl, 0)"
proof -
  have cli: "le_cli ex_scan_litd = ex_cli\<lparr>
     ci_post := (\<lambda>u b. Inr (fst (server_reply ex_scan_config (fst (server_New 0 ex_store ex_scan_config)) ex_scan_timing ex_scan_env
       (scan_request (\<lambda>k. []) ''10.0.0.1:5'' b) ex_scan_state))), ci_decode_job := (\<lambda>s. Inr ex_scan_job) \<rparr>"
    by (simp add: ex_scan_litd_def)
  have lim: "gw_limiter ex_scan_state = NewRateLimiter 50 100"
    by (simp add: ex_scan_state_def server_New_def ex_scan_config_def Load_def getEnvFloat_def split: prod.splits)
  have "passes ex_scan_timing (scan_request (\<lambda>k. []) ''10.0.0.1:5'' b) ex_scan_state" for b
    by (simp add: passes_def scan_request_def lim allow_def NewRateLimiter_def)
  moreover have "takes_job ex_scan_config ex_scan_env ex_scan_job"
    by (simp add: takes_job_def ex_scan_env_def)
  moreover have "ci_decode_job (le_cli ex_scan_litd) x = Inr ex_scan_job" for x by (simp add: cli)
  moreover have "en_decode_submit ex_scan_env b None = Inr \<lparr> sq_RepoURL = ''r'', sq_CommitSHA = ''c'', sq_Branch = ''main'' \<rparr>" for b
    by (simp add: ex_scan_env_def)
  moreover have "ci_post (le_cli ex_scan_litd) u b = Inr (fst (server_reply ex_scan_config (fst (server_New 0 ex_store ex_scan_config))
      ex_scan_timing ex_scan_env (scan_request (\<lambda>k. []) ''10.0.0.1:5'' b) ex_scan_state))" for u b by (simp add: cli)
  ultimately show ?thesis
    using scan_submits[of "''r''" "''c''" ex_scan_litd, OF _ _ _ refl _ ex_scan_job_def] by blast
qed

section \<open>scan --wait and the analysis service\<close>

text \<open>Text that is one segment of an address as it stands, such as every identifier the services draw.\<close>

definition path_safe :: "string \<Rightarrow> bool" where
  "path_safe s \<longleftrightarrow> s \<noteq> [] \<and> set s \<inter> set ''/%?#.'' = {}"

lemma pathUnescape_plain: "CHR ''%'' \<notin> set s \<Longrightarrow> pathUnescape s = s"
proof -
  have "CHR ''%'' \<notin> set s \<Longrightarrow> unescape False s = Some s" by (induction s) auto
  then show "CHR ''%'' \<notin> set s \<Longrightarrow> pathUnescape s = s" by (simp add: pathUnescape_def)
qed

definition job_path :: "string \<Rightarrow> string" where
  "job_path jobID = ''/api/v1/jobs/'' @ jobID"

lemma job_route:
  assumes "path_safe jobID"
  shows "mux_match analysis_patterns ''GET'' (job_path jobID) = Routed (GetJob jobID)"
proof -
  have "split_on (CHR ''/'') jobID = [jobID]" "pathUnescape jobID = jobID"
    using assms by (auto simp: path_safe_def split_on_plain pathUnescape_plain)
  then have "segments (job_path jobID) = [''api'', ''v1'', ''jobs'', jobID]"
    by (simp add: segments_def job_path_def pathUnescape_plain)
  then show ?thesis
    using assms unfolding analysis_table.routed_iff by (simp add: analysis_patterns_def matches_def method_ok_def path_safe_def)
qed

text \<open>The request of a poll, and the answer of the service in a state.\<close>

definition poll_request :: "string \<Rightarrow> request" where
  "poll_request jobID =
     \<lparr> sr_method = ''GET'', sr_path = job_path jobID, sr_header = (\<lambda>k. []), sr_remoteAddr = [], sr_body = [], sr_body_err = None \<rparr>"

definition answered :: "analysis_env \<Rightarrow> string \<Rightarrow> service \<Rightarrow> go_error + HttpReply \<Rightarrow> bool" where
  "answered ax jobID s reply =
     (case analysis_serve ax (poll_request jobID) s of
        Inl resp \<Rightarrow> reply = Inr \<lparr> rp_status = status_of resp, rp_body = rs_body resp \<rparr>
      | Inr job \<Rightarrow> False)"

lemma poll_of_service:
  assumes "path_safe jobID" and "answered ax jobID s reply"
    and "\<And>r. sv_results s jobID = Some r \<Longrightarrow> ci_decode_result env (sx_result ax r) = Inr r \<and> ar_JobID r \<noteq> []"
  shows "poll_answer env reply = sv_results s jobID"
  using assms
  by (auto simp: answered_def poll_answer_def analysis_serve_def poll_request_def job_route get_job_def status_codes
      split: option.splits)

lemma poll_loop_first:
  assumes "m < k" and "poll_answer env (ci_poll env (i + m) url) = Some r"
    and "\<And>j. j < m \<Longrightarrow> poll_answer env (ci_poll env (i + j) url) = None"
  shows "poll_loop env url i k = (replicate (Suc m) CHR ''.'', Some r)"
  using assms
proof (induction k arbitrary: i m)
  case (Suc k)
  show ?case
  proof (cases m)
    case (Suc m')
    have "poll_answer env (ci_poll env i url) = None" using Suc.prems(3)[of 0] Suc by simp
    moreover have "poll_loop env url (i + 1) k = (replicate (Suc m') CHR ''.'', Some r)"
      using Suc.IH[of m' "i + 1"] Suc.prems(1,2) Suc.prems(3)[of "Suc _"] Suc by simp
    ultimately show ?thesis using Suc by simp
  qed (use Suc.prems in simp)
qed simp

lemma run_states:
  assumes "\<And>i. svc_step\<^sup>*\<^sup>* (states i) (states (Suc i))" and "i \<le> j"
  shows "svc_step\<^sup>*\<^sup>* (states i) (states j)"
  using assms(2) by (induction rule: dec_induct) (auto intro: rtranclp_trans assms(1))

text \<open>
  C31: Waiting sees exactly what the service has recorded.  When the 60 polls of \<^verbatim>\<open>litd scan --wait\<close> reach the analysis
  service, each in some state of one run of it, the command exits with 0 exactly when the
  job is recorded as done at the last poll, also when its analysis failed, and with 1 otherwise; it
  stops at the first poll that finds the job and prints what is recorded there.
\<close>

theorem scan_waits_for_job:
  assumes "reachable w (states 0)" and "\<And>i. svc_step\<^sup>*\<^sup>* (states i) (states (Suc i))" and "path_safe jobID"
    and "\<And>i. answered ax jobID (states i) (ci_poll env i (analysisURL env @ job_path jobID))"
    and "\<And>i r. sv_results (states i) jobID = Some r \<Longrightarrow> ci_decode_result env (sx_result ax r) = Inr r"
  shows "snd (wait_result env jobID) = (if jobID \<in> j_ID ` set (sv_done (states 59)) then 0 else 1)
    \<and> (\<forall>k r. k < 60 \<and> sv_results (states k) jobID = Some r \<and> (\<forall>i < k. sv_results (states i) jobID = None) \<longrightarrow>
         wait_result env jobID = (''waiting'' @ replicate (Suc k) CHR ''.'' @ nl @ printResult r, 0))"
proof
  let ?url = "analysisURL env @ job_path jobID"
  have reach: "reachable w (states i)" for i
    using assms(1) run_states[of states 0 i, OF assms(2)] unfolding reachable_def by (meson le0 rtranclp_trans)
  have "ar_JobID r \<noteq> []" if "sv_results (states i) jobID = Some r" for i r
    using reachable_counted[OF reach[of i]] that assms(3) by (auto simp: counted_def path_safe_def)
  then have poll: "poll_answer env (ci_poll env i ?url) = sv_results (states i) jobID" for i
    using poll_of_service[OF assms(3) assms(4)[of i]] assms(5) by blast
  have "reachable w (states 59)" by (rule reach)
  then have dom: "dom (sv_results (states 59)) = j_ID ` set (sv_done (states 59))"
    using reachable_counted by (auto simp: counted_def)
  have "(\<exists>i < 60. sv_results (states i) jobID \<noteq> None) \<longleftrightarrow> sv_results (states 59) jobID \<noteq> None"
  proof
    assume "\<exists>i < 60. sv_results (states i) jobID \<noteq> None"
    then obtain i where "i < 60" "jobID \<in> dom (sv_results (states i))" by blast
    then show "sv_results (states 59) jobID \<noteq> None"
      using results_kept[OF run_states[of states i 59, OF assms(2)]] by auto
  qed (intro exI[of _ 59], simp)
  then have "list_ex (\<lambda>i. poll_answer env (ci_poll env i ?url) \<noteq> None) [0..<60] \<longleftrightarrow> jobID \<in> j_ID ` set (sv_done (states 59))"
    unfolding dom[symmetric] poll list_ex_iff by (auto simp: dom_def)
  then show "snd (wait_result env jobID) = (if jobID \<in> j_ID ` set (sv_done (states 59)) then 0 else 1)"
    using wait_bounded[THEN conjunct1, of env jobID] unfolding job_path_def by simp
  show "\<forall>k r. k < 60 \<and> sv_results (states k) jobID = Some r \<and> (\<forall>i < k. sv_results (states i) jobID = None) \<longrightarrow>
      wait_result env jobID = (''waiting'' @ replicate (Suc k) CHR ''.'' @ nl @ printResult r, 0)"
  proof (intro allI impI, elim conjE)
    fix k r assume "k < 60" "sv_results (states k) jobID = Some r" "\<forall>i < k. sv_results (states i) jobID = None"
    then have "poll_loop env ?url 0 poll_rounds = (replicate (Suc k) CHR ''.'', Some r)"
      using poll_loop_first[of k 60 env 0 ?url r] by (simp add: poll poll_rounds_def)
    then show "wait_result env jobID = (''waiting'' @ replicate (Suc k) CHR ''.'' @ nl @ printResult r, 0)"
      unfolding wait_result_def job_path_def by simp
  qed
qed

text \<open>An instance: the analysis of the job fails and is recorded before the second poll.\<close>

definition ex_failed :: AnalysisResult where
  "ex_failed = worker_result (prepare_job 7 (ex_job ''a'')) (Inl ContextCanceled)"

definition ex_recorded :: service where
  "ex_recorded = ex_analysis\<lparr> sv_queue := \<lparr> ch = [], ch_cap = 512 \<rparr>, sv_queueDepth := Gauge_Dec (sv_queueDepth ex_analysis),
     sv_results := [''a'' \<mapsto> ex_failed], sv_jobsCompleted := 1, sv_done := [prepare_job 7 (ex_job ''a'')] \<rparr>"

lemma ex_recorded_steps: "svc_step\<^sup>*\<^sup>* ex_analysis ex_recorded"
proof -
  let ?j = "prepare_job 7 (ex_job ''a'')"
  let ?s1 = "ex_analysis\<lparr> sv_queue := \<lparr> ch = [], ch_cap = 512 \<rparr>, sv_hand := Some ?j, sv_queueDepth := Gauge_Dec (sv_queueDepth ex_analysis) \<rparr>"
  let ?pool = "sv_pool ex_analysis"
  let ?s2 = "?s1\<lparr> sv_hand := None, sv_pool := ?pool\<lparr> p_jobs := [?j] \<rparr> \<rparr>"
  let ?s3 = "?s2\<lparr> sv_pool := ?pool\<lparr> p_idle := 0, p_busy := [?j] \<rparr> \<rparr>"
  let ?s4 = "?s3\<lparr> sv_pool := ?pool, sv_fin := [(?j, ex_failed)] \<rparr>"
  have "svc_step ex_analysis ?s1" by (rule svc_step.dequeue) (simp_all add: ex_analysis_def Dequeue_def svc_ctx_def)
  moreover have "svc_step ?s1 ?s2"
    using svc_step.submit[of ?s1 ?j "?pool\<lparr> p_jobs := [?j] \<rparr>"] by (simp add: ex_analysis_def Submit_def)
  moreover have "svc_step ?s2 ?s3"
    by (rule svc_step.worker_step[where taken = "Some ?j"]) (simp_all add: ex_analysis_def work_def svc_ctx_def)
  moreover have "svc_step ?s3 ?s4"
    using svc_step.finish[of ?s3 "[]" ?j "[]" "Inl ContextCanceled" "[]"]
    by (simp add: ex_analysis_def run_outcome_def ex_failed_def)
  moreover have "svc_step ?s4 ex_recorded"
    using svc_step.collect[of ?s4 "[]" ?j ex_failed "[]"]
    by (simp add: ex_analysis_def ex_recorded_def collect_result_def ex_failed_def worker_result_def zero_result_def
        prepare_job_def ex_job_def Counter_Inc_def Let_def)
  ultimately show ?thesis by (meson converse_rtranclp_into_rtranclp rtranclp.rtrancl_refl)
qed

definition ex_states :: "nat \<Rightarrow> service" where
  "ex_states i = (if i = 0 then ex_analysis else ex_recorded)"

definition ex_analysis_env :: analysis_env where
  "ex_analysis_env =
     \<lparr> sx_decode = (\<lambda>s e. Inl ContextCanceled), sx_health = (\<lambda>w q. ''{}''), sx_result = ar_JobID, sx_results = (\<lambda>rs. ''[]''),
       sx_keys = [], sx_now = 0, sx_runtime = \<lparr> num_goroutine = 1, uptime_seconds = 1, heap_alloc = 1 \<rparr>, sx_order = ([], []) \<rparr>"

definition ex_wait_cli :: cli_env where
  "ex_wait_cli = ex_cli\<lparr>
     ci_poll := (\<lambda>i u. case analysis_serve ex_analysis_env (poll_request ''a'') (ex_states i) of
       Inl resp \<Rightarrow> Inr \<lparr> rp_status = status_of resp, rp_body = rs_body resp \<rparr> | Inr job \<Rightarrow> Inl ContextCanceled),
     ci_decode_result := (\<lambda>s. Inr ex_failed) \<rparr>"

theorem scan_waits_for_job_witness:
  "wait_result ex_wait_cli ''a'' = (''waiting'' @ replicate 2 CHR ''.'' @ nl @ printResult ex_failed, 0)"
proof -
  have safe: "path_safe ''a''" by (simp add: path_safe_def)
  have r: "reachable 1 (ex_states 0)" by (simp add: ex_states_def ex_reachable)
  have run: "svc_step\<^sup>*\<^sup>* (ex_states i) (ex_states (Suc i))" for i by (simp add: ex_states_def ex_recorded_steps)
  have ans: "answered ex_analysis_env ''a'' (ex_states i) (ci_poll ex_wait_cli i u)" for i u
    using job_route[OF safe] by (simp add: answered_def ex_wait_cli_def analysis_serve_def poll_request_def)
  have res: "sv_results (ex_states i) ''a'' = (if i = 0 then None else Some ex_failed)" for i
    by (simp add: ex_states_def ex_analysis_def ex_recorded_def)
  have dec: "sv_results (ex_states i) ''a'' = Some r \<Longrightarrow> ci_decode_result ex_wait_cli (sx_result ex_analysis_env r) = Inr r" for i r
    by (auto simp: res ex_wait_cli_def split: if_splits)
  show ?thesis
    using scan_waits_for_job[where states = ex_states and jobID = "''a''" and env = ex_wait_cli, OF r run safe ans dec,
        THEN conjunct2, THEN spec[of _ 1], THEN spec[of _ ex_failed]] by (simp add: res numeral_2_eq_2)
qed

section \<open>audit and the audit service\<close>

text \<open>What \<^verbatim>\<open>http.Get\<close> sends of an address as its query: the part between the question mark and a fragment.\<close>

definition raw_query :: "string \<Rightarrow> string" where
  "raw_query url = drop 1 (dropWhile (\<lambda>c. c \<noteq> CHR ''?'') (takeWhile (\<lambda>c. c \<noteq> CHR ''#'') url))"

lemma raw_query_split:
  assumes "CHR ''?'' \<notin> set base" and "CHR ''#'' \<notin> set (base @ q)"
  shows "raw_query (base @ ''?'' @ q) = q"
proof -
  have "takeWhile (\<lambda>c. c \<noteq> CHR ''#'') (base @ ''?'' @ q) = base @ ''?'' @ q"
    using assms(2) by (auto simp: takeWhile_eq_all_conv)
  moreover have "dropWhile (\<lambda>c. c \<noteq> CHR ''?'') base = []" using assms(1) by (auto simp: dropWhile_eq_Nil_conv)
  ultimately show ?thesis using assms(1) by (auto simp: raw_query_def dropWhile_append)
qed

lemma audit_url_query:
  assumes "set (envOr env ''LITD_AUDIT_URL'' ''http://localhost:8083'') \<inter> set ''?#'' = {}" and "query_safe jobID"
  shows "raw_query (audit_url env jobID limit) =
    ''limit='' @ fmt_d limit @ (if jobID \<noteq> [] then ''&job_id='' @ jobID else [])"
proof -
  let ?base = "envOr env ''LITD_AUDIT_URL'' ''http://localhost:8083'' @ ''/api/v1/entries''"
  let ?q = "''limit='' @ fmt_d limit @ (if jobID \<noteq> [] then ''&job_id='' @ jobID else [])"
  have "CHR ''?'' \<notin> set ?base" "CHR ''#'' \<notin> set (?base @ ?q)"
    using assms query_safe_fmt_d[of limit] by (auto simp: query_safe_def)
  from raw_query_split[OF this] show ?thesis by (simp add: audit_url_def)
qed

text \<open>
  C18: The audit command asks for what it was given.  For an address without query and fragment, a job
  identifier free of the characters that a query treats specially (such as every identifier the
  services draw) and a limit in the range of an int, the audit service decodes from the request of
  \<^verbatim>\<open>litd audit\<close> exactly that job and that limit, with its own default of 50 in place of 0, and no
  other filter.
\<close>

theorem audit_query_roundtrip:
  assumes "set (envOr env ''LITD_AUDIT_URL'' ''http://localhost:8083'') \<inter> set ''?#'' = {}" and "query_safe jobID"
    and "MinInt \<le> limit" and "limit \<le> MaxInt"
  shows "audit_query (Values_Get (ParseQuery (raw_query (audit_url env jobID limit)))) =
    \<lparr> aq_JobID = jobID, aq_EventType = [], aq_Actor = [], aq_Since = 0, aq_Until = 0,
      aq_Limit = (if limit = 0 then 50 else limit), aq_Offset = 0 \<rparr>"
proof -
  have safe: "query_safe ''limit''" "query_safe ''job_id''" by (simp_all add: query_safe_def)
  have "ParseQuery (raw_query (audit_url env jobID limit)) =
      (''limit'', fmt_d limit) # (if jobID \<noteq> [] then [(''job_id'', jobID)] else [])"
    unfolding audit_url_query[OF assms(1,2)]
    using ParseQuery_one[OF safe(1) query_safe_fmt_d, of limit] ParseQuery_one[OF safe(2) assms(2)]
      ParseQuery_more[OF safe(1) query_safe_fmt_d, of limit "''job_id='' @ jobID"] by simp
  moreover have "Atoi [] = (0, False)" by (simp add: Atoi_def)
  ultimately show ?thesis using Atoi_fmt_d[OF assms(3,4)] by (auto simp: audit_query_def Values_Get_def Let_def)
qed

theorem audit_query_roundtrip_witness:
  "audit_query (Values_Get (ParseQuery (raw_query (audit_url ex_cli ''0a1b'' 20)))) =
    \<lparr> aq_JobID = ''0a1b'', aq_EventType = [], aq_Actor = [], aq_Since = 0, aq_Until = 0, aq_Limit = 20, aq_Offset = 0 \<rparr>"
  using audit_query_roundtrip[of ex_cli "''0a1b''" 20]
  by (simp add: envOr_def ex_cli_def query_safe_def MinInt_def MaxInt_def)

text \<open>The identifier is not escaped, so one with an ampersand adds filters of its own.\<close>

theorem audit_job_injects:
  "aq_Actor (audit_query (Values_Get (ParseQuery (raw_query (audit_url ex_cli ''j&actor=bob'' 20))))) = ''bob''"
  by code_simp

end
