(* ===== verification/Spec2Isabelle.thy ===== *)
theory Spec2Isabelle
  imports Models Rules Entropy Deps Signing Cache Retry JobQueue Metrics AuditStore PolicyEngine
    GitHub Notifier Analyzer AnalysisService RateLimit Middleware EventHub EventStream Gateway Services LitdCheck LitdCli
    Connections ServiceRoutes LitdMain ClientFlows
begin

text \<open>
  A verification development for lint-in-the-dead, a code-quality and compliance platform in Go: a
  command line tool, five services and the packages they share.

  \<^bold>\<open>The program.\<close>  The gateway (\<^verbatim>\<open>services/api-gateway\<close>) takes webhooks and manual jobs and passes jobs to
  the analysis service (\<^verbatim>\<open>services/analysis-service\<close>), which queues them, clones the repository, collects
  its files, asks the policy engine (\<^verbatim>\<open>services/policy-engine\<close>), runs the entropy and dependency scanners,
  caches and records the result, and posts to the audit service (\<^verbatim>\<open>services/audit-service\<close>), the
  notification service (\<^verbatim>\<open>services/notification-service\<close>) and GitHub (\<^verbatim>\<open>pkg/github\<close>).  The command
  \<^verbatim>\<open>litd check\<close> (\<^verbatim>\<open>cmd/litd\<close>) runs the same analysers in one process.

  \<^bold>\<open>Theories, bottom up.\<close>  The Go runtime and library the program uses: \<^verbatim>\<open>Prelude\<close> (panics, errors, maps with
  a zero value, slice bounds, integer division), \<^verbatim>\<open>GoStrings\<close> (strings, paths, the line scanner, UTF-8),
  \<^verbatim>\<open>GoRegexp\<close> (leftmost-first matching, with a relational semantics it is proved sound for), \<^verbatim>\<open>GoFmt\<close>
  (numbers and quoting), \<^verbatim>\<open>GoFlag\<close> (the flag package: parsing, usage text, diagnostics), \<^verbatim>\<open>GoHttp\<close> (responses and
  requests), \<^verbatim>\<open>GoMux\<close> (patterns of the request router, URL queries).  The shared packages: \<^verbatim>\<open>Models\<close> (\<^verbatim>\<open>pkg/models\<close>), \<^verbatim>\<open>Rules\<close>
  (\<^verbatim>\<open>pkg/rules\<close>: \<^verbatim>\<open>LoadFile\<close>, \<^verbatim>\<open>LoadDir\<close>, \<^verbatim>\<open>NewEvaluator\<close>, \<^verbatim>\<open>Evaluate\<close>), \<^verbatim>\<open>Entropy\<close> (\<^verbatim>\<open>pkg/entropy\<close>), \<^verbatim>\<open>Deps\<close>
  (\<^verbatim>\<open>pkg/deps\<close>), \<^verbatim>\<open>Signing\<close> (\<^verbatim>\<open>pkg/signing\<close>, with SHA-256 and HMAC executable), \<^verbatim>\<open>Cache\<close> (\<^verbatim>\<open>pkg/cache\<close>), \<^verbatim>\<open>Retry\<close>
  (\<^verbatim>\<open>pkg/retry\<close>), \<^verbatim>\<open>JobQueue\<close> (\<^verbatim>\<open>pkg/queue\<close>), \<^verbatim>\<open>Metrics\<close> (\<^verbatim>\<open>pkg/metrics\<close>), \<^verbatim>\<open>GitHub\<close> (\<^verbatim>\<open>pkg/github\<close>).  The services:
  \<^verbatim>\<open>AuditStore\<close> (the in-memory and the PostgreSQL store, and the handlers), \<^verbatim>\<open>PolicyEngine\<close>, \<^verbatim>\<open>Notifier\<close>, \<^verbatim>\<open>Analyzer\<close> (\<^verbatim>\<open>Run\<close> and everything
  it calls), \<^verbatim>\<open>AnalysisService\<close> (queue, consumer, pool, collectors, posting goroutines and shutdown as one transition system),
  \<^verbatim>\<open>RateLimit\<close> and \<^verbatim>\<open>Middleware\<close> (\<^verbatim>\<open>middleware/*.go\<close>), \<^verbatim>\<open>EventHub\<close> and \<^verbatim>\<open>Connections\<close>
  (\<^verbatim>\<open>server/ws.go\<close>: the hub, and the read and write pump of each connection with their deadlines), \<^verbatim>\<open>EventStream\<close>
  (\<^verbatim>\<open>server/sse.go\<close>), \<^verbatim>\<open>Gateway\<close> (configuration, webhook, jobs, routes, server), \<^verbatim>\<open>Services\<close>
  (what the \<^verbatim>\<open>main\<close> functions build from the environment and do on shutdown), \<^verbatim>\<open>ServiceRoutes\<close> (the routes of
  the other four services and the serving of a whole request).  The command: \<^verbatim>\<open>LitdCheck\<close>
  (\<^verbatim>\<open>check.go\<close>, \<^verbatim>\<open>testrules.go\<close>), \<^verbatim>\<open>LitdCli\<close> (\<^verbatim>\<open>scan\<close> and \<^verbatim>\<open>audit\<close> of \<^verbatim>\<open>main.go\<close>) and \<^verbatim>\<open>LitdMain\<close> (the flags of \<^verbatim>\<open>check\<close>
  and \<^verbatim>\<open>test-rules\<close>, usage, dispatch).  \<^verbatim>\<open>ClientFlows\<close> runs the client against the services it calls, and this
  theory composes the services.

  \<^bold>\<open>How code becomes definitions.\<close>  A struct is a record with prefixed field names, a function or method
  a definition of the same name (suffixed or qualified where names clash), its state an argument
  and a result.  An error is a value of \<open>go_error\<close>, a panic one of \<open>panic\<close>; an operation that can block
  gives the list or option of its outcomes, empty while it blocks.  Goroutines are steps of an
  inductive relation, one atomic action each, so that theorems on reachable states hold for every
  interleaving.  A handler is a function of the writer, the request and the state to the calls it makes
  on the writer, a possible panic and the new state, so that wrappers can observe the calls.
  Go slices that are shared between goroutines (the subscriber lists of the event broker) are
  array, length and capacity over an explicit store.  Atomic counters are 64-bit words, other
  counts are \<open>int\<close> or \<open>nat\<close>, and a \<open>float64\<close> is a real number, so rounding is not modelled.  The file system,
  git, the network, the database, the SMTP server, the YAML and JSON codecs, random bytes, the clock
  and the order of map iterations are parameters.

  \<^bold>\<open>Interfaces.\<close>  The locales state what a client relies on, and each is interpreted on the model's own
  operations: \<open>expiring_map\<close> (a cache that behaves like its history) on the TTL cache, \<open>job_queue\<close> on the
  in-memory queue, \<open>audit_store\<close> on the in-memory store (the PostgreSQL operations satisfy it too, under the
  named laws \<open>sql_insert_law\<close> and \<open>sql_select_law\<close> of the database), \<open>subscriptions\<close> on the event broker,
  \<open>route_table\<close> on the route tables of the five services.

  \<^bold>\<open>What is proved.\<close>  Analysis: the evaluator reports exactly what rules and directives call for, the
  scanners' soundness and blind spots, a round trip for \<^verbatim>\<open>go.mod\<close>, the score and verdict, and that the verdict
  of the policy engine, the exit code and every output format agree.  Services: no job is lost
  or duplicated in any interleaving, and every run drains, unless a goroutine that posts a result panics, which
  takes an address that does not parse or a pull request with a commit of fewer than eight bytes; the cache, the queue, the audit
  store and the event broker refine their abstract contracts; signatures verify exactly; queries
  carry no injection and number their placeholders as their arguments; the retry loop and the polling loop end and give what their last call gave; the
  hub never panics and delivers without gaps.  Gateway: the middleware never lets a panic out and
  guards the handlers, the rate limit bounds the runs of the handlers in the composed server, a webhook starts an analysis
  exactly when it is authentic and of the right kind, and a webhook that is accepted leads to a result
  on every run of the service without further requests (\<open>inevitable\<close>), in a bounded number of steps.
  Over any sequence of requests the audit service keeps exactly the well-formed posts.  A run of the hub with
  its connections is a run of the hub alone, and a closed connection is cleaned up in a bounded number of steps.
  Command line: flags before the directory take effect as written and those after it are ignored; a scan
  makes the gateway send exactly its job, and one that waits ends with what the analysis service has recorded
  by then; the filters of an audit query arrive as they were given.
  Several theorems state what the code does where it falls short of its intention: the policy engine
  fails open and its findings are ignored, the default entropy threshold is blind to short and
  hexadecimal values, pages of the in-memory store run off their end, streams can never open behind the
  logger, unsubscribing races with publishing, limiting the output hides failures, a check of changed files scans
  what the service leaves out, a short commit identifier kills the analysis service, and a notification that was
  accepted can be lost.

  \<^bold>\<open>Bounds.\<close>  Loops of the program are recursive functions with termination proofs; none needs fuel.  The
  only numeric bounds are the program's own: 512 queued jobs, four pooled jobs per worker, 64 events per
  client, 256 broadcasts, 50 annotations, 60 polls, 10 MiB of webhook body, 64 KiB of scanner line.

  \<^bold>\<open>Not modelled.\<close>  Opening a listening socket and the start of the processes, path cleaning and redirects by
  the router, log output other than the access log, the frames of the WebSocket library (a parameter), the
  evaluation of SQL by the database (a parameter with the laws above), and the tests, deployment files and
  documentation of the repository.
\<close>

section \<open>Traffic through the gateway\<close>

datatype traffic = Served timing genv request | PurgeAt real

fun traffic_time :: "traffic \<Rightarrow> real" where
  "traffic_time (Served tm env r) = tm_now tm"
| "traffic_time (PurgeAt t) = t"

definition connection :: writer where
  "connection = \<lparr> can_flush = True, can_hijack = True \<rparr>"

text \<open>
  The handlers of the gateway with a counter of their runs beside the state of the application: whenever
  the middleware calls them, and however often, the counter goes up.
\<close>

definition of_app :: "'a \<Rightarrow> 'b gateway \<Rightarrow> 'a gateway" where
  "of_app a s = \<lparr> gw_log = gw_log s, gw_limiter = gw_limiter s, gw_metrics = gw_metrics s, gw_app = a \<rparr>"

definition counting :: "'b gateway handler \<Rightarrow> ('b \<times> nat) gateway handler" where
  "counting mux w r s =
     (case mux w r (of_app (fst (gw_app s)) s) of
        (calls, p, s') \<Rightarrow> (calls, p, of_app (gw_app s', Suc (snd (gw_app s))) s'))"

text \<open>The client key of each request served, with the number of times the handlers ran for it.\<close>

fun traffic_run ::
  "Gateway.Config \<Rightarrow> instruments \<Rightarrow> traffic list \<Rightarrow> (app \<times> nat) gateway \<Rightarrow> (string \<times> nat) list \<times> (app \<times> nat) gateway" where
  "traffic_run cfg ins [] s = ([], s)"
| "traffic_run cfg ins (PurgeAt t # ts) s = traffic_run cfg ins ts (s\<lparr> gw_limiter := purge t (gw_limiter s) \<rparr>)"
| "traffic_run cfg ins (Served tm env r # ts) s =
     (case server_handler ins tm (counting (server_mux cfg env)) connection r s of (calls, p, s') \<Rightarrow>
      case traffic_run cfg ins ts s' of (rs, s'') \<Rightarrow> ((key r, snd (gw_app s') - snd (gw_app s)) # rs, s''))"

definition runs_for :: "string \<Rightarrow> (string \<times> nat) list \<Rightarrow> nat" where
  "runs_for ip rs = sum_list (map snd (filter (\<lambda>r. fst r = ip) rs))"

fun limiter_ops :: "traffic list \<Rightarrow> rl_op list" where
  "limiter_ops [] = []"
| "limiter_ops (PurgeAt t # ts) = Purge t # limiter_ops ts"
| "limiter_ops (Served tm env r # ts) = (if sr_method r = ''OPTIONS'' then [] else [Req (tm_now tm) (key r)]) @ limiter_ops ts"

lemma of_app_fields [simp]:
  "gw_app (of_app a s) = a" "gw_limiter (of_app a s) = gw_limiter s" "gw_metrics (of_app a s) = gw_metrics s" "gw_log (of_app a s) = gw_log s"
  by (simp_all add: of_app_def)

lemma counting_fields:
  "counting (server_mux cfg env) w r s = (calls, p, s') \<Longrightarrow> p = None \<and> gw_limiter s' = gw_limiter s \<and> snd (gw_app s') = Suc (snd (gw_app s))"
  by (auto simp: counting_def split: prod.splits dest!: server_mux_fields)

lemma server_limiter:
  "gw_limiter (snd (snd (server_handler ins tm (counting (server_mux cfg env)) w r s))) =
     (if sr_method r = ''OPTIONS'' then gw_limiter s else snd (allow (tm_now tm) (key r) (gw_limiter s)))"
  by (auto simp: middleware_defs key_def Let_def split: prod.splits option.splits if_splits dest!: counting_fields)

lemma server_runs:
  "snd (gw_app (snd (snd (server_handler ins tm (counting (server_mux cfg env)) w r s)))) =
     snd (gw_app s) + (if passes tm r s then 1 else 0)"
proof (cases "passes tm r s")
  case True
  obtain c0 p0 s0 where m: "counting (server_mux cfg env) wrapped r (entered ins tm r s) = (c0, p0, s0)" by (metis prod_cases3)
  then have "snd (gw_app s0) = Suc (snd (gw_app s))" using counting_fields[OF m] by (simp add: entered_def)
  with server_handler_passes[where mux = "counting (server_mux cfg env)", OF True m, of w] True show ?thesis by auto
next
  case False
  with server_handler_stops[OF False, of ins "counting (server_mux cfg env)" w] show ?thesis by auto
qed

lemma runs_for_Cons: "runs_for ip ((k, n) # rs) = (if k = ip then n else 0) + runs_for ip rs"
  by (simp add: runs_for_def)

lemma traffic_allowed:
  "runs_for ip (fst (traffic_run cfg ins ts s)) = allowed ip (fst (rl_run (gw_limiter s) (limiter_ops ts)))"
proof (induction cfg ins ts s rule: traffic_run.induct)
  case (3 cfg ins tm env r ts s)
  obtain calls p s' where h: "server_handler ins tm (counting (server_mux cfg env)) connection r s = (calls, p, s')" by (metis prod_cases3)
  then have ih: "runs_for ip (fst (traffic_run cfg ins ts s')) = allowed ip (fst (rl_run (gw_limiter s') (limiter_ops ts)))"
    using 3[OF h[symmetric] refl] by simp
  have lim: "gw_limiter s' = (if sr_method r = ''OPTIONS'' then gw_limiter s else snd (allow (tm_now tm) (key r) (gw_limiter s)))"
    using server_limiter[of ins tm cfg env connection r s] h by simp
  have runs: "snd (gw_app s') - snd (gw_app s) = (if passes tm r s then 1 else 0)"
    using server_runs[of ins tm cfg env connection r s] h by simp
  show ?case
  proof (cases "sr_method r = ''OPTIONS''")
    case True
    then show ?thesis using h ih lim runs by (simp add: runs_for_Cons passes_def case_prod_beta)
  next
    case False
    then show ?thesis using h ih lim runs
      by (simp add: runs_for_Cons allowed_Cons passes_def rl_run_Req case_prod_beta del: rl_run.simps)
  qed
qed (simp_all add: allowed_def runs_for_def)

lemma limiter_ops_sorted:
  "sorted (map traffic_time ts) \<Longrightarrow> sorted (map rl_time (limiter_ops ts)) \<and> set (map rl_time (limiter_ops ts)) \<subseteq> set (map traffic_time ts)"
  by (induction ts rule: limiter_ops.induct) (auto, (metis image_eqI subset_iff)?)

definition start_traffic :: "int \<Rightarrow> metric_store \<Rightarrow> Gateway.Config \<Rightarrow> (app \<times> nat) gateway" where
  "start_traffic now h cfg = (let s = snd (server_New now h cfg) in of_app (gw_app s, 0) s)"

text \<open>
  C3: The rate limit of the whole gateway.  For a configuration whose burst is at least one request
  and refills within ten minutes, over any traffic of requests and purges at nondecreasing times
  between \<open>t\<close> and \<open>e\<close>, from the start of the server on, the number of runs of the handlers behind the
  middleware for requests of a client key is at most the burst plus the rate times the elapsed time,
  whatever the requests are.
\<close>

theorem server_rate_limit:
  assumes "1 \<le> cf_RateLimitBurst cfg" and "cf_RateLimitBurst cfg \<le> 600 * cf_RateLimitRPS cfg"
    and "sorted (t # map traffic_time ts @ [e])"
  shows "real (runs_for ip (fst (traffic_run cfg ins ts (start_traffic now h cfg))))
    \<le> cf_RateLimitBurst cfg + cf_RateLimitRPS cfg * (e - t)"
proof -
  let ?rl = "NewRateLimiter (cf_RateLimitRPS cfg) (cf_RateLimitBurst cfg)"
  have "rl_wf ?rl" "seen_by t ?rl"
    using assms(1,2) by (auto simp: rl_wf_def seen_by_def NewRateLimiter_def)
  moreover have "sorted (t # map rl_time (limiter_ops ts) @ [e])"
    using limiter_ops_sorted[of ts] assms(3) by (fastforce simp: sorted_append)
  moreover have "gw_limiter (start_traffic now h cfg) = ?rl"
    by (simp add: start_traffic_def server_New_def Let_def split: prod.splits)
  ultimately show ?thesis
    using rl_run_bound[of ?rl t "limiter_ops ts" e ip] by (simp add: traffic_allowed credit_def NewRateLimiter_def mult.commute)
qed


section \<open>From a webhook to a result\<close>

text \<open>The answer of the analysis service to a job it could enqueue.\<close>

definition analysis_reply :: "(string \<Rightarrow> go_error + Job) \<Rightarrow> (Job \<Rightarrow> string) \<Rightarrow> int \<Rightarrow> HttpRequest \<Rightarrow> HttpReply" where
  "analysis_reply decode encode now req =
     (let resp = (case post_job now (decode (rq_body req)) of Inl resp \<Rightarrow> resp | Inr job \<Rightarrow> post_reply encode job)
      in \<lparr> rp_status = status_of resp, rp_body = rs_body resp \<rparr>)"

lemma prepare_job_queued:
  "j_Status job = JobStatusQueued \<Longrightarrow> j_CreatedAt job \<noteq> 0 \<Longrightarrow> prepare_job now job = job"
  by (simp add: prepare_job_def)

lemma analysis_takes_job:
  assumes "decode (en_marshal_job env job) = Inr job"
    and "en_url_error env (cf_AnalysisServiceURL cfg @ ''/api/v1/jobs'') = None"
    and "en_net env (job_request cfg env job) = Inr (analysis_reply decode encode now (job_request cfg env job))"
  shows "takes_job cfg env job"
  using assms
  by (simp add: takes_job_def analysis_reply_def job_request_def post_job_def post_reply_def status_codes Let_def)

lemma enqueued_gets_result:
  assumes "reachable w s" and "\<not> sv_cancelled s" and "0 < w" and "length (ch (sv_queue s)) < ch_cap (sv_queue s)"
    and "prepare_job now job = job" and "\<not> sv_panicked s" and "safe_posts s" and "post_safe (sv_url_error s) (sv_analyzer s) job"
  shows "\<exists>s1. svc_step s s1 \<and> sv_accepted s1 = sv_accepted s @ [job]
    \<and> inevitable (\<lambda>s'. sv_results s' (j_ID job) \<noteq> None) s1
    \<and> (\<forall>n s'. (internal ^^ n) s1 s' \<longrightarrow> n \<le> work_left s1)"
proof -
  let ?q = "(sv_queue s)\<lparr> ch := ch (sv_queue s) @ [job] \<rparr>"
  let ?s1 = "s\<lparr> sv_queue := ?q, sv_pending := Suc (sv_pending s), sv_accepted := sv_accepted s @ [job] \<rparr>"
  have step: "svc_step s ?s1"
    by (intro svc_step.enqueue[where now = now and body = "Inr job"]) (use assms(4-6) in \<open>auto simp: post_job_def Enqueue_def\<close>)
  note reach = reachable_step[OF assms(1) step]
  have "safe_posts ?s1" using assms(7,8) by (simp add: safe_posts_def)
  then have "inevitable (\<lambda>s'. dom (sv_results s') = j_ID ` set (sv_accepted ?s1) \<and> mset (sv_done s') = mset (sv_accepted ?s1)) ?s1"
    using inevitable_results[OF reach _ assms(3)] assms(2,6) by simp
  then have "inevitable (\<lambda>s'. sv_results s' (j_ID job) \<noteq> None) ?s1"
    by (rule inevitable_mono) (auto simp: dom_def)
  moreover have "n \<le> work_left ?s1" if "(internal ^^ n) ?s1 s'" for n s'
    using internal_run[OF that reach] assms(2) by simp
  ultimately show ?thesis using step by fastforce
qed

definition ex_config :: Gateway.Config where
  "ex_config = Load (\<lambda>s. None) (\<lambda>k. [])"

definition ex_pr :: githubPREvent where
  "ex_pr = \<lparr> ev_Action = ''opened'', ev_Number = 7, ev_SHA = ''abcdef0123'', ev_Ref = ''main'',
             ev_CloneURL = ''https://example.com/o/r.git'', ev_FullName = ''o/r'' \<rparr>"

definition ex_timing :: timing where
  "ex_timing = \<lparr> tm_now = 0, tm_ms = 3, tm_elapsed = ''3ms'', tm_stack = (\<lambda>p. []) \<rparr>"

text \<open>The codec of the example knows one job, the network is the analysis service.\<close>

definition ex_env_of :: "Job \<Rightarrow> genv" where
  "ex_env_of job =
     \<lparr> en_net = (\<lambda>req. Inr (analysis_reply (\<lambda>s. Inr job) (\<lambda>j. []) 9 req)), en_url_error = (\<lambda>u. None),
       en_marshal_job = (\<lambda>j. ''{}''), en_encode_job = (\<lambda>j. ''{}''), en_encode_map = (\<lambda>m. ''{}''),
       en_decode_submit = (\<lambda>s e. Inl ContextCanceled), en_decode_pr = (\<lambda>s. Inr ex_pr), en_random = ''r'', en_now = 9,
       en_marshal_event = (\<lambda>e. Inr []), en_grow = (\<lambda>n. n), en_sse_in = [],
       en_runtime = \<lparr> num_goroutine = 1, uptime_seconds = 1, heap_alloc = 1 \<rparr>, en_order = ([], [], []),
       en_upgrade = (\<lambda>w r. Inl []) \<rparr>"

definition ex_genv :: genv where
  "ex_genv = ex_env_of (pr_job (ex_env_of (ex_job [])) ex_pr)"

definition ex_hook :: request where
  "ex_hook = \<lparr> sr_method = ''POST'', sr_path = ''/webhooks/github'',
     sr_header = (\<lambda>k. if k = ''X-GitHub-Event'' then ''pull_request'' else []), sr_remoteAddr = ''10.0.0.1:5'',
     sr_body = ''{}'', sr_body_err = None \<rparr>"

lemma ex_hook_wanted: "wants_analysis ex_config ex_genv ex_hook ex_pr"
  by (simp add: wants_analysis_def read_limited_def body_limit_def ex_hook_def authentic_def ex_config_def Load_def getEnv_def
      ex_genv_def ex_env_of_def ex_pr_def)

text \<open>
  C2: From a webhook to a result.  When a webhook asks for an analysis, the JSON codec gives back the
  job it encoded, the clock is set, the analysis service is up, not shutting down, with workers
  and room in its queue, the addresses it posts to parse and the commits it will comment on, this one included, have at least
  eight bytes, then the webhook is answered 202, the service accepts exactly the job of the
  event, and on every run of the service without further requests and without shutdown a state with a
  result under the identifier the caller got is reached; such a run has at most as many steps as there is work left.
\<close>

theorem webhook_to_result:
  assumes "wants_analysis cfg env r ev"
    and "decode (en_marshal_job env (pr_job env ev)) = Inr (pr_job env ev)"
    and "en_now env \<noteq> 0" and "en_url_error env (cf_AnalysisServiceURL cfg @ ''/api/v1/jobs'') = None"
    and "en_net env (job_request cfg env (pr_job env ev)) =
           Inr (analysis_reply decode encode now (job_request cfg env (pr_job env ev)))"
    and "reachable w s" and "\<not> sv_cancelled s" and "0 < w" and "length (ch (sv_queue s)) < ch_cap (sv_queue s)"
    and "\<not> sv_panicked s" and "safe_posts s" and "post_safe (sv_url_error s) (sv_analyzer s) (pr_job env ev)"
  shows "status_of (respond (fst (GitHubWebhookHandler cfg env r a))) = 202
    \<and> (\<exists>s1. svc_step s s1 \<and> sv_accepted s1 = sv_accepted s @ [pr_job env ev]
         \<and> inevitable (\<lambda>s'. sv_results s' (Gateway.newID (en_random env)) \<noteq> None) s1
         \<and> (\<forall>n s'. (internal ^^ n) s1 s' \<longrightarrow> n \<le> work_left s1))"
proof -
  have "takes_job cfg env (pr_job env ev)" by (rule analysis_takes_job[OF assms(2,4,5)])
  then have "status_of (respond (fst (GitHubWebhookHandler cfg env r a))) = 202"
    using enqueueJob_spec[of cfg env "pr_job env ev" a] unfolding webhook_wanted[OF assms(1)]
    by (auto simp: status_codes split: prod.splits option.splits)
  moreover have "prepare_job now (pr_job env ev) = pr_job env ev"
    by (rule prepare_job_queued) (simp_all add: pr_job_def Let_def assms(3))
  moreover have "j_ID (pr_job env ev) = Gateway.newID (en_random env)" by (simp add: pr_job_def Let_def)
  ultimately show ?thesis using enqueued_gets_result[OF assms(6-9), of now "pr_job env ev"] assms(10-12) by simp
qed

theorem webhook_to_result_witness:
  "status_of (respond (fst (GitHubWebhookHandler ex_config ex_genv ex_hook \<lparr> ap_sent = [], ap_sse = NewSSEBroker, ap_hub = NewHub \<rparr>))) = 202
    \<and> (\<exists>s1. svc_step ex_analysis s1 \<and> sv_accepted s1 = sv_accepted ex_analysis @ [pr_job ex_genv ex_pr]
         \<and> inevitable (\<lambda>s'. sv_results s' (Gateway.newID (en_random ex_genv)) \<noteq> None) s1)"
proof -
  have job: "pr_job ex_genv ex_pr = pr_job (ex_env_of (ex_job [])) ex_pr"
    by (simp add: pr_job_def ex_genv_def ex_env_of_def)
  have "en_net ex_genv req = Inr (analysis_reply (\<lambda>s. Inr (pr_job ex_genv ex_pr)) (\<lambda>j. []) 9 req)" for req
    unfolding job by (simp add: ex_genv_def ex_env_of_def)
  moreover have "en_now ex_genv \<noteq> 0" "en_url_error ex_genv u = None" for u
    by (simp_all add: ex_genv_def ex_env_of_def)
  moreover have "\<not> sv_cancelled ex_analysis" "length (ch (sv_queue ex_analysis)) < ch_cap (sv_queue ex_analysis)" "\<not> sv_panicked ex_analysis"
    by (simp_all add: ex_analysis_def)
  moreover have "safe_posts ex_analysis"
    by (simp add: safe_posts_def ex_analysis_def post_safe_def prepare_job_def ex_job_def Let_def)
  moreover have "post_safe (sv_url_error ex_analysis) (sv_analyzer ex_analysis) (pr_job ex_genv ex_pr)"
    by (simp add: post_safe_def ex_analysis_def pr_job_def ex_pr_def Let_def)
  ultimately show ?thesis
    using webhook_to_result[OF ex_hook_wanted refl, of "\<lambda>j. []" 9 1 ex_analysis] ex_reachable by (meson zero_less_one)
qed

theorem server_rate_limit_witness:
  "real (runs_for ''10.0.0.1:5'' (fst (traffic_run ex_config (fst (server_New 0 ex_store ex_config))
      [Served ex_timing ex_genv ex_hook, PurgeAt 1] (start_traffic 0 ex_store ex_config))))
    \<le> cf_RateLimitBurst ex_config + cf_RateLimitRPS ex_config * (2 - 0)"
  by (rule server_rate_limit) (simp_all add: ex_config_def Load_def getEnvFloat_def ex_timing_def)

end
